(* ===== verification/Netqmon_Prelude.thy ===== *)
theory Netqmon_Prelude
  imports Complex_Main "HOL-Library.Word" "HOL-Library.Char_ord" "HOL-Library.List_Lexorder"
    "HOL-Library.Product_Lexorder" "HOL-Library.Multiset" "HOL-Library.Code_Target_Nat"
begin

text \<open>
  Shared vocabulary of the development: the fixed-width integer types of the Rust sources,
  \<open>Result<T, String>\<close> as a sum type with the combinators that stand for the question-mark
  operator and for loops with an early return, saturating and checked arithmetic on \<open>i64\<close>,
  the comparison part of \<open>f64\<close>, and the generic lemmas on lists, adjacent pairs and stable
  sorting that the component theories use.
\<close>

unbundle bit_operations_syntax

named_theorems res_simps \<open>equations of the result combinators\<close>

section \<open>Fixed-width integers\<close>

type_synonym u8 = "8 word"
type_synonym u16 = "16 word"
type_synonym u32 = "32 word"
type_synonym u64 = "64 word"

text \<open>
  An \<open>i64\<close> is an \<open>int\<close>; every operation of the sources on it is a comparison, a saturating
  operation or a checked one, written out here with the bounds of the type.
\<close>

definition i64_min :: int where
  "i64_min = - (2 ^ 63)"

definition i64_max :: int where
  "i64_max = 2 ^ 63 - 1"

definition is_i64 :: "int \<Rightarrow> bool" where
  "is_i64 x \<longleftrightarrow> i64_min \<le> x \<and> x \<le> i64_max"

definition sat_i64 :: "int \<Rightarrow> int" where
  "sat_i64 x = max i64_min (min i64_max x)"

definition saturating_add_i64 :: "int \<Rightarrow> int \<Rightarrow> int" where
  "saturating_add_i64 a b = sat_i64 (a + b)"

definition saturating_sub_i64 :: "int \<Rightarrow> int \<Rightarrow> int" where
  "saturating_sub_i64 a b = sat_i64 (a - b)"

definition checked_add_i64 :: "int \<Rightarrow> int \<Rightarrow> int option" where
  "checked_add_i64 a b = (if is_i64 (a + b) then Some (a + b) else None)"

lemma sat_i64_is_i64: "is_i64 (sat_i64 x)"
  by (simp add: sat_i64_def is_i64_def i64_min_def i64_max_def)

lemma sat_i64_id: "is_i64 x \<Longrightarrow> sat_i64 x = x"
  by (simp add: sat_i64_def is_i64_def)

lemma saturating_add_le:
  assumes "is_i64 a" and "0 \<le> b"
  shows "saturating_add_i64 a b \<le> a + b"
  using assms by (simp add: saturating_add_i64_def sat_i64_def is_i64_def)

lemma saturating_add_ge:
  assumes "is_i64 a" and "0 \<le> b"
  shows "a \<le> saturating_add_i64 a b"
  using assms by (simp add: saturating_add_i64_def sat_i64_def is_i64_def)

text \<open>Saturating and checked operations on unsigned words.\<close>

definition saturating_add_w :: "'a::len word \<Rightarrow> 'a word \<Rightarrow> 'a word" where
  "saturating_add_w a b = (if unat a + unat b < 2 ^ LENGTH('a) then a + b else - 1)"

definition saturating_sub_w :: "'a::len word \<Rightarrow> 'a word \<Rightarrow> 'a word" where
  "saturating_sub_w a b = (if b \<le> a then a - b else 0)"

definition saturating_mul_w :: "'a::len word \<Rightarrow> 'a word \<Rightarrow> 'a word" where
  "saturating_mul_w a b = (if unat a * unat b < 2 ^ LENGTH('a) then a * b else - 1)"

definition checked_sub_w :: "'a::len word \<Rightarrow> 'a word \<Rightarrow> 'a word option" where
  "checked_sub_w a b = (if b \<le> a then Some (a - b) else None)"

definition checked_add_w :: "'a::len word \<Rightarrow> 'a word \<Rightarrow> 'a word option" where
  "checked_add_w a b = (if unat a + unat b < 2 ^ LENGTH('a) then Some (a + b) else None)"

lemma unat_saturating_sub_w: "unat (saturating_sub_w a b) = unat a - unat b"
  by (simp add: saturating_sub_w_def unat_sub_if' word_le_nat_alt)

section \<open>The comparison part of f64\<close>

text \<open>
  The sources only compare \<open>f64\<close> values and test them for finiteness. A finite double is
  represented by its exact rational value; the comparisons of IEEE 754 on doubles are the
  comparisons of those values, and every comparison with a NaN is false.
\<close>

datatype f64 = F64_NaN | F64_PosInf | F64_NegInf | F64_Fin rat

fun is_finite :: "f64 \<Rightarrow> bool" where
  "is_finite (F64_Fin _) = True"
| "is_finite _ = False"

fun f64_le :: "f64 \<Rightarrow> f64 \<Rightarrow> bool" where
  "f64_le F64_NaN _ = False"
| "f64_le _ F64_NaN = False"
| "f64_le F64_NegInf _ = True"
| "f64_le _ F64_PosInf = True"
| "f64_le F64_PosInf _ = False"
| "f64_le _ F64_NegInf = False"
| "f64_le (F64_Fin a) (F64_Fin b) = (a \<le> b)"

text \<open>The literal \<open>0.80\<close> denotes the double nearest to four fifths.\<close>

definition f64_0_80 :: f64 where
  "f64_0_80 = F64_Fin (3602879701896397 / 4503599627370496)"

definition f64_in_range :: "f64 \<Rightarrow> f64 \<Rightarrow> f64 \<Rightarrow> bool" where
  "f64_in_range lo hi x \<longleftrightarrow> f64_le lo x \<and> f64_le x hi"

section \<open>Results\<close>

type_synonym 'a res = "string + 'a"

abbreviation (input) Ok :: "'a \<Rightarrow> 'e + 'a" where "Ok \<equiv> Inr"
abbreviation (input) Err :: "'e \<Rightarrow> 'e + 'a" where "Err \<equiv> Inl"

definition and_then :: "'e + 'a \<Rightarrow> ('a \<Rightarrow> 'e + 'b) \<Rightarrow> 'e + 'b" where
  "and_then m f = (case m of Inl e \<Rightarrow> Inl e | Inr x \<Rightarrow> f x)"

definition ok_or :: "'e \<Rightarrow> 'a option \<Rightarrow> 'e + 'a" where
  "ok_or e x = (case x of None \<Rightarrow> Inl e | Some v \<Rightarrow> Inr v)"

definition ensure :: "bool \<Rightarrow> 'e \<Rightarrow> 'e + unit" where
  "ensure ok e = (if ok then Inr () else Inl e)"

text \<open>\<open>map_err\<close>: rewrite the error of a failed result.\<close>

definition map_err :: "('e \<Rightarrow> 'f) \<Rightarrow> 'e + 'a \<Rightarrow> 'f + 'a" where
  "map_err f m = (case m of Inl e \<Rightarrow> Inl (f e) | Inr x \<Rightarrow> Inr x)"

definition is_ok :: "'e + 'a \<Rightarrow> bool" where
  "is_ok m = (case m of Inl _ \<Rightarrow> False | Inr _ \<Rightarrow> True)"

text \<open>A \<open>for\<close> loop whose body may return early with an error, threading a state.\<close>

fun try_fold :: "('s \<Rightarrow> 'a \<Rightarrow> 'e + 's) \<Rightarrow> 's \<Rightarrow> 'a list \<Rightarrow> 'e + 's" where
  "try_fold f s [] = Inr s"
| "try_fold f s (x # xs) = and_then (f s x) (\<lambda>s'. try_fold f s' xs)"

fun try_each :: "('a \<Rightarrow> 'e + unit) \<Rightarrow> 'a list \<Rightarrow> 'e + unit" where
  "try_each f [] = Inr ()"
| "try_each f (x # xs) = and_then (f x) (\<lambda>_. try_each f xs)"

text \<open>\<open>collect::<Result<Vec<_>, _>>()\<close>.\<close>

fun try_map :: "('a \<Rightarrow> 'e + 'b) \<Rightarrow> 'a list \<Rightarrow> 'e + 'b list" where
  "try_map f [] = Inr []"
| "try_map f (x # xs) = and_then (f x) (\<lambda>y. and_then (try_map f xs) (\<lambda>ys. Inr (y # ys)))"

lemma and_then_Inl [simp]: "and_then (Inl e) f = Inl e"
  by (simp add: and_then_def)

lemma and_then_Inr [simp]: "and_then (Inr x) f = f x"
  by (simp add: and_then_def)

lemma and_then_eq_Inr [res_simps]: "and_then m f = Inr y \<longleftrightarrow> (\<exists>x. m = Inr x \<and> f x = Inr y)"
  by (simp add: and_then_def split: sum.splits)

lemma and_then_eq_Inl:
  "and_then m f = Inl e \<longleftrightarrow> m = Inl e \<or> (\<exists>x. m = Inr x \<and> f x = Inl e)"
  by (simp add: and_then_def split: sum.splits)

lemma ok_or_eq_Inr [res_simps]: "ok_or e x = Inr v \<longleftrightarrow> x = Some v"
  by (simp add: ok_or_def split: option.splits)

lemma ok_or_simps [simp]: "ok_or e None = Inl e" "ok_or e (Some v) = Inr v"
  by (simp_all add: ok_or_def)

lemma ensure_eq_Inr [simp]: "ensure b e = Inr u \<longleftrightarrow> b"
  by (simp add: ensure_def)

lemma ensure_simps [simp]: "ensure True e = Inr ()" "ensure False e = Inl e"
  by (simp_all add: ensure_def)

lemma map_err_eq_Inr [simp]: "map_err f m = Inr x \<longleftrightarrow> m = Inr x"
  by (simp add: map_err_def split: sum.splits)

lemma map_err_simps [simp]: "map_err f (Inl e) = Inl (f e)" "map_err f (Inr x) = Inr x"
  by (simp_all add: map_err_def)

lemma is_ok_simps [simp]: "is_ok (Inr x)" "\<not> is_ok (Inl e)"
  by (simp_all add: is_ok_def)

lemma is_ok_iff: "is_ok m \<longleftrightarrow> (\<exists>x. m = Inr x)"
  by (simp add: is_ok_def split: sum.splits)

lemma try_fold_is_ok: "(\<And>s x. x \<in> set xs \<Longrightarrow> is_ok (f s x)) \<Longrightarrow> is_ok (try_fold f s xs)"
proof (induction xs arbitrary: s)
  case (Cons a xs)
  from Cons.prems [of a s] obtain s' where "f s a = Inr s'" by (auto simp: is_ok_iff)
  with Cons show ?case by simp
qed simp

lemma if_Err_eq_Inr [res_simps]: "(if c then Inl e else m) = Inr y \<longleftrightarrow> \<not> c \<and> m = Inr y"
  by simp

lemma try_each_eq_Inr [res_simps]: "try_each f xs = Inr u \<longleftrightarrow> (\<forall>x\<in>set xs. f x = Inr ())"
  by (induction xs) (auto simp: res_simps)

lemma try_map_length: "try_map f xs = Inr ys \<Longrightarrow> length ys = length xs"
  by (induction xs arbitrary: ys) (auto simp: res_simps)

lemma try_map_Inr_map: "(\<And>x. x \<in> set xs \<Longrightarrow> f x = Inr (g x)) \<Longrightarrow> try_map f xs = Inr (map g xs)"
  by (induction xs) auto

lemma try_map_eq_Inr: "try_map f xs = Inr ys \<longleftrightarrow> list_all2 (\<lambda>x y. f x = Inr y) xs ys"
  by (induction xs arbitrary: ys) (auto simp: res_simps list_all2_Cons1)

lemma try_fold_append:
  "try_fold f s (xs @ ys) = and_then (try_fold f s xs) (\<lambda>s'. try_fold f s' ys)"
  by (induction xs arbitrary: s) (auto simp: and_then_def split: sum.splits)

text \<open>The invariant rule of a loop with early returns.\<close>

lemma try_fold_invariant:
  assumes "try_fold f s xs = Inr s'" and "P s"
    and "\<And>t x t'. x \<in> set xs \<Longrightarrow> P t \<Longrightarrow> f t x = Inr t' \<Longrightarrow> P t'"
  shows "P s'"
  using assms
proof (induction xs arbitrary: s)
  case Nil
  then show ?case by simp
next
  case (Cons x xs)
  from Cons.prems(1) obtain t where t: "f s x = Inr t" "try_fold f t xs = Inr s'"
    by (auto simp: res_simps)
  have "P t" using Cons.prems(2) t(1) by (rule Cons.prems(3) [rotated]) simp
  show ?case
    by (rule Cons.IH [OF t(2) \<open>P t\<close>]) (auto intro: Cons.prems(3))
qed

text \<open>The same rule for a relation between the processed prefix and the state.\<close>

lemma try_fold_prefix_invariant:
  assumes "try_fold f s xs = Inr s'" and "P [] s"
    and "\<And>done x t t'. P done t \<Longrightarrow> x \<in> set xs \<Longrightarrow> f t x = Inr t' \<Longrightarrow> P (done @ [x]) t'"
  shows "P xs s'"
proof -
  have "try_fold f t ys = Inr s' \<Longrightarrow> P zs t \<Longrightarrow> xs = zs @ ys \<Longrightarrow> P xs s'" for t ys zs
  proof (induction ys arbitrary: t zs)
    case Nil
    then show ?case by simp
  next
    case (Cons y ys)
    from Cons.prems(1) obtain t' where t': "f t y = Inr t'" "try_fold f t' ys = Inr s'"
      by (auto simp: res_simps)
    have "P (zs @ [y]) t'" using Cons.prems(2,3) t'(1) by (intro assms(3)) auto
    with t'(2) Cons.prems(3) show ?case by (intro Cons.IH [of t' "zs @ [y]"]) auto
  qed
  from this [OF assms(1) assms(2)] show ?thesis by simp
qed

section \<open>Adjacent pairs\<close>

text \<open>\<open>slice.windows(2)\<close> as a list of pairs, and what "no adjacent pair is out of order" means.\<close>

definition windows2 :: "'a list \<Rightarrow> ('a \<times> 'a) list" where
  "windows2 xs = zip xs (tl xs)"

lemma windows2_simps [simp]:
  "windows2 [] = []" "windows2 [x] = []" "windows2 (x # y # ys) = (x, y) # windows2 (y # ys)"
  by (simp_all add: windows2_def)

lemma windows2_strict_sorted:
  fixes f :: "'a \<Rightarrow> 'b::linorder"
  shows "(\<exists>(a, b)\<in>set (windows2 xs). f b \<le> f a) \<longleftrightarrow> \<not> sorted_wrt (<) (map f xs)"
proof (induction xs)
  case Nil
  then show ?case by simp
next
  case (Cons x xs)
  show ?case
  proof (cases xs)
    case Nil
    then show ?thesis by simp
  next
    case (Cons y ys)
    have "(\<exists>(a, b)\<in>set (windows2 (x # xs)). f b \<le> f a)
        \<longleftrightarrow> f y \<le> f x \<or> \<not> sorted_wrt (<) (map f xs)"
      using Cons.IH Cons by auto
    also have "\<dots> \<longleftrightarrow> \<not> sorted_wrt (<) (map f (x # xs))"
      unfolding Cons by (auto simp: not_le) (meson less_trans)+
    finally show ?thesis .
  qed
qed

lemma strict_sorted_map_distinct:
  fixes f :: "'a \<Rightarrow> 'b::linorder"
  shows "sorted_wrt (<) (map f xs) \<Longrightarrow> distinct (map f xs)"
  by (simp add: strict_sorted_iff)

section \<open>Searching\<close>

lemma find_Some_iff_dest: "find P xs = Some x \<Longrightarrow> x \<in> set xs \<and> P x"
  by (auto simp: find_Some_iff)

text \<open>Where a key is unique, looking an element up by its key finds it.\<close>

lemma find_key_unique:
  assumes "distinct (map k xs)" and "x \<in> set xs"
  shows "find (\<lambda>y. k y = k x) xs = Some x"
  using assms by (induction xs) (auto simp: image_iff)

lemma find_sort_key_first:
  fixes f :: "'a \<Rightarrow> 'b::linorder"
  assumes "find P (sort_key f xs) = Some x"
  shows "x \<in> set xs \<and> P x \<and> (\<forall>y\<in>set xs. P y \<longrightarrow> f x \<le> f y)"
proof -
  have "find P ys = Some x \<Longrightarrow> sorted (map f ys) \<Longrightarrow> \<forall>y\<in>set ys. P y \<longrightarrow> f x \<le> f y" for ys
    by (induction ys) (auto split: if_splits)
  moreover have "x \<in> set xs \<and> P x"
    using find_Some_iff_dest [OF assms] by simp
  ultimately show ?thesis using assms by fastforce
qed

lemma find_sort_key_None: "find P (sort_key f xs) = None \<longleftrightarrow> (\<forall>y\<in>set xs. \<not> P y)"
  by (auto simp: find_None_iff)

section \<open>Consecutive duplicates\<close>

text \<open>\<open>Vec::dedup\<close> removes consecutive repeated elements; the library's \<open>remdups_adj\<close>.\<close>

lemma dedup_sort_strict:
  fixes xs :: "'a::linorder list"
  shows "sorted_wrt (<) (remdups_adj (sort xs)) \<and> set (remdups_adj (sort xs)) = set xs"
proof -
  have "sorted ys \<Longrightarrow> sorted_wrt (<) (remdups_adj ys)" for ys :: "'a list"
    by (induction ys rule: remdups_adj.induct) (auto simp: less_le)
  then show ?thesis by simp
qed

lemma find_map_option: "find P (map f xs) = map_option f (find (P \<circ> f) xs)"
  by (induction xs) auto

lemma find_False: "find (\<lambda>_. False) xs = None"
  by (induction xs) auto

lemma find_equal_key:
  "w \<in> set xs \<Longrightarrow> map_option k (find (\<lambda>x. k w = k x) xs) = Some (k w)"
  by (induction xs) auto

lemma distinct_map_key_eq:
  "distinct (map k xs) \<Longrightarrow> x \<in> set xs \<Longrightarrow> y \<in> set xs \<Longrightarrow> k x = k y \<Longrightarrow> x = y"
  by (simp add: distinct_map inj_on_def)

section \<open>Stable sorting by a key\<close>

lemma strict_sorted_sort_key:
  fixes f :: "'a \<Rightarrow> 'b::linorder"
  assumes "distinct (map f xs)"
  shows "sorted_wrt (<) (map f (sort_key f xs))"
proof -
  have "mset (map f (sort_key f xs)) = mset (map f xs)" by simp
  then have "distinct (map f (sort_key f xs))" using assms by (metis mset_eq_imp_distinct_iff)
  then show ?thesis by (simp add: strict_sorted_iff)
qed

lemma sort_key_unique:
  fixes f :: "'a \<Rightarrow> 'b::linorder"
  assumes "mset xs = mset ys" and "distinct (map f xs)"
  shows "sort_key f xs = sort_key f ys"
  using assms by (intro sort_key_inj_key_eq) (auto simp: distinct_map)

end
