(* ===== verification/Rust_Str.thy ===== *)
theory Rust_Str
  imports Netqmon_Prelude
begin

text \<open>
  The part of Rust's string library the sources use. A Rust \<open>String\<close> is its UTF-8 byte
  sequence, a \<open>string\<close> of 8-bit characters: \<open>len\<close> counts bytes, the comparison of strings is
  the lexicographic order of the bytes, and the operations on Unicode scalar values
  (\<open>chars().count()\<close>, \<open>char::is_control\<close>, \<open>trim\<close>) read the encoded bytes.
\<close>

section \<open>ASCII\<close>

definition byte_val :: "char \<Rightarrow> nat" where
  "byte_val c = of_char c"

definition is_ascii_digit :: "char \<Rightarrow> bool" where
  "is_ascii_digit c \<longleftrightarrow> CHR ''0'' \<le> c \<and> c \<le> CHR ''9''"

definition is_ascii_upper :: "char \<Rightarrow> bool" where
  "is_ascii_upper c \<longleftrightarrow> CHR ''A'' \<le> c \<and> c \<le> CHR ''Z''"

definition is_ascii_lower :: "char \<Rightarrow> bool" where
  "is_ascii_lower c \<longleftrightarrow> CHR ''a'' \<le> c \<and> c \<le> CHR ''z''"

definition is_ascii_alphanumeric :: "char \<Rightarrow> bool" where
  "is_ascii_alphanumeric c \<longleftrightarrow> is_ascii_digit c \<or> is_ascii_upper c \<or> is_ascii_lower c"

definition is_ascii_hexdigit :: "char \<Rightarrow> bool" where
  "is_ascii_hexdigit c \<longleftrightarrow>
     is_ascii_digit c \<or> CHR ''a'' \<le> c \<and> c \<le> CHR ''f'' \<or> CHR ''A'' \<le> c \<and> c \<le> CHR ''F''"

definition is_ascii :: "string \<Rightarrow> bool" where
  "is_ascii s \<longleftrightarrow> (\<forall>c\<in>set s. byte_val c < 128)"

definition ascii_upper_char :: "char \<Rightarrow> char" where
  "ascii_upper_char c = (if is_ascii_lower c then char_of (byte_val c - 32) else c)"

definition ascii_lower_char :: "char \<Rightarrow> char" where
  "ascii_lower_char c = (if is_ascii_upper c then char_of (byte_val c + 32) else c)"

definition to_ascii_uppercase :: "string \<Rightarrow> string" where
  "to_ascii_uppercase s = map ascii_upper_char s"

definition to_ascii_lowercase :: "string \<Rightarrow> string" where
  "to_ascii_lowercase s = map ascii_lower_char s"

definition eq_ignore_ascii_case :: "string \<Rightarrow> string \<Rightarrow> bool" where
  "eq_ignore_ascii_case a b \<longleftrightarrow> to_ascii_lowercase a = to_ascii_lowercase b"

section \<open>Unicode scalar values in UTF-8\<close>

text \<open>A scalar value is one byte that is not a continuation byte, with its continuation bytes.\<close>

definition is_continuation :: "char \<Rightarrow> bool" where
  "is_continuation c \<longleftrightarrow> 128 \<le> byte_val c \<and> byte_val c < 192"

definition chars_count :: "string \<Rightarrow> nat" where
  "chars_count s = length (filter (\<lambda>c. \<not> is_continuation c) s)"

text \<open>
  \<open>s.chars().any(char::is_control)\<close>: general category Cc is U+0000 to U+001F, U+007F, and
  U+0080 to U+009F, the last encoded as 0xC2 followed by 0x80 to 0x9F.
\<close>

fun has_control :: "string \<Rightarrow> bool" where
  "has_control [] = False"
| "has_control (c # cs) =
     (byte_val c < 32 \<or> byte_val c = 127 \<or>
      (byte_val c = 194 \<and> cs \<noteq> [] \<and> 128 \<le> byte_val (hd cs) \<and> byte_val (hd cs) < 160) \<or>
      has_control cs)"

text \<open>
  \<open>char::is_whitespace\<close> (the White_Space property): the number of bytes of the white-space
  scalar value a string starts with, or 0. U+0009 to U+000D, U+0020, U+0085, U+00A0, U+1680,
  U+2000 to U+200A, U+2028, U+2029, U+202F, U+205F, U+3000.
\<close>

definition is_ws1 :: "nat \<Rightarrow> bool" where
  "is_ws1 a \<longleftrightarrow> 9 \<le> a \<and> a \<le> 13 \<or> a = 32"

definition is_ws2 :: "nat \<Rightarrow> nat \<Rightarrow> bool" where
  "is_ws2 a b \<longleftrightarrow> a = 194 \<and> (b = 133 \<or> b = 160)"

definition is_ws3 :: "nat \<Rightarrow> nat \<Rightarrow> nat \<Rightarrow> bool" where
  "is_ws3 a b c \<longleftrightarrow>
     (a = 225 \<and> b = 154 \<and> c = 128) \<or>
     (a = 226 \<and> b = 128 \<and> (128 \<le> c \<and> c \<le> 138 \<or> c = 168 \<or> c = 169 \<or> c = 175)) \<or>
     (a = 226 \<and> b = 129 \<and> c = 159) \<or>
     (a = 227 \<and> b = 128 \<and> c = 128)"

definition ws_head :: "(nat \<Rightarrow> nat \<Rightarrow> bool) \<Rightarrow> (nat \<Rightarrow> nat \<Rightarrow> nat \<Rightarrow> bool) \<Rightarrow> string \<Rightarrow> nat" where
  "ws_head two three s =
     (case map byte_val (take 3 s) of
        [] \<Rightarrow> 0
      | [a] \<Rightarrow> (if is_ws1 a then 1 else 0)
      | [a, b] \<Rightarrow> (if is_ws1 a then 1 else if two a b then 2 else 0)
      | a # b # c # _ \<Rightarrow> (if is_ws1 a then 1 else if two a b then 2 else if three a b c then 3 else 0))"

function strip_ws :: "(nat \<Rightarrow> nat \<Rightarrow> bool) \<Rightarrow> (nat \<Rightarrow> nat \<Rightarrow> nat \<Rightarrow> bool) \<Rightarrow> string \<Rightarrow> string" where
  "strip_ws two three s =
     (if s \<noteq> [] \<and> ws_head two three s \<noteq> 0
      then strip_ws two three (drop (ws_head two three s) s) else s)"
  by pat_completeness auto
termination
  by (relation "measure (\<lambda>(_, _, s). length s)") auto

declare strip_ws.simps [simp del]

text \<open>The end of a string is its reversal's start, with the byte patterns reversed.\<close>

definition trim_start :: "string \<Rightarrow> string" where
  "trim_start s = strip_ws is_ws2 is_ws3 s"

definition trim_end :: "string \<Rightarrow> string" where
  "trim_end s = rev (strip_ws (\<lambda>a b. is_ws2 b a) (\<lambda>a b c. is_ws3 c b a) (rev s))"

definition trim :: "string \<Rightarrow> string" where
  "trim s = trim_end (trim_start s)"

section \<open>Splitting and joining\<close>

fun split_on :: "char \<Rightarrow> string \<Rightarrow> string list" where
  "split_on c [] = [[]]"
| "split_on c (x # xs) =
     (if x = c then [] # split_on c xs
      else (case split_on c xs of [] \<Rightarrow> [[x]] | y # ys \<Rightarrow> (x # y) # ys))"

fun split_once :: "char \<Rightarrow> string \<Rightarrow> (string \<times> string) option" where
  "split_once c [] = None"
| "split_once c (x # xs) =
     (if x = c then Some ([], xs)
      else map_option (\<lambda>(a, b). (x # a, b)) (split_once c xs))"

fun join :: "string \<Rightarrow> string list \<Rightarrow> string" where
  "join sep [] = []"
| "join sep [x] = x"
| "join sep (x # y # ys) = x @ sep @ join sep (y # ys)"

definition strip_prefix :: "string \<Rightarrow> string \<Rightarrow> string option" where
  "strip_prefix p s = (if take (length p) s = p then Some (drop (length p) s) else None)"

definition starts_with :: "string \<Rightarrow> string \<Rightarrow> bool" where
  "starts_with p s \<longleftrightarrow> take (length p) s = p"

section \<open>Integer parsing and formatting\<close>

text \<open>The value of a digit in radix 10 or 16.\<close>

definition digit_val :: "nat \<Rightarrow> char \<Rightarrow> nat option" where
  "digit_val radix c =
     (let n = byte_val c;
          v = (if 48 \<le> n \<and> n \<le> 57 then n - 48
               else if 97 \<le> n \<and> n \<le> 122 then n - 87
               else if 65 \<le> n \<and> n \<le> 90 then n - 55 else 36)
      in if v < radix then Some v else None)"

fun digits_val :: "nat \<Rightarrow> nat \<Rightarrow> string \<Rightarrow> nat option" where
  "digits_val radix acc [] = Some acc"
| "digits_val radix acc (c # cs) =
     (case digit_val radix c of None \<Rightarrow> None | Some d \<Rightarrow> digits_val radix (acc * radix + d) cs)"

text \<open>
  \<open>from_str_radix\<close> of an unsigned type with \<open>bound\<close> values: no digits is an error, one leading
  plus sign is accepted, and a value that does not fit is an error.
\<close>

definition from_str_radix :: "nat \<Rightarrow> nat \<Rightarrow> string \<Rightarrow> nat option" where
  "from_str_radix bound radix s =
     (let digits = (case s of c # rest \<Rightarrow> if c = CHR ''+'' then rest else s | [] \<Rightarrow> [])
      in if digits = [] then None
         else (case digits_val radix 0 digits of
                 None \<Rightarrow> None | Some v \<Rightarrow> if v < bound then Some v else None))"

definition hex_digit :: "nat \<Rightarrow> char" where
  "hex_digit d = (if d < 10 then char_of (48 + d) else char_of (87 + d))"

text \<open>\<open>{:02x}\<close> of a byte, and \<open>{:x}\<close> and \<open>{}\<close> of an unsigned integer.\<close>

definition hex2 :: "nat \<Rightarrow> string" where
  "hex2 b = [hex_digit (b div 16), hex_digit (b mod 16)]"

fun to_radix :: "nat \<Rightarrow> nat \<Rightarrow> string" where
  "to_radix radix n =
     (if radix < 2 \<or> n < radix then [hex_digit n]
      else to_radix radix (n div radix) @ [hex_digit (n mod radix)])"

declare to_radix.simps [simp del]

definition format_hex :: "nat \<Rightarrow> string" where
  "format_hex n = to_radix 16 n"

definition format_dec :: "nat \<Rightarrow> string" where
  "format_dec n = to_radix 10 n"

section \<open>Lemmas\<close>

lemma ascii_upper_upper [simp]: "ascii_upper_char (ascii_upper_char c) = ascii_upper_char c"
proof -
  have "is_ascii_lower c \<Longrightarrow> \<not> is_ascii_lower (char_of (byte_val c - 32))"
    by (auto simp: is_ascii_lower_def byte_val_def less_eq_char_def)
  then show ?thesis by (auto simp: ascii_upper_char_def)
qed

lemma to_ascii_uppercase_idem [simp]:
  "to_ascii_uppercase (to_ascii_uppercase s) = to_ascii_uppercase s"
  by (simp add: to_ascii_uppercase_def)

lemma length_to_ascii_uppercase [simp]: "length (to_ascii_uppercase s) = length s"
  by (simp add: to_ascii_uppercase_def)

lemma length_to_ascii_lowercase [simp]: "length (to_ascii_lowercase s) = length s"
  by (simp add: to_ascii_lowercase_def)

lemma eq_ignore_ascii_case_refl [simp]: "eq_ignore_ascii_case s s"
  by (simp add: eq_ignore_ascii_case_def)

lemma eq_ignore_ascii_case_sym: "eq_ignore_ascii_case a b \<longleftrightarrow> eq_ignore_ascii_case b a"
  by (auto simp: eq_ignore_ascii_case_def)

lemma eq_ignore_ascii_case_trans:
  "eq_ignore_ascii_case a b \<Longrightarrow> eq_ignore_ascii_case b c \<Longrightarrow> eq_ignore_ascii_case a c"
  by (simp add: eq_ignore_ascii_case_def)

lemma chars_count_le_length: "chars_count s \<le> length s"
  by (simp add: chars_count_def)

lemma chars_count_ascii: "is_ascii s \<Longrightarrow> chars_count s = length s"
  by (induction s) (auto simp: chars_count_def is_ascii_def is_continuation_def)

lemma split_on_nonempty [simp]: "split_on c s \<noteq> []"
  by (induction s) (auto split: list.splits)

lemma join_split_on: "join [c] (split_on c s) = s"
proof (induction s)
  case Nil
  then show ?case by simp
next
  case (Cons x xs)
  obtain y ys where y: "split_on c xs = y # ys" by (cases "split_on c xs") auto
  with Cons show ?case by (cases ys) auto
qed

lemma split_on_no_sep: "p \<in> set (split_on c s) \<Longrightarrow> c \<notin> set p"
  by (induction s arbitrary: p) (auto split: list.splits if_splits)

lemma digit_val_hex_digit [simp]: "d < 16 \<Longrightarrow> digit_val 16 (hex_digit d) = Some d"
  by (auto simp: digit_val_def hex_digit_def byte_val_def Let_def)

lemma hex_digit_not_plus: "d < 16 \<Longrightarrow> hex_digit d \<noteq> CHR ''+''"
proof -
  assume "d < 16"
  then have "byte_val (hex_digit d) \<noteq> 43"
    by (auto simp: hex_digit_def byte_val_def)
  then show ?thesis by (auto simp: byte_val_def)
qed

lemma from_str_radix_hex2: "b < 256 \<Longrightarrow> from_str_radix 256 16 (hex2 b) = Some b"
  using hex_digit_not_plus [of "b div 16"]
  by (simp add: from_str_radix_def hex2_def Let_def div_less_iff_less_mult)

lemma length_hex2 [simp]: "length (hex2 b) = 2"
  by (simp add: hex2_def)

lemma digits_val_append:
  "digits_val r acc (xs @ ys) = Option.bind (digits_val r acc xs) (\<lambda>a. digits_val r a ys)"
  by (induction xs arbitrary: acc) (auto split: option.splits)

lemma to_radix_nonempty [simp]: "to_radix r n \<noteq> []"
  by (subst to_radix.simps) simp

lemma digits_val_to_radix: "digits_val 16 0 (to_radix 16 n) = Some n"
proof (induction n rule: less_induct)
  case (less n)
  show ?case
  proof (cases "n < 16")
    case True
    then show ?thesis by (subst to_radix.simps) simp
  next
    case False
    then have "digits_val 16 0 (to_radix 16 (n div 16)) = Some (n div 16)"
      by (intro less) simp
    with False show ?thesis by (subst to_radix.simps) (simp add: digits_val_append)
  qed
qed

lemma to_radix_set: "r \<le> 16 \<Longrightarrow> 2 \<le> r \<Longrightarrow> set (to_radix r n) \<subseteq> hex_digit ` {..<r}"
proof (induction n rule: less_induct)
  case (less n)
  show ?case
  proof (cases "n < r")
    case True
    then show ?thesis by (subst to_radix.simps) simp
  next
    case False
    then have "set (to_radix r (n div r)) \<subseteq> hex_digit ` {..<r}"
      using less.prems by (intro less.IH) auto
    with False less.prems show ?thesis by (subst to_radix.simps) auto
  qed
qed

lemma from_str_radix_format_hex: "n < bound \<Longrightarrow> from_str_radix bound 16 (format_hex n) = Some n"
proof -
  assume n: "n < bound"
  obtain c cs where c: "to_radix 16 n = c # cs" by (cases "to_radix 16 n") auto
  then have "c \<in> hex_digit ` {..<16}" using to_radix_set [of 16 n] by auto
  then have "c \<noteq> CHR ''+''" using hex_digit_not_plus by auto
  with c n show ?thesis
    using digits_val_to_radix [of n] by (simp add: from_str_radix_def format_hex_def Let_def)
qed

subsection \<open>Trimming\<close>

lemma strip_ws_drop: "\<exists>k. strip_ws two three s = drop k s"
proof (induction two three s rule: strip_ws.induct)
  case (1 two three s)
  show ?case
  proof (cases "s \<noteq> [] \<and> ws_head two three s \<noteq> 0")
    case True
    with 1 obtain k where "strip_ws two three (drop (ws_head two three s) s)
        = drop k (drop (ws_head two three s) s)" by blast
    with True show ?thesis
      by (subst strip_ws.simps) (auto simp: drop_drop intro: exI [of _ "k + ws_head two three s"])
  next
    case False
    then show ?thesis by (subst strip_ws.simps) (auto intro: exI [of _ 0])
  qed
qed

lemma ws_head_Nil [simp]: "ws_head two three [] = 0"
  by (simp add: ws_head_def)

lemma strip_ws_id: "ws_head two three s = 0 \<Longrightarrow> strip_ws two three s = s"
  by (subst strip_ws.simps) simp

lemma ws_head_strip_ws [simp]: "ws_head two three (strip_ws two three s) = 0"
proof (induction two three s rule: strip_ws.induct)
  case (1 two three s)
  show ?case
  proof (cases "s \<noteq> [] \<and> ws_head two three s \<noteq> 0")
    case True
    with 1 show ?thesis by (subst strip_ws.simps) simp
  next
    case False
    then show ?thesis by (subst strip_ws.simps) auto
  qed
qed

lemma strip_ws_idem [simp]: "strip_ws two three (strip_ws two three s) = strip_ws two three s"
  by (simp add: strip_ws_id)

text \<open>White space at the start of a prefix is white space at the start of the string.\<close>

lemma ws_head_append: "ws_head two three p \<noteq> 0 \<Longrightarrow> ws_head two three (p @ q) \<noteq> 0"
proof -
  assume p: "ws_head two three p \<noteq> 0"
  consider "p = []" | a where "p = [a]" | a b where "p = [a, b]"
    | a b c r where "p = a # b # c # r"
    by (metis list.exhaust)
  then show ?thesis
    using p by cases (auto simp: ws_head_def split: if_splits list.splits)
qed

lemma trim_end_prefix: "\<exists>q. s = trim_end s @ q"
proof -
  obtain k where "trim_end s = rev (drop k (rev s))"
    unfolding trim_end_def
    using strip_ws_drop [of "\<lambda>a b. is_ws2 b a" "\<lambda>a b c. is_ws3 c b a" "rev s"] by auto
  then have "s = trim_end s @ rev (take k (rev s))"
    by (metis append_take_drop_id rev_append rev_rev_ident)
  then show ?thesis by blast
qed

lemma trim_start_suffix: "\<exists>p. s = p @ trim_start s"
  unfolding trim_start_def using strip_ws_drop by (metis append_take_drop_id)

lemma set_trim_subset: "set (trim s) \<subseteq> set s"
  unfolding trim_def using trim_end_prefix [of "trim_start s"] trim_start_suffix [of s]
  by (metis set_append Un_upper1 Un_upper2 subset_trans)

lemma length_trim_le: "length (trim s) \<le> length s"
  unfolding trim_def using trim_end_prefix [of "trim_start s"] trim_start_suffix [of s]
  by (metis length_append le_add1 le_add2 le_trans)

lemma trim_trim [simp]: "trim (trim s) = trim s"
proof -
  let ?u = "trim_start s"
  obtain q where q: "?u = trim_end ?u @ q" using trim_end_prefix by blast
  have "ws_head is_ws2 is_ws3 ?u = 0" by (simp add: trim_start_def)
  then have "ws_head is_ws2 is_ws3 (trim_end ?u) = 0"
    using ws_head_append [of is_ws2 is_ws3 "trim_end ?u" q] q by metis
  then have "trim_start (trim_end ?u) = trim_end ?u"
    unfolding trim_start_def by (rule strip_ws_id)
  moreover have "trim_end (trim_end ?u) = trim_end ?u" by (simp add: trim_end_def)
  ultimately show ?thesis by (simp add: trim_def)
qed

lemma trim_nonspace:
  assumes "s = a # r @ [z]" and "\<not> is_ws1 (byte_val a)" "byte_val a < 128"
    and "\<not> is_ws1 (byte_val z)" "byte_val z < 128"
  shows "trim s = s"
proof -
  have "ws_head is_ws2 is_ws3 s = 0"
    using assms by (auto simp: ws_head_def is_ws2_def is_ws3_def split: list.splits)
  then have 1: "trim_start s = s" by (simp add: trim_start_def strip_ws_id)
  have "rev s = z # rev r @ [a]" using assms(1) by simp
  then have "ws_head (\<lambda>a b. is_ws2 b a) (\<lambda>a b c. is_ws3 c b a) (rev s) = 0"
    using assms by (auto simp: ws_head_def is_ws2_def is_ws3_def split: list.splits)
  then have "trim_end s = s" by (simp add: trim_end_def strip_ws_id)
  with 1 show ?thesis by (simp add: trim_def)
qed

subsection \<open>Hexadecimal digests\<close>

lemma unat_u8_less: "unat (w :: u8) < 256"
  using unsigned_less [of w, where ?'a = nat] by simp

lemma hex2_inject: "a < 256 \<Longrightarrow> b < 256 \<Longrightarrow> hex2 a = hex2 b \<Longrightarrow> a = b"
  by (metis from_str_radix_hex2 option.inject)

lemma length_concat_hex2 [simp]: "length (concat (map (\<lambda>b. hex2 (g b)) xs)) = 2 * length xs"
  by (induction xs) auto

lemma concat_hex2_inject:
  fixes xs ys :: "u8 list"
  assumes "concat (map (\<lambda>b. hex2 (unat b)) xs) = concat (map (\<lambda>b. hex2 (unat b)) ys)"
  shows "xs = ys"
  using assms
proof (induction xs arbitrary: ys)
  case Nil
  then show ?case by (cases ys) (auto simp: hex2_def)
next
  case (Cons x xs)
  then obtain y ys' where ys: "ys = y # ys'" by (cases ys) (auto simp: hex2_def)
  with Cons.prems have "hex2 (unat x) = hex2 (unat y)"
    and "concat (map (\<lambda>b. hex2 (unat b)) xs) = concat (map (\<lambda>b. hex2 (unat b)) ys')"
    by (auto simp: hex2_def)
  with Cons.IH [of ys'] show ?case
    using hex2_inject [OF unat_u8_less unat_u8_less] ys by (metis unsigned_word_eqI)
qed

end
