(* ===== verification/Policy_Wire.thy ===== *)
theory Policy_Wire
  imports Rust_Str
begin

text \<open>
  The policy wire protocol shared by the Collector and the Agent
  (\<open>src/crates/protocol/src/policy.rs\<close>): the declarative policy specification, the six kinds of
  wire frame, the constructor of a checksummed snapshot, and the validation both ends run.
  JSON serialization, the canonical JSON of the checksum and SHA-256 come from third-party
  crates; they are the fields of \<open>wire_env\<close>, an argument of every definition that uses them.
\<close>

section \<open>The policy specification\<close>

datatype policy_action_kind = ActionBlock | ActionAllow | ActionLimit

datatype policy_weekday = Mon | Tue | Wed | Thu | Fri | Sat | Sun

fun monday_index :: "policy_weekday \<Rightarrow> nat" where
  "monday_index Mon = 0"
| "monday_index Tue = 1"
| "monday_index Wed = 2"
| "monday_index Thu = 3"
| "monday_index Fri = 4"
| "monday_index Sat = 5"
| "monday_index Sun = 6"

lemma monday_index_inject [simp]: "monday_index a = monday_index b \<longleftrightarrow> a = b"
  by (cases a; cases b) auto

text \<open>The derived order of the weekdays is the order of their declaration.\<close>

instantiation policy_weekday :: linorder
begin
definition less_eq_policy_weekday :: "policy_weekday \<Rightarrow> policy_weekday \<Rightarrow> bool" where
  "less_eq_policy_weekday a b \<longleftrightarrow> monday_index a \<le> monday_index b"
definition less_policy_weekday :: "policy_weekday \<Rightarrow> policy_weekday \<Rightarrow> bool" where
  "less_policy_weekday a b \<longleftrightarrow> monday_index a < monday_index b"
instance
  by standard (auto simp: less_eq_policy_weekday_def less_policy_weekday_def
      simp flip: monday_index_inject)
end

record policy_schedule_window =
  win_days :: "policy_weekday list"
  win_start :: string
  win_end :: string

record policy_schedule =
  sched_timezone :: string
  sched_windows :: "policy_schedule_window list"

record policy_action =
  act_kind :: policy_action_kind
  act_download_bps :: "u64 option"
  act_upload_bps :: "u64 option"

record policy_network_selector =
  net_scope :: string
  net_direction :: string

record policy_selectors =
  sel_clients :: "string list"
  sel_applications :: "string list"
  sel_categories :: "string list"
  sel_min_application_confidence :: f64

record policy_spec_v1 =
  spec_schema_version :: u32
  spec_gateway_id :: string
  spec_name :: string
  spec_description :: string
  spec_enabled :: bool
  spec_priority :: u16
  spec_selectors :: policy_selectors
  spec_network :: policy_network_selector
  spec_action :: policy_action
  spec_schedule :: "policy_schedule option"

definition policy_client_total_scope :: string where
  "policy_client_total_scope = ''agent''"

definition is_client_total_spec :: "policy_spec_v1 \<Rightarrow> bool" where
  "is_client_total_spec spec \<longleftrightarrow>
     net_scope (spec_network spec) = policy_client_total_scope \<and>
     net_direction (spec_network spec) = ''both'' \<and>
     act_kind (spec_action spec) = ActionLimit \<and>
     sel_clients (spec_selectors spec) \<noteq> [] \<and>
     sel_applications (spec_selectors spec) = [] \<and>
     sel_categories (spec_selectors spec) = []"

record policy_snapshot_entry =
  entry_id :: string
  entry_spec :: policy_spec_v1

record policy_schedule_interval =
  iv_start_ms :: int
  iv_end_ms :: int

record policy_schedule_intervals =
  ivs_policy_id :: string
  ivs_intervals :: "policy_schedule_interval list"

section \<open>Frames\<close>

datatype flow_command_operation = Upsert | Revoke

datatype flow_verdict = VerdictBlock | VerdictAllow | VerdictShape

datatype flow_ack_status = FlowApplied | FlowPartial | FlowUnsupported | FlowFailed | FlowExpired

datatype policy_ack_status = AckApplied | AckPartial | AckFailed | AckUnsupported

datatype policy_result_status =
  ResultApplied | ResultDegraded | ResultUnsupported | ResultFailed | ResultDisabled

datatype policy_capability = CapSupported | CapUnsupported | CapDegraded

record policy_direction_metrics =
  dm_interface :: string
  dm_bytes :: "u64 option"
  dm_packets :: "u64 option"
  dm_drops :: "u64 option"
  dm_overlimits :: "u64 option"

record policy_client_metrics =
  cm_policy_id :: string
  cm_mac :: string
  cm_upload :: "policy_direction_metrics option"
  cm_download :: "policy_direction_metrics option"

record policy_capabilities =
  cap_client_block :: policy_capability
  cap_client_limit :: policy_capability
  cap_application_block :: policy_capability
  cap_application_limit :: policy_capability
  cap_client_total_limit :: "policy_capability option"

definition capabilities_unsupported :: policy_capabilities where
  "capabilities_unsupported =
     \<lparr>cap_client_block = CapUnsupported, cap_client_limit = CapUnsupported,
      cap_application_block = CapUnsupported, cap_application_limit = CapUnsupported,
      cap_client_total_limit = None\<rparr>"

record policy_client_rate =
  cr_mac :: string
  cr_effective_upload_bps :: "u64 option"
  cr_effective_download_bps :: "u64 option"

record policy_result_details =
  rd_clients :: "policy_client_rate list"
  rd_controlled_interfaces :: "string list"
  rd_qdisc :: "string option"
  rd_mark_conflict_code :: "string option"

record policy_result =
  res_policy_id :: string
  res_status :: policy_result_status
  res_reason_code :: "string option"
  res_message :: "string option"
  res_details :: "policy_result_details option"

record policy_snapshot =
  snap_wire_version :: u32
  snap_gateway_id :: string
  snap_controller_epoch :: string
  snap_config_revision :: u64
  snap_bundle_generation :: u64
  snap_generated_at_ms :: int
  snap_valid_until_ms :: int
  snap_checksum :: string
  snap_policies :: "policy_snapshot_entry list"
  snap_schedule_intervals :: "policy_schedule_intervals list"

record policy_ack =
  ack_wire_version :: u32
  ack_gateway_id :: string
  ack_boot_id :: string
  ack_controller_epoch :: string
  ack_config_revision :: u64
  ack_bundle_generation :: u64
  ack_checksum :: string
  ack_status :: policy_ack_status
  ack_capabilities :: policy_capabilities
  ack_results :: "policy_result list"
  ack_reported_at_ms :: int

record policy_health =
  health_wire_version :: u32
  health_gateway_id :: string
  health_boot_id :: string
  health_last_applied_revision :: u64
  health_controller_epoch :: "string option"
  health_bundle_generation :: "u64 option"
  health_checksum :: "string option"
  health_capabilities :: policy_capabilities
  health_reported_at_ms :: int
  health_emergency_disabled :: bool

record policy_metrics =
  met_wire_version :: u32
  met_gateway_id :: string
  met_boot_id :: string
  met_sampled_at_ms :: int
  met_metrics :: "policy_client_metrics list"

record flow_command =
  cmd_wire_version :: u32
  cmd_gateway_id :: string
  cmd_boot_id :: string
  cmd_controller_epoch :: string
  cmd_config_revision :: u64
  cmd_command_id :: string
  cmd_policy_flow_id :: string
  cmd_operation :: flow_command_operation
  cmd_verdict :: "flow_verdict option"
  cmd_policy_ids :: "string list"
  cmd_expires_at_ms :: int
  cmd_issued_at_ms :: int

record flow_ack =
  fack_wire_version :: u32
  fack_gateway_id :: string
  fack_boot_id :: string
  fack_controller_epoch :: string
  fack_command_id :: string
  fack_policy_flow_id :: string
  fack_config_revision :: u64
  fack_status :: flow_ack_status
  fack_reason_code :: "string option"
  fack_alias_count :: u32
  fack_reported_at_ms :: int

datatype policy_wire_frame =
    PolicySnapshot policy_snapshot
  | PolicyAck policy_ack
  | PolicyHealth policy_health
  | PolicyMetrics policy_metrics
  | FlowCommand flow_command
  | FlowAck flow_ack

record snapshot_checksum_payload =
  pay_gateway_id :: string
  pay_controller_epoch :: string
  pay_config_revision :: u64
  pay_bundle_generation :: u64
  pay_generated_at_ms :: int
  pay_valid_until_ms :: int
  pay_policies :: "policy_snapshot_entry list"
  pay_schedule_intervals :: "policy_schedule_intervals list"

text \<open>
  The third-party code: \<open>serde_json::to_vec\<close> and \<open>from_slice\<close> on frames, \<open>serde_jcs::to_vec\<close>
  on the checksum payload, and \<open>Sha256::digest\<close>.
\<close>

record wire_env =
  env_to_json :: "policy_wire_frame \<Rightarrow> u8 list res"
  env_from_json :: "u8 list \<Rightarrow> policy_wire_frame res"
  env_to_jcs :: "snapshot_checksum_payload \<Rightarrow> u8 list res"
  env_sha256 :: "u8 list \<Rightarrow> u8 list"

section \<open>Field validation\<close>

definition policy_wire_version :: u32 where "policy_wire_version = 1"
definition policy_max_frame_bytes :: nat where "policy_max_frame_bytes = 1024 * 1024"
definition policy_max_metrics_frame_bytes :: nat where "policy_max_metrics_frame_bytes = 256 * 1024"
definition policy_max_snapshot_bytes :: nat where "policy_max_snapshot_bytes = 768 * 1024"
definition max_safe_json_integer :: u64 where "max_safe_json_integer = 9007199254740991"

definition flatten_opt :: "'a option list \<Rightarrow> 'a list" where
  "flatten_opt xs = concat (map (\<lambda>x. case x of None \<Rightarrow> [] | Some v \<Rightarrow> [v]) xs)"

definition is_some_and :: "'a option \<Rightarrow> ('a \<Rightarrow> bool) \<Rightarrow> bool" where
  "is_some_and x p = (case x of None \<Rightarrow> False | Some v \<Rightarrow> p v)"

text \<open>The condition the sources repeat for identifiers: empty, too long, or a control character.\<close>

definition bad_text :: "nat \<Rightarrow> string \<Rightarrow> bool" where
  "bad_text limit value \<longleftrightarrow> value = [] \<or> length value > limit \<or> has_control value"

definition validate_generations :: "u64 \<Rightarrow> u64 \<Rightarrow> unit res" where
  "validate_generations revision generation =
     (if revision > max_safe_json_integer \<or> generation = 0 \<or> generation > max_safe_json_integer
      then Err ''revision or generation is outside the JSON safe integer range''
      else Ok ())"

definition validate_gateway :: "string \<Rightarrow> unit res" where
  "validate_gateway value =
     (if value = [] \<or> length value > 128 \<or> has_control value
      then Err ''gateway_id is invalid'' else Ok ())"

definition validate_nonempty_id :: "string \<Rightarrow> string \<Rightarrow> unit res" where
  "validate_nonempty_id value nm =
     (if value = [] \<or> length value > 128 \<or> has_control value
      then Err (nm @ '' is invalid'') else Ok ())"

definition is_lower_hex :: "char \<Rightarrow> bool" where
  "is_lower_hex b \<longleftrightarrow> is_ascii_digit b \<or> CHR ''a'' \<le> b \<and> b \<le> CHR ''f''"

definition validate_epoch :: "string \<Rightarrow> unit res" where
  "validate_epoch value =
     (if length value \<noteq> 36 \<or>
         (\<exists>(index, byte)\<in>set (enumerate 0 value).
            if index \<in> {8, 13, 18, 23} then byte \<noteq> CHR ''-'' else \<not> is_lower_hex byte)
      then Err ''controller_epoch must be a lowercase 128-bit UUID'' else Ok ())"

definition validate_checksum :: "string \<Rightarrow> unit res" where
  "validate_checksum value =
     (if length value \<noteq> 71 \<or> \<not> starts_with ''sha256:'' value \<or>
         \<not> list_all is_lower_hex (drop 7 value)
      then Err ''checksum must be sha256 followed by 64 lowercase hex digits'' else Ok ())"

definition valid_mac :: "string \<Rightarrow> bool" where
  "valid_mac value \<longleftrightarrow>
     length value = 17 \<and>
     (\<forall>(index, byte)\<in>set (enumerate 0 value).
        if index mod 3 = 2 then byte = CHR '':''
        else is_ascii_digit byte \<or> CHR ''A'' \<le> byte \<and> byte \<le> CHR ''F'')"

definition rate_in_range :: "u64 \<Rightarrow> bool" where
  "rate_in_range rate \<longleftrightarrow> 64000 \<le> rate \<and> rate \<le> 1000000000"

definition validate_policy_spec :: "string \<Rightarrow> policy_spec_v1 \<Rightarrow> unit res" where
  "validate_policy_spec gateway_id spec =
     (let sel = spec_selectors spec; act = spec_action spec; net = spec_network spec in
      if spec_schema_version spec \<noteq> 1 \<or> spec_gateway_id spec \<noteq> gateway_id
      then Err ''policy spec schema or gateway does not match snapshot''
      else if trim (spec_name spec) = [] \<or> chars_count (spec_name spec) > 100
      then Err ''policy spec name is invalid''
      else if chars_count (spec_description spec) > 500 \<or> spec_priority spec > 1000
      then Err ''policy spec description or priority is invalid''
      else if (net_scope net \<noteq> ''internet'' \<and> \<not> is_client_total_spec spec) \<or>
              net_direction net \<noteq> ''both''
      then Err ''policy spec uses an unsupported network scope''
      else if length (sel_clients sel) > 32 \<or> length (sel_applications sel) > 32 \<or>
              length (sel_categories sel) > 16 \<or>
              (sel_clients sel = [] \<and> sel_applications sel = [] \<and> sel_categories sel = [])
      then Err ''policy spec selectors are invalid''
      else if \<not> is_finite (sel_min_application_confidence sel) \<or>
              \<not> f64_in_range f64_0_80 (F64_Fin 1) (sel_min_application_confidence sel)
      then Err ''policy application confidence is invalid''
      else and_then
        (try_each (\<lambda>client. if \<not> valid_mac client
                             then Err ''policy contains a non-canonical client MAC'' else Ok ())
           (sel_clients sel)) (\<lambda>_.
      and_then
        (try_each (\<lambda>(nm, values). if \<exists>value\<in>set values. bad_text 128 value
                                    then Err (''policy contains an invalid '' @ nm @ '' selector'')
                                    else Ok ())
           [(''application'', sel_applications sel), (''category'', sel_categories sel)]) (\<lambda>_.
      case act_kind act of
        ActionLimit \<Rightarrow>
          if sel_clients sel = [] \<or>
             (act_download_bps act = None \<and> act_upload_bps act = None) \<or>
             (\<exists>rate\<in>set (flatten_opt [act_download_bps act, act_upload_bps act]). \<not> rate_in_range rate)
          then Err ''policy limit action is invalid'' else Ok ()
      | _ \<Rightarrow>
          if act_download_bps act \<noteq> None \<or> act_upload_bps act \<noteq> None
          then Err ''block/allow actions cannot contain rate limits'' else Ok ())))"

definition validate_result_details :: "policy_result_details \<Rightarrow> bool" where
  "validate_result_details details \<longleftrightarrow>
     \<not> (length (rd_clients details) > 32 \<or>
        length (rd_controlled_interfaces details) > 2 \<or>
        is_some_and (rd_qdisc details) (bad_text 128) \<or>
        is_some_and (rd_mark_conflict_code details) (bad_text 128) \<or>
        (\<exists>value\<in>set (rd_controlled_interfaces details). bad_text 15 value) \<or>
        (\<exists>client\<in>set (rd_clients details).
           \<not> valid_mac (cr_mac client) \<or>
           (\<exists>rate\<in>set (flatten_opt [cr_effective_upload_bps client,
                                     cr_effective_download_bps client]). \<not> rate_in_range rate)))"

definition validate_one_result :: "string set \<Rightarrow> policy_result \<Rightarrow> string set res" where
  "validate_one_result seen result =
     and_then (validate_nonempty_id (res_policy_id result) ''result policy id'') (\<lambda>_.
     if res_policy_id result \<in> seen then Err ''policy result ids must be unique''
     else if is_some_and (res_reason_code result) (bad_text 128) \<or>
             is_some_and (res_message result) (\<lambda>value. length value > 512 \<or> has_control value)
     then Err ''policy result reason/message is invalid''
     else if is_some_and (res_details result) (\<lambda>d. \<not> validate_result_details d)
     then Err ''policy result details are invalid''
     else Ok (insert (res_policy_id result) seen))"

definition validate_results :: "policy_result list \<Rightarrow> unit res" where
  "validate_results results =
     and_then (try_fold validate_one_result {} results) (\<lambda>_.
     if length results > 256 then Err ''policy ack contains more than 256 results'' else Ok ())"

definition valid_direction_metrics :: "policy_direction_metrics \<Rightarrow> bool" where
  "valid_direction_metrics direction \<longleftrightarrow>
     \<not> (dm_interface direction = [] \<or> length (dm_interface direction) > 15 \<or>
        (\<exists>byte\<in>set (dm_interface direction).
           \<not> (is_ascii_alphanumeric byte \<or> byte \<in> set ''_.:-'')) \<or>
        (\<exists>count\<in>set (flatten_opt [dm_bytes direction, dm_packets direction,
                                   dm_drops direction, dm_overlimits direction]).
           count > max_safe_json_integer))"

definition validate_policy_metrics :: "policy_client_metrics list \<Rightarrow> unit res" where
  "validate_policy_metrics metrics =
     (if length metrics > 256
      then Err ''policy metrics frame contains more than 256 client summaries''
      else if \<exists>(a, b)\<in>set (windows2 metrics).
                (cm_policy_id b, cm_mac b) \<le> (cm_policy_id a, cm_mac a)
      then Err ''policy metrics must be sorted by unique policy and client''
      else try_each (\<lambda>metric.
        and_then (validate_nonempty_id (cm_policy_id metric) ''metrics policy id'') (\<lambda>_.
        if \<not> valid_mac (cm_mac metric) then Err ''policy metrics contain an invalid client MAC''
        else if cm_upload metric = None \<and> cm_download metric = None
        then Err ''policy metrics must contain at least one traffic direction''
        else try_each (\<lambda>direction.
               if \<not> valid_direction_metrics direction
               then Err ''policy metrics contain invalid interface or counter data'' else Ok ())
             (flatten_opt [cm_upload metric, cm_download metric]))) metrics)"

section \<open>The snapshot checksum and the snapshot\<close>

definition checksum_payload :: "policy_snapshot \<Rightarrow> snapshot_checksum_payload" where
  "checksum_payload s =
     \<lparr>pay_gateway_id = snap_gateway_id s, pay_controller_epoch = snap_controller_epoch s,
      pay_config_revision = snap_config_revision s,
      pay_bundle_generation = snap_bundle_generation s,
      pay_generated_at_ms = snap_generated_at_ms s, pay_valid_until_ms = snap_valid_until_ms s,
      pay_policies = snap_policies s, pay_schedule_intervals = snap_schedule_intervals s\<rparr>"

definition checksum_for :: "wire_env \<Rightarrow> snapshot_checksum_payload \<Rightarrow> string res" where
  "checksum_for env payload =
     and_then (validate_generations (pay_config_revision payload) (pay_bundle_generation payload))
     (\<lambda>_. and_then (env_to_jcs env payload) (\<lambda>canonical.
     Ok (''sha256:'' @ concat (map (\<lambda>byte. hex2 (unat byte)) (env_sha256 env canonical)))))"

definition interval_key :: "policy_schedule_interval \<Rightarrow> int \<times> int" where
  "interval_key i = (iv_start_ms i, iv_end_ms i)"

definition validate_schedule_entry ::
  "policy_snapshot_entry list \<Rightarrow> policy_schedule_intervals \<Rightarrow> unit res" where
  "validate_schedule_entry policies schedule =
     and_then (validate_nonempty_id (ivs_policy_id schedule) ''schedule policy id'') (\<lambda>_.
     if \<forall>policy\<in>set policies. entry_id policy \<noteq> ivs_policy_id schedule
     then Err ''schedule intervals reference an unknown policy''
     else if (\<exists>(a, b)\<in>set (windows2 (ivs_intervals schedule)). interval_key b \<le> interval_key a) \<or>
             (\<exists>interval\<in>set (ivs_intervals schedule). iv_end_ms interval \<le> iv_start_ms interval)
     then Err ''schedule intervals must be sorted, unique, and non-empty''
     else Ok ())"

definition validate_snapshot :: "wire_env \<Rightarrow> policy_wire_frame \<Rightarrow> unit res" where
  "validate_snapshot env frame =
     (case frame of
        PolicySnapshot s \<Rightarrow>
          if snap_wire_version s \<noteq> policy_wire_version
          then Err ''unsupported policy wire version''
          else and_then (validate_gateway (snap_gateway_id s)) (\<lambda>_.
          and_then (validate_epoch (snap_controller_epoch s)) (\<lambda>_.
          and_then (validate_generations (snap_config_revision s) (snap_bundle_generation s)) (\<lambda>_.
          and_then (validate_checksum (snap_checksum s)) (\<lambda>_.
          if snap_generated_at_ms s < 0 \<or> snap_valid_until_ms s \<le> snap_generated_at_ms s
          then Err ''snapshot validity timestamps are invalid''
          else if length (snap_policies s) > 256
          then Err ''snapshot contains more than 256 policies''
          else if \<exists>(a, b)\<in>set (windows2 (snap_policies s)). entry_id b \<le> entry_id a
          then Err ''snapshot policies must be sorted by unique policy id''
          else and_then (try_each (\<lambda>policy.
                 and_then (validate_nonempty_id (entry_id policy) ''policy id'') (\<lambda>_.
                 validate_policy_spec (snap_gateway_id s) (entry_spec policy))) (snap_policies s)) (\<lambda>_.
          if \<exists>(a, b)\<in>set (windows2 (snap_schedule_intervals s)). ivs_policy_id b \<le> ivs_policy_id a
          then Err ''schedule intervals must be sorted by unique policy id''
          else and_then (try_each (validate_schedule_entry (snap_policies s))
                           (snap_schedule_intervals s)) (\<lambda>_.
          and_then (checksum_for env (checksum_payload s)) (\<lambda>expected.
          if expected \<noteq> snap_checksum s
          then Err ''policy snapshot checksum mismatch''
          else and_then (env_to_json env frame) (\<lambda>encoded.
          if length encoded > policy_max_snapshot_bytes
          then Err ''policy snapshot exceeds 768 KiB'' else Ok ()))))))))
      | _ \<Rightarrow> Err ''expected policy_snapshot frame'')"

text \<open>\<open>PolicyWireFrame::snapshot\<close>: sort everything, compute the checksum, validate, bound.\<close>

definition snapshot_frame ::
  "wire_env \<Rightarrow> string \<Rightarrow> string \<Rightarrow> u64 \<Rightarrow> u64 \<Rightarrow> int \<Rightarrow> int \<Rightarrow> policy_snapshot_entry list \<Rightarrow>
   policy_schedule_intervals list \<Rightarrow> policy_wire_frame res" where
  "snapshot_frame env gateway_id controller_epoch config_revision bundle_generation
     generated_at_ms valid_until_ms policies schedule_intervals =
     (let policies = sort_key entry_id policies;
          schedule_intervals = sort_key ivs_policy_id schedule_intervals;
          schedule_intervals =
            map (\<lambda>schedule. schedule\<lparr>ivs_intervals := sort_key interval_key (ivs_intervals schedule)\<rparr>)
              schedule_intervals
      in and_then (checksum_for env
           \<lparr>pay_gateway_id = gateway_id, pay_controller_epoch = controller_epoch,
            pay_config_revision = config_revision, pay_bundle_generation = bundle_generation,
            pay_generated_at_ms = generated_at_ms, pay_valid_until_ms = valid_until_ms,
            pay_policies = policies, pay_schedule_intervals = schedule_intervals\<rparr>) (\<lambda>checksum.
         let frame = PolicySnapshot
           \<lparr>snap_wire_version = policy_wire_version, snap_gateway_id = gateway_id,
            snap_controller_epoch = controller_epoch, snap_config_revision = config_revision,
            snap_bundle_generation = bundle_generation, snap_generated_at_ms = generated_at_ms,
            snap_valid_until_ms = valid_until_ms, snap_checksum = checksum,
            snap_policies = policies, snap_schedule_intervals = schedule_intervals\<rparr>
         in and_then (validate_snapshot env frame) (\<lambda>_.
            and_then (env_to_json env frame) (\<lambda>encoded.
            if length encoded > policy_max_snapshot_bytes
            then Err ''policy snapshot exceeds 768 KiB'' else Ok frame))))"

section \<open>Frame validation, encoding and decoding\<close>

definition check_wire_version :: "u32 \<Rightarrow> unit res" where
  "check_wire_version v =
     (if v \<noteq> policy_wire_version then Err ''unsupported policy wire version'' else Ok ())"

definition validate_ack :: "policy_ack \<Rightarrow> unit res" where
  "validate_ack f =
     and_then (check_wire_version (ack_wire_version f)) (\<lambda>_.
     and_then (validate_gateway (ack_gateway_id f)) (\<lambda>_.
     and_then (validate_nonempty_id (ack_boot_id f) ''boot_id'') (\<lambda>_.
     and_then (validate_epoch (ack_controller_epoch f)) (\<lambda>_.
     and_then (validate_generations (ack_config_revision f) (ack_bundle_generation f)) (\<lambda>_.
     and_then (validate_checksum (ack_checksum f)) (\<lambda>_.
     if ack_reported_at_ms f < 0 then Err ''reported_at_ms must be non-negative''
     else validate_results (ack_results f)))))))"

definition validate_health :: "policy_health \<Rightarrow> unit res" where
  "validate_health f =
     and_then (check_wire_version (health_wire_version f)) (\<lambda>_.
     and_then (validate_gateway (health_gateway_id f)) (\<lambda>_.
     and_then (validate_nonempty_id (health_boot_id f) ''boot_id'') (\<lambda>_.
     if health_last_applied_revision f > max_safe_json_integer
     then Err ''last applied revision is outside the JSON safe integer range''
     else and_then
       (case (health_controller_epoch f, health_bundle_generation f, health_checksum f) of
          (Some epoch, Some generation, Some checksum) \<Rightarrow>
            and_then (validate_epoch epoch) (\<lambda>_.
            if generation = 0 \<or> generation > max_safe_json_integer
            then Err ''bundle generation is outside the JSON safe integer range''
            else validate_checksum checksum)
        | (None, None, None) \<Rightarrow>
            if health_last_applied_revision f = 0 then Ok ()
            else Err ''health snapshot identity fields are incomplete''
        | _ \<Rightarrow> Err ''health snapshot identity fields are incomplete'') (\<lambda>_.
     if health_reported_at_ms f < 0 then Err ''reported_at_ms must be non-negative'' else Ok ()))))"

definition validate_metrics_frame :: "wire_env \<Rightarrow> policy_metrics \<Rightarrow> unit res" where
  "validate_metrics_frame env f =
     and_then (check_wire_version (met_wire_version f)) (\<lambda>_.
     and_then (validate_gateway (met_gateway_id f)) (\<lambda>_.
     and_then (validate_nonempty_id (met_boot_id f) ''boot_id'') (\<lambda>_.
     if met_sampled_at_ms f < 0 then Err ''sampled_at_ms must be non-negative''
     else and_then (validate_policy_metrics (met_metrics f)) (\<lambda>_.
     and_then (env_to_json env (PolicyMetrics f)) (\<lambda>encoded.
     if length encoded > policy_max_metrics_frame_bytes
     then Err ''policy metrics frame exceeds 256 KiB'' else Ok ())))))"

definition check_policy_flow_id :: "string \<Rightarrow> unit res" where
  "check_policy_flow_id policy_flow_id =
     (if policy_flow_id = [] \<or> length policy_flow_id > 64 \<or> has_control policy_flow_id
      then Err ''policy_flow_id must contain 1 through 64 non-control characters'' else Ok ())"

definition validate_command :: "flow_command \<Rightarrow> unit res" where
  "validate_command f =
     and_then (check_wire_version (cmd_wire_version f)) (\<lambda>_.
     and_then (validate_gateway (cmd_gateway_id f)) (\<lambda>_.
     and_then (validate_nonempty_id (cmd_boot_id f) ''boot_id'') (\<lambda>_.
     and_then (validate_epoch (cmd_controller_epoch f)) (\<lambda>_.
     if cmd_config_revision f > max_safe_json_integer
     then Err ''config_revision is outside the JSON safe integer range''
     else and_then (validate_nonempty_id (cmd_command_id f) ''command_id'') (\<lambda>_.
     and_then (check_policy_flow_id (cmd_policy_flow_id f)) (\<lambda>_.
     if cmd_issued_at_ms f < 0 \<or> cmd_expires_at_ms f \<le> cmd_issued_at_ms f \<or>
        saturating_sub_i64 (cmd_expires_at_ms f) (cmd_issued_at_ms f) > 120000
     then Err ''flow command lifetime must be positive and no longer than 120 seconds''
     else (case cmd_operation f of
        Upsert \<Rightarrow>
          if cmd_verdict f = None \<or> cmd_policy_ids f = [] \<or> length (cmd_policy_ids f) > 16
          then Err ''upsert requires a verdict and 1 through 16 policy ids''
          else try_each (\<lambda>policy_id. validate_nonempty_id policy_id ''policy_id'') (cmd_policy_ids f)
      | Revoke \<Rightarrow>
          if cmd_verdict f \<noteq> None \<or> cmd_policy_ids f \<noteq> []
          then Err ''revoke must not include a verdict or policy ids'' else Ok ())))))))"

definition validate_flow_ack :: "flow_ack \<Rightarrow> unit res" where
  "validate_flow_ack f =
     and_then (check_wire_version (fack_wire_version f)) (\<lambda>_.
     and_then (validate_gateway (fack_gateway_id f)) (\<lambda>_.
     and_then (validate_nonempty_id (fack_boot_id f) ''boot_id'') (\<lambda>_.
     and_then (validate_epoch (fack_controller_epoch f)) (\<lambda>_.
     and_then (validate_nonempty_id (fack_command_id f) ''command_id'') (\<lambda>_.
     and_then (check_policy_flow_id (fack_policy_flow_id f)) (\<lambda>_.
     if fack_config_revision f > max_safe_json_integer \<or> fack_reported_at_ms f < 0
     then Err ''flow acknowledgement identity or timestamp is invalid''
     else if is_some_and (fack_reason_code f) (bad_text 128)
     then Err ''flow acknowledgement reason_code is invalid'' else Ok ()))))))"

definition validate_frame :: "wire_env \<Rightarrow> policy_wire_frame \<Rightarrow> unit res" where
  "validate_frame env frame =
     (case frame of
        PolicySnapshot _ \<Rightarrow> validate_snapshot env frame
      | PolicyAck f \<Rightarrow> validate_ack f
      | PolicyHealth f \<Rightarrow> validate_health f
      | PolicyMetrics f \<Rightarrow> validate_metrics_frame env f
      | FlowCommand f \<Rightarrow> validate_command f
      | FlowAck f \<Rightarrow> validate_flow_ack f)"

definition encode_frame :: "wire_env \<Rightarrow> policy_wire_frame \<Rightarrow> u8 list res" where
  "encode_frame env frame =
     and_then (validate_frame env frame) (\<lambda>_.
     and_then (env_to_json env frame) (\<lambda>bytes.
     if length bytes > policy_max_frame_bytes then Err ''policy frame exceeds 1 MiB'' else Ok bytes))"

definition decode_frame :: "wire_env \<Rightarrow> u8 list \<Rightarrow> policy_wire_frame res" where
  "decode_frame env bytes =
     (if length bytes > policy_max_frame_bytes then Err ''policy frame exceeds 1 MiB''
      else and_then (env_from_json env bytes) (\<lambda>frame.
        and_then (validate_frame env frame) (\<lambda>_. Ok frame)))"

definition snapshot_identity ::
  "policy_wire_frame \<Rightarrow> (string \<times> string \<times> u64 \<times> u64 \<times> string) option" where
  "snapshot_identity frame =
     (case frame of
        PolicySnapshot s \<Rightarrow>
          Some (snap_gateway_id s, snap_controller_epoch s, snap_config_revision s,
                snap_bundle_generation s, snap_checksum s)
      | _ \<Rightarrow> None)"

section \<open>What a valid snapshot is\<close>

text \<open>The declarative contract of a snapshot, in terms of its data rather than of the checks.\<close>

definition snapshot_content_wf :: "wire_env \<Rightarrow> policy_snapshot \<Rightarrow> bool" where
  "snapshot_content_wf env s \<longleftrightarrow>
     snap_wire_version s = policy_wire_version \<and>
     validate_gateway (snap_gateway_id s) = Ok () \<and>
     validate_epoch (snap_controller_epoch s) = Ok () \<and>
     validate_generations (snap_config_revision s) (snap_bundle_generation s) = Ok () \<and>
     validate_checksum (snap_checksum s) = Ok () \<and>
     0 \<le> snap_generated_at_ms s \<and> snap_generated_at_ms s < snap_valid_until_ms s \<and>
     length (snap_policies s) \<le> 256 \<and>
     sorted_wrt (<) (map entry_id (snap_policies s)) \<and>
     (\<forall>p\<in>set (snap_policies s). validate_nonempty_id (entry_id p) ''policy id'' = Ok () \<and>
        validate_policy_spec (snap_gateway_id s) (entry_spec p) = Ok ()) \<and>
     sorted_wrt (<) (map ivs_policy_id (snap_schedule_intervals s)) \<and>
     (\<forall>e\<in>set (snap_schedule_intervals s).
        validate_nonempty_id (ivs_policy_id e) ''schedule policy id'' = Ok () \<and>
        ivs_policy_id e \<in> entry_id ` set (snap_policies s) \<and>
        sorted_wrt (<) (map interval_key (ivs_intervals e)) \<and>
        (\<forall>i\<in>set (ivs_intervals e). iv_start_ms i < iv_end_ms i)) \<and>
     checksum_for env (checksum_payload s) = Ok (snap_checksum s)"

definition snapshot_wf :: "wire_env \<Rightarrow> policy_snapshot \<Rightarrow> bool" where
  "snapshot_wf env s \<longleftrightarrow> snapshot_content_wf env s \<and>
     (\<exists>bytes. env_to_json env (PolicySnapshot s) = Ok bytes \<and>
        length bytes \<le> policy_max_snapshot_bytes)"

text \<open>The schedule entries the constructor validates: each sorted by its intervals.\<close>

definition sorted_schedules :: "policy_schedule_intervals list \<Rightarrow> policy_schedule_intervals list" where
  "sorted_schedules sis =
     map (\<lambda>x. x\<lparr>ivs_intervals := sort_key interval_key (ivs_intervals x)\<rparr>) (sort_key ivs_policy_id sis)"

section \<open>A concrete instance\<close>

text \<open>Sample data on which the hypotheses of the theorems are discharged.\<close>

definition ex_spec :: policy_spec_v1 where
  "ex_spec =
     \<lparr>spec_schema_version = 1, spec_gateway_id = ''gw'', spec_name = ''video'',
      spec_description = [], spec_enabled = True, spec_priority = 10,
      spec_selectors = \<lparr>sel_clients = [''02:00:00:00:00:01''], sel_applications = [''video''],
        sel_categories = [], sel_min_application_confidence = F64_Fin (9 / 10)\<rparr>,
      spec_network = \<lparr>net_scope = ''internet'', net_direction = ''both''\<rparr>,
      spec_action = \<lparr>act_kind = ActionBlock, act_download_bps = None, act_upload_bps = None\<rparr>,
      spec_schedule = None\<rparr>"

definition ex_entry :: policy_snapshot_entry where
  "ex_entry = \<lparr>entry_id = ''p1'', entry_spec = ex_spec\<rparr>"

definition ex_epoch :: string where
  "ex_epoch = ''00000000-0000-0000-0000-000000000001''"

definition ex_command :: flow_command where
  "ex_command =
     \<lparr>cmd_wire_version = 1, cmd_gateway_id = ''gw'', cmd_boot_id = ''boot'',
      cmd_controller_epoch = ex_epoch, cmd_config_revision = 1, cmd_command_id = ''c1'',
      cmd_policy_flow_id = ''flow'', cmd_operation = Upsert, cmd_verdict = Some VerdictBlock,
      cmd_policy_ids = [''p1''], cmd_expires_at_ms = 61000, cmd_issued_at_ms = 1000\<rparr>"

definition ex_env :: wire_env where
  "ex_env =
     \<lparr>env_to_json = (\<lambda>_. Ok [1]), env_from_json = (\<lambda>_. Ok (FlowCommand ex_command)),
      env_to_jcs = (\<lambda>p. Ok [ucast (pay_config_revision p)]),
      env_sha256 = (\<lambda>bytes. take 32 (bytes @ replicate 32 0))\<rparr>"

definition ex_checksum :: string where
  "ex_checksum = ''sha256:01'' @ replicate 62 (CHR ''0'')"

definition ex_snapshot :: policy_snapshot where
  "ex_snapshot =
     \<lparr>snap_wire_version = 1, snap_gateway_id = ''gw'', snap_controller_epoch = ex_epoch,
      snap_config_revision = 1, snap_bundle_generation = 1, snap_generated_at_ms = 1000,
      snap_valid_until_ms = 100000, snap_checksum = ex_checksum, snap_policies = [ex_entry],
      snap_schedule_intervals = []\<rparr>"

section \<open>Lemmas\<close>

lemma ex_entry_valid: "validate_nonempty_id (entry_id ex_entry) ''policy id'' = Ok ()"
    "validate_policy_spec ''gw'' (entry_spec ex_entry) = Ok ()"
  by code_simp+

lemma ex_gateway_valid: "validate_gateway ''gw'' = Ok ()"
  by code_simp

lemma ex_epoch_valid: "validate_epoch ex_epoch = Ok ()"
  by code_simp

lemma validate_schedule_entry_Ok:
  "validate_schedule_entry ps e = Inr u \<longleftrightarrow>
     validate_nonempty_id (ivs_policy_id e) ''schedule policy id'' = Ok () \<and>
     ivs_policy_id e \<in> entry_id ` set ps \<and>
     sorted_wrt (<) (map interval_key (ivs_intervals e)) \<and>
     (\<forall>i\<in>set (ivs_intervals e). iv_start_ms i < iv_end_ms i)"
  unfolding validate_schedule_entry_def windows2_strict_sorted
  by (auto simp: res_simps not_le image_iff) metis

lemma validate_snapshot_wf:
  "validate_snapshot env (PolicySnapshot s) = Ok () \<longleftrightarrow> snapshot_wf env s"
  unfolding validate_snapshot_def snapshot_wf_def snapshot_content_wf_def windows2_strict_sorted
  by (auto simp: res_simps validate_schedule_entry_Ok not_le not_less)

lemma validate_snapshot_size:
  assumes "snapshot_content_wf env s"
  shows "validate_snapshot env (PolicySnapshot s) =
     and_then (env_to_json env (PolicySnapshot s)) (\<lambda>encoded.
       if length encoded > policy_max_snapshot_bytes
       then Err ''policy snapshot exceeds 768 KiB'' else Ok ())"
proof -
  have "try_each (\<lambda>policy. and_then (validate_nonempty_id (entry_id policy) ''policy id'') (\<lambda>_.
          validate_policy_spec (snap_gateway_id s) (entry_spec policy))) (snap_policies s) = Ok ()"
    and "try_each (validate_schedule_entry (snap_policies s)) (snap_schedule_intervals s) = Ok ()"
    and "\<not> (\<exists>(a, b)\<in>set (windows2 (snap_policies s)). entry_id b \<le> entry_id a)"
    and "\<not> (\<exists>(a, b)\<in>set (windows2 (snap_schedule_intervals s)). ivs_policy_id b \<le> ivs_policy_id a)"
    using assms
    by (auto simp: snapshot_content_wf_def res_simps validate_schedule_entry_Ok windows2_strict_sorted)
  then show ?thesis
    using assms by (simp add: validate_snapshot_def snapshot_content_wf_def)
qed

lemma snapshot_wf_distinct_ids: "snapshot_wf env s \<Longrightarrow> distinct (map entry_id (snap_policies s))"
  by (simp add: snapshot_wf_def snapshot_content_wf_def strict_sorted_map_distinct)

lemma snapshot_wf_find_policy:
  assumes "snapshot_wf env s" and "p \<in> set (snap_policies s)"
  shows "find (\<lambda>q. entry_id q = entry_id p) (snap_policies s) = Some p"
  using find_key_unique [OF snapshot_wf_distinct_ids [OF assms(1)] assms(2)] .

lemma is_lower_hex_hex_digit: "d < 16 \<Longrightarrow> is_lower_hex (hex_digit d)"
  by (auto simp: is_lower_hex_def hex_digit_def is_ascii_digit_def less_eq_char_def)

lemma is_lower_hex_hex2: "x \<in> set (hex2 (unat (w :: u8))) \<Longrightarrow> is_lower_hex x"
  using unat_u8_less [of w]
  by (auto simp: hex2_def div_less_iff_less_mult intro: is_lower_hex_hex_digit)

lemma checksum_for_Ok:
  "checksum_for env p = Ok c \<Longrightarrow>
     \<exists>b. env_to_jcs env p = Ok b \<and>
         c = ''sha256:'' @ concat (map (\<lambda>byte. hex2 (unat byte)) (env_sha256 env b))"
  by (auto simp: checksum_for_def res_simps)

lemma checksum_for_valid:
  assumes "checksum_for env p = Ok c" and "\<And>b. length (env_sha256 env b) = 32"
  shows "validate_checksum c = Ok ()"
  using checksum_for_Ok [OF assms(1)] assms(2) is_lower_hex_hex2
  by (auto simp: validate_checksum_def starts_with_def list_all_iff)

lemma distinct_interval_key: "distinct (map interval_key xs) \<longleftrightarrow> distinct xs"
  by (simp add: distinct_map inj_on_def interval_key_def)

text \<open>A successfully built snapshot is a well-formed one on the sorted inputs.\<close>

lemma snapshot_frame_Ok:
  assumes "snapshot_frame env g e r b t v ps sis = Ok f"
  obtains s where "f = PolicySnapshot s" and "snapshot_wf env s"
    and "snap_policies s = sort_key entry_id ps"
    and "snap_schedule_intervals s =
           map (\<lambda>x. x\<lparr>ivs_intervals := sort_key interval_key (ivs_intervals x)\<rparr>)
             (sort_key ivs_policy_id sis)"
    and "snap_gateway_id s = g" "snap_generated_at_ms s = t" "snap_valid_until_ms s = v"
  using assms by (auto simp: snapshot_frame_def Let_def res_simps simp flip: validate_snapshot_wf)

lemma sorted_schedules_ids:
  "distinct (map ivs_policy_id sis) \<Longrightarrow> sorted_wrt (<) (map ivs_policy_id (sorted_schedules sis))"
  using strict_sorted_sort_key [of ivs_policy_id sis] by (simp add: sorted_schedules_def comp_def)

lemma sorted_schedules_intervals:
  assumes "e \<in> set (sorted_schedules sis)"
  obtains j where "j \<in> set sis" "ivs_policy_id e = ivs_policy_id j"
    "set (ivs_intervals e) = set (ivs_intervals j)"
    "distinct (ivs_intervals j) \<Longrightarrow> sorted_wrt (<) (map interval_key (ivs_intervals e))"
  using assms by (auto simp: sorted_schedules_def strict_sorted_sort_key distinct_interval_key)

lemma validate_nonempty_id_label:
  "validate_nonempty_id x l = Ok () \<Longrightarrow> validate_nonempty_id x l' = Ok ()"
  by (auto simp: validate_nonempty_id_def split: if_splits)

lemma snapshot_frame_total:
  assumes "validate_gateway g = Ok ()" "validate_epoch e = Ok ()" "validate_generations r b = Ok ()"
    and "0 \<le> t" "t < v" "length ps \<le> 256" "distinct (map entry_id ps)"
    and pol: "\<And>p. p \<in> set ps \<Longrightarrow> validate_nonempty_id (entry_id p) ''policy id'' = Ok () \<and>
           validate_policy_spec g (entry_spec p) = Ok ()"
    and dsis: "distinct (map ivs_policy_id sis)"
    and sis: "\<And>i. i \<in> set sis \<Longrightarrow> ivs_policy_id i \<in> entry_id ` set ps \<and> distinct (ivs_intervals i) \<and>
           (\<forall>x\<in>set (ivs_intervals i). iv_start_ms x < iv_end_ms x)"
    and digest: "\<And>x. length (env_sha256 env x) = 32"
    and jcs: "\<And>x. is_ok (env_to_jcs env x)" and json: "\<And>x. is_ok (env_to_json env x)"
  shows "is_ok (snapshot_frame env g e r b t v ps sis) \<or>
    snapshot_frame env g e r b t v ps sis = Err ''policy snapshot exceeds 768 KiB''"
proof -
  let ?pay = "\<lparr>pay_gateway_id = g, pay_controller_epoch = e, pay_config_revision = r,
     pay_bundle_generation = b, pay_generated_at_ms = t, pay_valid_until_ms = v,
     pay_policies = sort_key entry_id ps, pay_schedule_intervals = sorted_schedules sis\<rparr>"
  obtain c where c: "checksum_for env ?pay = Ok c"
    using jcs [of ?pay] assms(3) by (auto simp: checksum_for_def is_ok_def split: sum.splits)
  let ?s = "\<lparr>snap_wire_version = policy_wire_version, snap_gateway_id = g,
     snap_controller_epoch = e, snap_config_revision = r, snap_bundle_generation = b,
     snap_generated_at_ms = t, snap_valid_until_ms = v, snap_checksum = c,
     snap_policies = sort_key entry_id ps, snap_schedule_intervals = sorted_schedules sis\<rparr>"
  have entry: "validate_nonempty_id (ivs_policy_id i) ''schedule policy id'' = Ok () \<and>
        ivs_policy_id i \<in> entry_id ` set ps \<and> sorted_wrt (<) (map interval_key (ivs_intervals i)) \<and>
        (\<forall>x\<in>set (ivs_intervals i). iv_start_ms x < iv_end_ms x)"
    if "i \<in> set (sorted_schedules sis)" for i
    using that
  proof (rule sorted_schedules_intervals)
    fix j assume "j \<in> set sis" and "ivs_policy_id i = ivs_policy_id j"
      and "set (ivs_intervals i) = set (ivs_intervals j)"
      and "distinct (ivs_intervals j) \<Longrightarrow> sorted_wrt (<) (map interval_key (ivs_intervals i))"
    with sis [of j] pol show ?thesis
      by (auto intro: validate_nonempty_id_label [of _ "''policy id''"])
  qed
  have "snapshot_content_wf env ?s"
    unfolding snapshot_content_wf_def
    using assms c checksum_for_valid [OF c digest] entry
    by (simp add: checksum_payload_def strict_sorted_sort_key sorted_schedules_ids)
  from validate_snapshot_size [OF this] show ?thesis
    using c json [of "PolicySnapshot ?s"]
    by (auto simp: snapshot_frame_def Let_def sorted_schedules_def is_ok_def
        split: sum.splits if_splits)
qed

section \<open>Properties\<close>


text \<open>The snapshot constructor is canonical: permuting the policies and the schedule entries
  it is given does not change the frame it builds (nor whether it fails), so equal policy sets
  give equal checksums.\<close>

theorem snapshot_frame_canonical:
  assumes "mset ps = mset ps'" and "distinct (map entry_id ps)"
    and "mset sis = mset sis'" and "distinct (map ivs_policy_id sis)"
  shows "snapshot_frame env g e r b t v ps sis = snapshot_frame env g e r b t v ps' sis'"
  unfolding snapshot_frame_def
  using sort_key_unique [OF assms(1,2)] sort_key_unique [OF assms(3,4)] by simp

theorem snapshot_frame_canonical_witness:
  "snapshot_frame ex_env ''gw'' ex_epoch 1 1 1000 100000
     [ex_entry, ex_entry\<lparr>entry_id := ''p0''\<rparr>] [] =
   snapshot_frame ex_env ''gw'' ex_epoch 1 1 1000 100000
     [ex_entry\<lparr>entry_id := ''p0''\<rparr>, ex_entry] []"
  by (rule snapshot_frame_canonical) (simp_all add: ex_entry_def)

text \<open>The snapshot constructor succeeds on every valid input: with a valid gateway, epoch
  and generation, a non-empty validity period, at most 256 valid policies with distinct
  identifiers, and schedule entries about those policies with distinct non-empty intervals, the
  only error left is the size limit of 768 KiB. Relied on of the third-party code: a digest has
  32 bytes and serialization does not fail.\<close>

theorem snapshot_frame_only_size_error:
  assumes "validate_gateway g = Ok ()" "validate_epoch e = Ok ()" "validate_generations r b = Ok ()"
    and "0 \<le> t" "t < v" "length ps \<le> 256" "distinct (map entry_id ps)"
    and pol: "\<And>p. p \<in> set ps \<Longrightarrow> validate_nonempty_id (entry_id p) ''policy id'' = Ok () \<and>
           validate_policy_spec g (entry_spec p) = Ok ()"
    and dsis: "distinct (map ivs_policy_id sis)"
    and sis: "\<And>i. i \<in> set sis \<Longrightarrow> ivs_policy_id i \<in> entry_id ` set ps \<and> distinct (ivs_intervals i) \<and>
           (\<forall>x\<in>set (ivs_intervals i). iv_start_ms x < iv_end_ms x)"
    and digest: "\<And>x. length (env_sha256 env x) = 32"
    and jcs: "\<And>x. is_ok (env_to_jcs env x)" and json: "\<And>x. is_ok (env_to_json env x)"
  shows "is_ok (snapshot_frame env g e r b t v ps sis) \<or>
    snapshot_frame env g e r b t v ps sis = Err ''policy snapshot exceeds 768 KiB''"
  using assms by (rule snapshot_frame_total)

theorem snapshot_frame_only_size_error_witness:
  "is_ok (snapshot_frame ex_env ''gw'' ex_epoch 1 1 1000 100000 [ex_entry]
       [\<lparr>ivs_policy_id = ''p1'', ivs_intervals = [\<lparr>iv_start_ms = 5, iv_end_ms = 9\<rparr>]\<rparr>]) \<or>
   snapshot_frame ex_env ''gw'' ex_epoch 1 1 1000 100000 [ex_entry]
       [\<lparr>ivs_policy_id = ''p1'', ivs_intervals = [\<lparr>iv_start_ms = 5, iv_end_ms = 9\<rparr>]\<rparr>] =
     Err ''policy snapshot exceeds 768 KiB''"
proof (rule snapshot_frame_only_size_error)
  show "validate_nonempty_id (entry_id p) ''policy id'' = Ok () \<and>
      validate_policy_spec ''gw'' (entry_spec p) = Ok ()" if "p \<in> set [ex_entry]" for p
    using that ex_entry_valid by simp
qed (simp_all add: ex_env_def ex_gateway_valid ex_epoch_valid ex_entry_def
    validate_generations_def max_safe_json_integer_def)

text \<open>A checksum identifies the content: two valid snapshots carry the same checksum only if
  their canonical payloads have the same SHA-256 digest.\<close>

theorem snapshot_checksum_binds:
  assumes "validate_frame env (PolicySnapshot s) = Ok ()"
    and "validate_frame env (PolicySnapshot s') = Ok ()"
  shows "snap_checksum s = snap_checksum s' \<longleftrightarrow>
    (\<exists>b b'. env_to_jcs env (checksum_payload s) = Ok b \<and> env_to_jcs env (checksum_payload s') = Ok b' \<and>
       env_sha256 env b = env_sha256 env b')"
proof -
  from assms have "checksum_for env (checksum_payload s) = Ok (snap_checksum s)"
    and "checksum_for env (checksum_payload s') = Ok (snap_checksum s')"
    by (simp_all add: validate_frame_def validate_snapshot_wf snapshot_wf_def snapshot_content_wf_def)
  then show ?thesis
    by (auto dest!: checksum_for_Ok dest: concat_hex2_inject [OF sym])
qed

theorem snapshot_checksum_binds_witness:
  "snap_checksum ex_snapshot = snap_checksum ex_snapshot \<longleftrightarrow>
    (\<exists>b b'. env_to_jcs ex_env (checksum_payload ex_snapshot) = Ok b \<and>
       env_to_jcs ex_env (checksum_payload ex_snapshot) = Ok b' \<and>
       env_sha256 ex_env b = env_sha256 ex_env b')"
  by (rule snapshot_checksum_binds; code_simp)



text \<open>Nothing a peer sends can extend a verdict beyond its lifetime bound: every decoded flow
  command has a non-negative issue time, expires after it and at most 120 seconds after it; an
  upsert names 1 to 16 policies and carries a verdict, a revoke neither. The bound holds on the
  exact difference, although the code computes it with saturation.\<close>

theorem decoded_command_bounds:
  assumes "decode_frame env bytes = Ok (FlowCommand c)"
    and "is_i64 (cmd_issued_at_ms c)" "is_i64 (cmd_expires_at_ms c)"
  shows "0 \<le> cmd_issued_at_ms c \<and> cmd_issued_at_ms c < cmd_expires_at_ms c \<and>
    cmd_expires_at_ms c - cmd_issued_at_ms c \<le> 120000 \<and>
    (case cmd_operation c of
       Upsert \<Rightarrow> cmd_verdict c \<noteq> None \<and> cmd_policy_ids c \<noteq> [] \<and> length (cmd_policy_ids c) \<le> 16
     | Revoke \<Rightarrow> cmd_verdict c = None \<and> cmd_policy_ids c = [])"
proof -
  have "validate_command c = Ok ()"
    using assms(1) by (auto simp: decode_frame_def validate_frame_def res_simps split: if_splits)
  with assms(2,3) show ?thesis
    by (auto simp: validate_command_def res_simps saturating_sub_i64_def sat_i64_def is_i64_def
        not_le not_less split: flow_command_operation.splits if_splits)
qed

theorem decoded_command_bounds_witness:
  "cmd_issued_at_ms ex_command < cmd_expires_at_ms ex_command \<and> length (cmd_policy_ids ex_command) \<le> 16"
proof -
  have "decode_frame ex_env [1] = Ok (FlowCommand ex_command)" by code_simp
  from decoded_command_bounds [OF this] show ?thesis
    by (simp add: ex_command_def is_i64_def i64_min_def i64_max_def)
qed

end
