(* ===== verification/Policy_Time.thy ===== *)
theory Policy_Time
  imports Policy_Wire
begin

text \<open>
  Calendar time as the Collector's policy code uses it. An instant is a number of milliseconds
  since the Unix epoch, a date the number of days since 1970-01-01 and a naive local time the
  milliseconds a wall clock shows, so weekday and time of day are arithmetic. What the chrono and
  chrono-tz libraries know (time-zone names and rules, the range of their types, the time-of-day
  parser) is the parameter record \<open>chrono\<close>; the predicates below it state the documented
  behaviour that individual theorems rely on.
\<close>

datatype local_result = LocalNone | LocalSingle int | LocalAmbiguous int int

record chrono =
  chr_tz :: "string \<Rightarrow> bool"
  chr_timestamp :: "int \<Rightarrow> bool"
  chr_local :: "string \<Rightarrow> int \<Rightarrow> int"
  chr_from_local :: "string \<Rightarrow> int \<Rightarrow> local_result"
  chr_parse_hm :: "string \<Rightarrow> nat res"
  chr_max_date :: int
  chr_max_local :: int

definition day_ms :: int where
  "day_ms = 24 * 60 * 60 * 1000"

definition minute_ms :: int where
  "minute_ms = 60 * 1000"

definition date_naive :: "int \<Rightarrow> int" where
  "date_naive local = local div day_ms"

definition minute_of_day :: "int \<Rightarrow> nat" where
  "minute_of_day local = nat ((local mod day_ms) div minute_ms)"

definition and_time :: "int \<Rightarrow> nat \<Rightarrow> int" where
  "and_time date minute = date * day_ms + int minute * minute_ms"

text \<open>1970-01-01 was a Thursday, which is three days after Monday.\<close>

definition num_days_from_monday :: "int \<Rightarrow> nat" where
  "num_days_from_monday date = nat ((date + 3) mod 7)"

definition succ_opt :: "chrono \<Rightarrow> int \<Rightarrow> int option" where
  "succ_opt chr date = (if date < chr_max_date chr then Some (date + 1) else None)"

definition checked_add_minute :: "chrono \<Rightarrow> int \<Rightarrow> int option" where
  "checked_add_minute chr local =
     (if local + minute_ms \<le> chr_max_local chr then Some (local + minute_ms) else None)"

fun weekday_of :: "nat \<Rightarrow> policy_weekday" where
  "weekday_of n =
     (if n = 0 then Mon else if n = 1 then Tue else if n = 2 then Wed else if n = 3 then Thu
      else if n = 4 then Fri else if n = 5 then Sat else Sun)"

text \<open>The documented behaviour of \<open>NaiveTime::parse_from_str\<close> with the format \<open>%H:%M\<close>
  on two two-digit numbers separated by a colon.\<close>

definition two_digits :: "char \<Rightarrow> char \<Rightarrow> nat" where
  "two_digits a b = 10 * (byte_val a - 48) + (byte_val b - 48)"

definition parse_hm_spec :: "chrono \<Rightarrow> bool" where
  "parse_hm_spec chr \<longleftrightarrow>
     (\<forall>a b c d. is_ascii_digit a \<longrightarrow> is_ascii_digit b \<longrightarrow> is_ascii_digit c \<longrightarrow> is_ascii_digit d \<longrightarrow>
        (if two_digits a b < 24 \<and> two_digits c d < 60
         then chr_parse_hm chr [a, b, CHR '':'', c, d] = Ok (two_digits a b * 60 + two_digits c d)
         else \<not> is_ok (chr_parse_hm chr [a, b, CHR '':'', c, d])))"

text \<open>A zone whose offset from UTC never changes.\<close>

definition fixed_offset :: "chrono \<Rightarrow> string \<Rightarrow> int \<Rightarrow> bool" where
  "fixed_offset chr tz off \<longleftrightarrow> chr_tz chr tz \<and>
     (\<forall>t. chr_local chr tz t = t + off) \<and> (\<forall>l. chr_from_local chr tz l = LocalSingle (l - off))"

text \<open>A concrete instance: a single zone, UTC, and the range of chrono's dates.\<close>

definition ex_parse_hm :: "string \<Rightarrow> nat res" where
  "ex_parse_hm s =
     (case s of [a, b, m, c, d] \<Rightarrow>
        if m = CHR '':'' \<and> list_all is_ascii_digit [a, b, c, d] \<and>
           two_digits a b < 24 \<and> two_digits c d < 60
        then Ok (two_digits a b * 60 + two_digits c d) else Err ''input contains invalid characters''
      | _ \<Rightarrow> Err ''input contains invalid characters'')"

definition ex_chrono :: chrono where
  "ex_chrono =
     \<lparr>chr_tz = (\<lambda>tz. tz = ''UTC''), chr_timestamp = (\<lambda>t. \<bar>t\<bar> \<le> 8000000000000000),
      chr_local = (\<lambda>_ t. t), chr_from_local = (\<lambda>_ l. LocalSingle l), chr_parse_hm = ex_parse_hm,
      chr_max_date = 95026236, chr_max_local = 8210266876799999\<rparr>"

lemma ex_chrono_parse_hm: "parse_hm_spec ex_chrono"
  by (simp add: parse_hm_spec_def ex_chrono_def ex_parse_hm_def)

lemma ex_chrono_fixed_offset: "fixed_offset ex_chrono ''UTC'' 0"
  by (simp add: fixed_offset_def ex_chrono_def)

lemma minute_of_day_less: "minute_of_day local < 1440"
  by (simp add: minute_of_day_def day_ms_def minute_ms_def nat_less_iff)

text \<open>A wall clock shows a time in a window of a date exactly when its date is that date and its
  minute is in the window.\<close>

lemma and_time_window:
  assumes "a \<le> 1440" "b \<le> 1440" "a < b"
  shows "and_time date a \<le> l \<and> l < and_time date b \<longleftrightarrow>
    date_naive l = date \<and> a \<le> minute_of_day l \<and> minute_of_day l < b"
proof -
  have r: "l = date_naive l * day_ms + l mod day_ms" "0 \<le> l mod day_ms" "l mod day_ms < day_ms"
    by (simp_all add: date_naive_def day_ms_def)
  have m: "a \<le> minute_of_day l \<longleftrightarrow> int a * minute_ms \<le> l mod day_ms"
    "minute_of_day l < b \<longleftrightarrow> l mod day_ms < int b * minute_ms"
    using r(2) by (auto simp: minute_of_day_def minute_ms_def le_nat_iff nat_less_iff)
  have le: "int a * minute_ms \<le> day_ms" "int b * minute_ms \<le> day_ms" "0 \<le> int a * minute_ms"
    using assms by (simp_all add: day_ms_def minute_ms_def)
  show ?thesis
  proof (cases "date_naive l = date")
    case True
    then show ?thesis using r m by (simp add: and_time_def) linarith
  next
    case False
    then have "date + 1 \<le> date_naive l \<or> date_naive l + 1 \<le> date" by linarith
    then have "(date + 1) * day_ms \<le> date_naive l * day_ms \<or> (date_naive l + 1) * day_ms \<le> date * day_ms"
      by (auto simp: day_ms_def)
    then show ?thesis using False r le by (auto simp: and_time_def algebra_simps)
  qed
qed

lemma weekday_of_monday_index [simp]: "weekday_of (monday_index d) = d"
  by (cases d) simp_all

lemma monday_index_weekday_of: "n < 7 \<Longrightarrow> monday_index (weekday_of n) = n"
  by auto

lemma weekday_of_eq: "n < 7 \<Longrightarrow> weekday_of n = d \<longleftrightarrow> monday_index d = n"
  by (metis weekday_of_monday_index monday_index_weekday_of)

lemma num_days_from_monday_less [simp]: "num_days_from_monday date < 7"
  by (simp add: num_days_from_monday_def nat_less_iff)

end
