(* ===== verification/Policy_Evaluator.thy ===== *)
theory Policy_Evaluator
  imports Policy_Time
begin

text \<open>
  The Collector's policy evaluation (\<open>collector/src/policy/evaluator.rs\<close>): which policies match a
  classified flow, which block or allow policy wins, which limits are active, the verdict of the
  flow command derived from that, and the time until which a verdict may be leased to the Agent.
\<close>

section \<open>Requests and results\<close>

record policy_preview_request =
  req_gateway_id :: string
  req_client_mac :: string
  req_application_id :: string
  req_category_id :: string
  req_application_confidence :: f64
  req_scope :: string
  req_at_ms :: int

record policy_preview_match =
  pm_policy_id :: string
  pm_name :: string
  pm_action :: string
  pm_priority :: u16
  pm_selected :: bool

record policy_preview_limit =
  pl_policy_id :: string
  pl_name :: string
  pl_download_bps :: "u64 option"
  pl_upload_bps :: "u64 option"
  pl_status :: string
  pl_reason_code :: "string option"

record policy_preview_result =
  pr_matched_policies :: "policy_preview_match list"
  pr_selected_block_verdict :: string
  pr_active_limits :: "policy_preview_limit list"
  pr_explanation :: string
  pr_unsupported_reasons :: "string list"

section \<open>The verdict of a flow command\<close>

definition supported_limits :: "policy_preview_result \<Rightarrow> string list" where
  "supported_limits evaluation =
     map pl_policy_id (filter (\<lambda>limit. pl_status limit = ''supported'') (pr_active_limits evaluation))"

definition selected_policy :: "policy_preview_result \<Rightarrow> string option" where
  "selected_policy evaluation =
     map_option pm_policy_id (find pm_selected (pr_matched_policies evaluation))"

definition option_to_list :: "'a option \<Rightarrow> 'a list" where
  "option_to_list x = (case x of None \<Rightarrow> [] | Some v \<Rightarrow> [v])"

definition flow_command_decision :: "policy_preview_result \<Rightarrow> flow_verdict option \<times> string list" where
  "flow_command_decision evaluation =
     (if pr_selected_block_verdict evaluation = ''block''
      then (Some VerdictBlock, option_to_list (selected_policy evaluation))
      else if pr_selected_block_verdict evaluation = ''allow''
      then (let limits = supported_limits evaluation in
            if limits = [] then (Some VerdictAllow, option_to_list (selected_policy evaluation))
            else (Some VerdictShape, limits))
      else (let limits = supported_limits evaluation in
            if limits = [] then (None, []) else (Some VerdictShape, limits)))"

section \<open>Matching\<close>

definition is_application_policy :: "policy_snapshot_entry \<Rightarrow> bool" where
  "is_application_policy policy \<longleftrightarrow>
     sel_applications (spec_selectors (entry_spec policy)) \<noteq> [] \<or>
     sel_categories (spec_selectors (entry_spec policy)) \<noteq> []"

definition selectors_match ::
  "policy_snapshot_entry \<Rightarrow> string \<Rightarrow> policy_preview_request \<Rightarrow> bool" where
  "selectors_match policy client_mac request =
     (let selectors = spec_selectors (entry_spec policy);
          client_matches = sel_clients selectors = [] \<or>
            (\<exists>client\<in>set (sel_clients selectors). eq_ignore_ascii_case client client_mac);
          application_matches = sel_applications selectors = [] \<or>
            req_application_id request \<in> set (sel_applications selectors);
          category_matches = sel_categories selectors = [] \<or>
            req_category_id request \<in> set (sel_categories selectors);
          app_condition =
            (if sel_applications selectors = [] then category_matches
             else if sel_categories selectors = [] then application_matches
             else application_matches \<or> category_matches)
      in client_matches \<and> app_condition \<and>
         f64_le (sel_min_application_confidence selectors) (req_application_confidence request))"

definition u8_of_bool :: "bool \<Rightarrow> u8" where
  "u8_of_bool b = (if b then 1 else 0)"

definition saturating_mul_u8 :: "u8 \<Rightarrow> u8 \<Rightarrow> u8" where
  "saturating_mul_u8 a b = (if unat a * unat b < 256 then a * b else - 1)"

definition specificity :: "policy_snapshot_entry \<Rightarrow> u8" where
  "specificity policy =
     (let selectors = spec_selectors (entry_spec policy) in
      saturating_add_w
        (saturating_add_w (u8_of_bool (sel_clients selectors \<noteq> []))
           (saturating_mul_u8 (u8_of_bool (sel_applications selectors \<noteq> [])) 2))
        (u8_of_bool (sel_categories selectors \<noteq> [])))"

definition parse_u32 :: "string \<Rightarrow> nat option" where
  "parse_u32 s = from_str_radix (2 ^ 32) 10 s"

definition parse_minute :: "string \<Rightarrow> u32 option" where
  "parse_minute value =
     Option.bind (split_once (CHR '':'') value) (\<lambda>(hours, minutes).
     Option.bind (parse_u32 hours) (\<lambda>h.
     if h * 60 < 2 ^ 32
     then Option.bind (parse_u32 minutes) (\<lambda>m. Some (of_nat (h * 60) + of_nat m))
     else None))"

definition schedule_active :: "chrono \<Rightarrow> policy_snapshot_entry \<Rightarrow> int \<Rightarrow> bool" where
  "schedule_active chr policy at_ms =
     (case spec_schedule (entry_spec policy) of
        None \<Rightarrow> True
      | Some schedule \<Rightarrow>
          chr_timestamp chr at_ms \<and> chr_tz chr (sched_timezone schedule) \<and>
          (let local = chr_local chr (sched_timezone schedule) at_ms;
               weekday = weekday_of (num_days_from_monday (date_naive local));
               minute = (of_nat (minute_of_day local) :: u32)
           in \<exists>window\<in>set (sched_windows schedule).
                weekday \<in> set (win_days window) \<and>
                is_some_and (parse_minute (win_start window)) (\<lambda>start. start \<le> minute) \<and>
                is_some_and (parse_minute (win_end window)) (\<lambda>stop. minute < stop)))"

fun action_name :: "policy_action_kind \<Rightarrow> string" where
  "action_name ActionBlock = ''block''"
| "action_name ActionAllow = ''allow''"
| "action_name ActionLimit = ''limit''"

definition matches_request ::
  "chrono \<Rightarrow> policy_preview_request \<Rightarrow> policy_snapshot_entry \<Rightarrow> bool" where
  "matches_request chr request policy \<longleftrightarrow>
     spec_gateway_id (entry_spec policy) = req_gateway_id request \<and>
     spec_enabled (entry_spec policy) \<and>
     net_scope (spec_network (entry_spec policy)) = ''internet'' \<and>
     net_direction (spec_network (entry_spec policy)) = ''both'' \<and>
     is_application_policy policy \<and>
     schedule_active chr policy (req_at_ms request) \<and>
     selectors_match policy (to_ascii_uppercase (req_client_mac request)) request"

text \<open>The three-stage comparison of two matches, as the key of a stable sort.\<close>

definition match_key :: "policy_snapshot_entry \<Rightarrow> u16 \<times> int \<times> string" where
  "match_key policy =
     (spec_priority (entry_spec policy), - int (unat (specificity policy)), entry_id policy)"

definition decides_verdict :: "policy_snapshot_entry \<Rightarrow> bool" where
  "decides_verdict policy \<longleftrightarrow> act_kind (spec_action (entry_spec policy)) \<in> {ActionBlock, ActionAllow}"

section \<open>Evaluation\<close>

definition verdict_of ::
  "bool \<Rightarrow> policy_snapshot_entry option \<Rightarrow> string \<times> string list" where
  "verdict_of application_block_supported winning =
     (case winning of
        None \<Rightarrow> (''none'', [])
      | Some policy \<Rightarrow>
          if sel_clients (spec_selectors (entry_spec policy)) = []
          then (''unsupported'', [''application_client_selector_required''])
          else (case act_kind (spec_action (entry_spec policy)) of
             ActionBlock \<Rightarrow>
               if application_block_supported then (''block'', [])
               else (''unsupported'', [''unsupported_application_block''])
           | ActionAllow \<Rightarrow>
               if application_block_supported then (''allow'', [])
               else (''unsupported'', [''unsupported_application_block''])
           | ActionLimit \<Rightarrow> (''unsupported'', [''unsupported_application_block''])))"

definition limit_status :: "bool \<Rightarrow> policy_snapshot_entry \<Rightarrow> string \<times> string option" where
  "limit_status application_limit_supported policy =
     (if sel_clients (spec_selectors (entry_spec policy)) = []
      then (''unsupported'', Some ''application_client_selector_required'')
      else if \<not> application_limit_supported
      then (''unsupported'', Some ''unsupported_application_shaping'')
      else (''supported'', None))"

definition preview_limit :: "bool \<Rightarrow> policy_snapshot_entry \<Rightarrow> policy_preview_limit" where
  "preview_limit application_limit_supported policy =
     \<lparr>pl_policy_id = entry_id policy, pl_name = spec_name (entry_spec policy),
      pl_download_bps = act_download_bps (spec_action (entry_spec policy)),
      pl_upload_bps = act_upload_bps (spec_action (entry_spec policy)),
      pl_status = fst (limit_status application_limit_supported policy),
      pl_reason_code = snd (limit_status application_limit_supported policy)\<rparr>"

definition preview_match :: "string option \<Rightarrow> policy_snapshot_entry \<Rightarrow> policy_preview_match" where
  "preview_match selected_id policy =
     \<lparr>pm_policy_id = entry_id policy, pm_name = spec_name (entry_spec policy),
      pm_action = action_name (act_kind (spec_action (entry_spec policy))),
      pm_priority = spec_priority (entry_spec policy),
      pm_selected = (selected_id = Some (entry_id policy))\<rparr>"

definition evaluate_preview ::
  "chrono \<Rightarrow> policy_preview_request \<Rightarrow> policy_snapshot_entry list \<Rightarrow> bool \<Rightarrow> bool \<Rightarrow>
   policy_preview_result" where
  "evaluate_preview chr request policies application_block_supported application_limit_supported =
     (let matches = filter (matches_request chr request) policies;
          (reasons, matches) =
            (if req_scope request \<noteq> ''internet'' then ([''unsupported_scope''], [])
             else ([], matches));
          (reasons, matches) =
            (if req_application_id request = ''unknown''
             then (reasons @ [''application_id_unknown_fail_open''], [])
             else if \<not> is_finite (req_application_confidence request) \<or>
                \<not> f64_in_range (F64_Fin 0) (F64_Fin 1) (req_application_confidence request)
             then (reasons @ [''invalid_application_confidence''], [])
             else (reasons, matches));
          matches = sort_key match_key matches;
          winning_verdict = find decides_verdict matches;
          (verdict, verdict_reasons) = verdict_of application_block_supported winning_verdict;
          limits = filter (\<lambda>policy. act_kind (spec_action (entry_spec policy)) = ActionLimit) matches;
          active_limits = map (preview_limit application_limit_supported) limits;
          limit_reasons =
            concat (map (\<lambda>policy. option_to_list (snd (limit_status application_limit_supported policy)))
                      limits);
          unsupported_reasons = remdups_adj (sort (reasons @ verdict_reasons @ limit_reasons));
          matched_policies =
            map (preview_match (map_option entry_id winning_verdict)) matches;
          explanation =
            (if req_scope request \<noteq> ''internet''
             then ''Application policies only apply to internet flows.''
             else if req_application_id request = ''unknown''
             then ''The application is unknown, so application policies fail open.''
             else if matches = []
             then ''No enabled application policy matches this client, application, confidence, and time window.''
             else if verdict = ''unsupported''
             then ''A policy matches, but this gateway has no verified application-flow enforcement capability.''
             else if verdict = ''block''
             then ''The selected application policy blocks this identified flow after classification.''
             else if verdict = ''allow''
             then ''The selected application allow rule clears an application-layer block; client blocks and limits still apply.''
             else ''An application policy matches; its action does not select a block or allow verdict.'')
      in \<lparr>pr_matched_policies = matched_policies, pr_selected_block_verdict = verdict,
          pr_active_limits = active_limits, pr_explanation = explanation,
          pr_unsupported_reasons = unsupported_reasons\<rparr>)"

section \<open>The lease of a verdict\<close>

fun expiry_of_policies ::
  "policy_snapshot_entry list \<Rightarrow> policy_schedule_intervals list \<Rightarrow> int \<Rightarrow> int \<Rightarrow> string list \<Rightarrow>
   int option" where
  "expiry_of_policies policies schedule_intervals now_ms expiry [] = Some expiry"
| "expiry_of_policies policies schedule_intervals now_ms expiry (policy_id # policy_ids) =
     (case find (\<lambda>policy. entry_id policy = policy_id) policies of
        None \<Rightarrow> None
      | Some policy \<Rightarrow>
          if \<not> spec_enabled (entry_spec policy) then None
          else if spec_schedule (entry_spec policy) \<noteq> None
          then (case find (\<lambda>intervals. ivs_policy_id intervals = policy_id) schedule_intervals of
             None \<Rightarrow> None
           | Some intervals \<Rightarrow>
               (case find (\<lambda>interval. iv_start_ms interval \<le> now_ms \<and> now_ms < iv_end_ms interval)
                       (ivs_intervals intervals) of
                  None \<Rightarrow> None
                | Some interval \<Rightarrow>
                    expiry_of_policies policies schedule_intervals now_ms
                      (min expiry (iv_end_ms interval)) policy_ids))
          else expiry_of_policies policies schedule_intervals now_ms expiry policy_ids)"

definition flow_verdict_expiry ::
  "policy_wire_frame \<Rightarrow> string list \<Rightarrow> int \<Rightarrow> int \<Rightarrow> int option" where
  "flow_verdict_expiry frame policy_ids now_ms ttl_ms =
     (case frame of
        PolicySnapshot s \<Rightarrow>
          if policy_ids = [] \<or> now_ms < 0 \<or> snap_valid_until_ms s \<le> now_ms \<or> ttl_ms \<le> 0 then None
          else Option.bind
            (expiry_of_policies (snap_policies s) (snap_schedule_intervals s) now_ms
               (min (saturating_add_i64 now_ms ttl_ms) (snap_valid_until_ms s)) policy_ids)
            (\<lambda>expiry. if now_ms < expiry then Some expiry else None)
      | _ \<Rightarrow> None)"

section \<open>Specification\<close>

text \<open>The requests for which policies apply at all, and the policies that take part.\<close>

definition request_ok :: "policy_preview_request \<Rightarrow> bool" where
  "request_ok request \<longleftrightarrow>
     req_scope request = ''internet'' \<and> req_application_id request \<noteq> ''unknown'' \<and>
     is_finite (req_application_confidence request) \<and>
     f64_in_range (F64_Fin 0) (F64_Fin 1) (req_application_confidence request)"

definition eligible :: "chrono \<Rightarrow> policy_preview_request \<Rightarrow> policy_snapshot_entry \<Rightarrow> bool" where
  "eligible chr request policy \<longleftrightarrow> request_ok request \<and> matches_request chr request policy"

definition ranked ::
  "chrono \<Rightarrow> policy_preview_request \<Rightarrow> policy_snapshot_entry list \<Rightarrow> policy_snapshot_entry list" where
  "ranked chr request policies = sort_key match_key (filter (eligible chr request) policies)"

text \<open>The policy that decides the verdict: the least one of the eligible block and allow policies.\<close>

definition decisive ::
  "chrono \<Rightarrow> policy_preview_request \<Rightarrow> policy_snapshot_entry list \<Rightarrow> policy_snapshot_entry \<Rightarrow> bool" where
  "decisive chr request policies p \<longleftrightarrow>
     p \<in> set policies \<and> eligible chr request p \<and> decides_verdict p \<and>
     (\<forall>q\<in>set policies. eligible chr request q \<and> decides_verdict q \<longrightarrow> match_key p \<le> match_key q)"

text \<open>A policy is in force at a time: enabled and, if it has a schedule, inside an interval of it.\<close>

definition in_force :: "policy_snapshot \<Rightarrow> int \<Rightarrow> string \<Rightarrow> bool" where
  "in_force s t policy_id \<longleftrightarrow>
     (\<exists>p. find (\<lambda>policy. entry_id policy = policy_id) (snap_policies s) = Some p \<and>
        spec_enabled (entry_spec p) \<and>
        (spec_schedule (entry_spec p) \<noteq> None \<longrightarrow>
           (\<exists>e. find (\<lambda>x. ivs_policy_id x = policy_id) (snap_schedule_intervals s) = Some e \<and>
              (\<exists>i\<in>set (ivs_intervals e). iv_start_ms i \<le> t \<and> t < iv_end_ms i))))"

section \<open>Lemmas\<close>

lemma f64_range_code: "f64_in_range (F64_Fin 0) (F64_Fin 1) x \<Longrightarrow> is_finite x"
  by (cases x) (auto simp: f64_in_range_def)

lemma ranked_cases:
  "ranked chr request policies =
     (if request_ok request then sort_key match_key (filter (matches_request chr request) policies)
      else [])"
  by (simp add: ranked_def eligible_def cong: filter_cong)

lemma evaluate_preview_eq:
  fixes request policies bs ls chr
  defines "ms \<equiv> ranked chr request policies" and "r \<equiv> evaluate_preview chr request policies bs ls"
  shows "pr_matched_policies r =
      map (preview_match (map_option entry_id (find decides_verdict ms))) ms"
    and "pr_selected_block_verdict r = fst (verdict_of bs (find decides_verdict ms))"
    and "pr_active_limits r = map (preview_limit ls)
      (filter (\<lambda>policy. act_kind (spec_action (entry_spec policy)) = ActionLimit) ms)"
  by (simp_all add: r_def ms_def ranked_cases evaluate_preview_def request_ok_def Let_def split_def)

lemma ranked_set: "p \<in> set (ranked chr request policies) \<longleftrightarrow> p \<in> set policies \<and> eligible chr request p"
  by (simp add: ranked_def)

lemma winner_decisive:
  "find decides_verdict (ranked chr request policies) = Some p \<Longrightarrow> decisive chr request policies p"
  unfolding ranked_def decisive_def by (drule find_sort_key_first) auto

lemma winner_in:
  assumes "find decides_verdict (ranked chr request policies) = Some p"
  shows "p \<in> set policies" "eligible chr request p"
  using winner_decisive [OF assms] by (simp_all add: decisive_def)

lemma decisive_unique:
  assumes "distinct (map entry_id policies)"
    and "decisive chr request policies p" "decisive chr request policies q"
  shows "p = q"
proof -
  have "match_key p = match_key q" using assms(2,3) by (auto simp: decisive_def intro: order.antisym)
  then have "entry_id p = entry_id q" by (simp add: match_key_def)
  with assms show ?thesis by (auto simp: decisive_def distinct_map inj_on_def)
qed

lemma winner_iff_decisive:
  assumes "distinct (map entry_id policies)"
  shows "find decides_verdict (ranked chr request policies) = Some p \<longleftrightarrow>
    decisive chr request policies p"
proof
  assume d: "decisive chr request policies p"
  then have "find decides_verdict (ranked chr request policies) \<noteq> None"
    by (auto simp: find_None_iff ranked_set decisive_def)
  then obtain q where "find decides_verdict (ranked chr request policies) = Some q" by auto
  with winner_decisive [OF this] d decisive_unique [OF assms]
  show "find decides_verdict (ranked chr request policies) = Some p" by auto
qed (rule winner_decisive)

lemma selected_policy_eval:
  "selected_policy (evaluate_preview chr request policies bs ls) =
     map_option entry_id (find decides_verdict (ranked chr request policies))"
proof (cases "find decides_verdict (ranked chr request policies)")
  case None
  then show ?thesis
    by (simp add: selected_policy_def evaluate_preview_eq find_map_option comp_def preview_match_def
        find_False)
next
  case (Some w)
  then have "w \<in> set (ranked chr request policies)" by (auto simp: find_Some_iff)
  from find_equal_key [OF this, of entry_id] Some show ?thesis
    by (simp add: selected_policy_def evaluate_preview_eq find_map_option comp_def preview_match_def
        option.map_comp)
qed

lemma supported_limits_eval:
  "supported_limits (evaluate_preview chr request policies bs ls) =
     map entry_id (filter (\<lambda>p. ls \<and> act_kind (spec_action (entry_spec p)) = ActionLimit \<and>
        sel_clients (spec_selectors (entry_spec p)) \<noteq> []) (ranked chr request policies))"
  by (simp add: supported_limits_def evaluate_preview_eq filter_map comp_def preview_limit_def
      limit_status_def conj_ac cong: conj_cong)

lemma fst_verdict_of:
  "fst (verdict_of bs w) = ''block'' \<longleftrightarrow> (\<exists>p. w = Some p \<and> bs \<and>
     sel_clients (spec_selectors (entry_spec p)) \<noteq> [] \<and> act_kind (spec_action (entry_spec p)) = ActionBlock)"
  "fst (verdict_of bs w) = ''allow'' \<longleftrightarrow> (\<exists>p. w = Some p \<and> bs \<and>
     sel_clients (spec_selectors (entry_spec p)) \<noteq> [] \<and> act_kind (spec_action (entry_spec p)) = ActionAllow)"
  by (auto simp: verdict_of_def split: option.splits policy_action_kind.splits)

lemma flow_command_cases:
  assumes "flow_command_decision (evaluate_preview chr request policies bs ls) = (v, ids)"
  obtains (none) "v = None" "ids = []"
  | (shape) "v = Some VerdictShape" "ids \<noteq> []"
      "ids = supported_limits (evaluate_preview chr request policies bs ls)"
  | (block) p where "v = Some VerdictBlock" "ids = [entry_id p]"
      "find decides_verdict (ranked chr request policies) = Some p"
      "sel_clients (spec_selectors (entry_spec p)) \<noteq> []"
      "act_kind (spec_action (entry_spec p)) = ActionBlock"
  | (allow) p where "v = Some VerdictAllow" "ids = [entry_id p]"
      "find decides_verdict (ranked chr request policies) = Some p"
      "sel_clients (spec_selectors (entry_spec p)) \<noteq> []"
      "act_kind (spec_action (entry_spec p)) = ActionAllow"
  using assms
  by (auto simp: flow_command_decision_def Let_def evaluate_preview_eq(2) selected_policy_eval
      fst_verdict_of option_to_list_def split: if_splits)

lemma expiry_of_policies_Some_iff:
  "(\<exists>e. expiry_of_policies (snap_policies s) (snap_schedule_intervals s) now e0 ids = Some e) \<longleftrightarrow>
     (\<forall>i\<in>set ids. in_force s now i)"
  by (induction ids arbitrary: e0)
    (auto simp: in_force_def find_None_iff split: option.splits dest: find_Some_iff_dest)

lemma expiry_of_policies_bound:
  assumes "expiry_of_policies (snap_policies s) (snap_schedule_intervals s) now e0 ids = Some e"
  shows "e \<le> e0 \<and> (now \<le> t \<and> t < e \<longrightarrow> (\<forall>i\<in>set ids. in_force s t i)) \<and> (now < e0 \<longrightarrow> now < e)"
  using assms
proof (induction ids arbitrary: e0)
  case (Cons a ids)
  show ?case
  proof (cases "find (\<lambda>policy. entry_id policy = a) (snap_policies s)")
    case (Some p)
    show ?thesis
    proof (cases "spec_schedule (entry_spec p)")
      case None
      with Cons.prems Some Cons.IH [of e0] show ?thesis
        by (auto simp: in_force_def split: if_splits)
    next
      case (Some sch)
      with Cons.prems \<open>find _ _ = Some p\<close> obtain x i where
        x: "find (\<lambda>x. ivs_policy_id x = a) (snap_schedule_intervals s) = Some x"
        and i: "find (\<lambda>i. iv_start_ms i \<le> now \<and> now < iv_end_ms i) (ivs_intervals x) = Some i"
        and rest: "expiry_of_policies (snap_policies s) (snap_schedule_intervals s) now
          (min e0 (iv_end_ms i)) ids = Some e" and "spec_enabled (entry_spec p)"
        by (auto split: option.splits if_splits)
      with Cons.IH [OF rest] find_Some_iff_dest [OF i] \<open>find _ _ = Some p\<close> show ?thesis
        by (auto simp: in_force_def intro!: bexI [of _ i])
    qed
  qed (use Cons.prems in simp)
qed simp

section \<open>A concrete instance\<close>

definition ex_request :: policy_preview_request where
  "ex_request =
     \<lparr>req_gateway_id = ''gw'', req_client_mac = ''02:00:00:00:00:01'',
      req_application_id = ''video'', req_category_id = ''streaming'',
      req_application_confidence = F64_Fin (19 / 20), req_scope = ''internet'', req_at_ms = 1000\<rparr>"

section \<open>Properties\<close>

text \<open>C31. The verdict is decided by the least matching policy: among the block and allow policies
  that match the request, exactly the one with the lowest priority number, then the highest
  specificity, then the smallest identifier is marked as selected.\<close>

theorem evaluate_preview_selects_least:
  assumes "distinct (map entry_id policies)" and "p \<in> set policies"
  shows "(\<exists>m\<in>set (pr_matched_policies (evaluate_preview chr request policies bs ls)).
            pm_policy_id m = entry_id p \<and> pm_selected m) \<longleftrightarrow>
    eligible chr request p \<and> decides_verdict p \<and>
    (\<forall>q\<in>set policies. eligible chr request q \<and> decides_verdict q \<longrightarrow> match_key p \<le> match_key q)"
proof -
  have "(\<exists>m\<in>set (pr_matched_policies (evaluate_preview chr request policies bs ls)).
            pm_policy_id m = entry_id p \<and> pm_selected m) \<longleftrightarrow>
     (\<exists>w\<in>set (ranked chr request policies). entry_id w = entry_id p \<and>
        find decides_verdict (ranked chr request policies) = Some w)"
    using assms(1)
    by (auto simp: evaluate_preview_eq preview_match_def ranked_set distinct_map inj_on_def
        dest: winner_in)
  also have "\<dots> \<longleftrightarrow> decisive chr request policies p"
    unfolding winner_iff_decisive [OF assms(1)]
    using distinct_map_key_eq [OF assms(1) _ assms(2)] by (metis decisive_def ranked_set)
  finally show ?thesis using assms(2) by (simp add: decisive_def)
qed

theorem evaluate_preview_selects_least_witness:
  "\<exists>m\<in>set (pr_matched_policies (evaluate_preview ex_chrono ex_request [ex_entry] True True)).
     pm_policy_id m = entry_id ex_entry \<and> pm_selected m"
proof -
  have "eligible ex_chrono ex_request ex_entry \<and> decides_verdict ex_entry" by code_simp
  then show ?thesis
    using evaluate_preview_selects_least [of "[ex_entry]" ex_entry ex_chrono ex_request True True] by simp
qed

text \<open>C22. A flow is blocked exactly when the gateway supports application blocks and the least
  matching block-or-allow policy is a block policy with a client selector; the command then names
  that policy alone.\<close>

theorem flow_blocked_iff:
  assumes "distinct (map entry_id policies)"
  shows "flow_command_decision (evaluate_preview chr request policies bs ls) = (Some VerdictBlock, ids) \<longleftrightarrow>
    bs \<and> (\<exists>p. ids = [entry_id p] \<and> decisive chr request policies p \<and>
       act_kind (spec_action (entry_spec p)) = ActionBlock \<and>
       sel_clients (spec_selectors (entry_spec p)) \<noteq> [])"
proof -
  have "flow_command_decision (evaluate_preview chr request policies bs ls) = (Some VerdictBlock, ids) \<longleftrightarrow>
    (\<exists>p. find decides_verdict (ranked chr request policies) = Some p \<and> bs \<and> ids = [entry_id p] \<and>
       act_kind (spec_action (entry_spec p)) = ActionBlock \<and>
       sel_clients (spec_selectors (entry_spec p)) \<noteq> [])"
    by (auto simp: flow_command_decision_def Let_def evaluate_preview_eq selected_policy_eval
        fst_verdict_of option_to_list_def)
  then show ?thesis unfolding winner_iff_decisive [OF assms] by auto
qed

theorem flow_blocked_iff_witness:
  "flow_command_decision (evaluate_preview ex_chrono ex_request [ex_entry] True True) =
     (Some VerdictBlock, [''p1''])"
proof -
  have "eligible ex_chrono ex_request ex_entry \<and> decides_verdict ex_entry" by code_simp
  then have "decisive ex_chrono ex_request [ex_entry] ex_entry" by (simp add: decisive_def)
  moreover have "act_kind (spec_action (entry_spec ex_entry)) = ActionBlock"
    "sel_clients (spec_selectors (entry_spec ex_entry)) \<noteq> []" "entry_id ex_entry = ''p1''"
    by (simp_all add: ex_entry_def ex_spec_def)
  ultimately show ?thesis
    using flow_blocked_iff [of "[ex_entry]" ex_chrono ex_request True True "[''p1'']"] by auto
qed

text \<open>C32. Evaluation fails open and commands are justified: a command verdict exists only for a
  request on the internet scope with a known application and a confidence in the unit interval,
  it then names at least one policy, and every named policy matches the request, has a client
  selector and the action of the verdict; without a verdict no policy is named.\<close>

theorem flow_command_justified:
  assumes "flow_command_decision (evaluate_preview chr request policies bs ls) = (v, ids)"
  shows "case v of
      None \<Rightarrow> ids = []
    | Some verdict \<Rightarrow> request_ok request \<and> ids \<noteq> [] \<and>
        (\<forall>i\<in>set ids. \<exists>p\<in>set policies. entry_id p = i \<and> eligible chr request p \<and>
           sel_clients (spec_selectors (entry_spec p)) \<noteq> [] \<and>
           act_kind (spec_action (entry_spec p)) =
             (case verdict of VerdictBlock \<Rightarrow> ActionBlock | VerdictAllow \<Rightarrow> ActionAllow
              | VerdictShape \<Rightarrow> ActionLimit))"
  using assms
proof (cases rule: flow_command_cases)
  case shape
  from shape(2) obtain i where "i \<in> set ids" using hd_in_set by blast
  with shape show ?thesis by (auto simp: supported_limits_eval ranked_set eligible_def)
next
  case (block p)
  with winner_in [OF block(3)] show ?thesis by (auto simp: eligible_def)
next
  case (allow p)
  with winner_in [OF allow(3)] show ?thesis by (auto simp: eligible_def)
qed simp

theorem flow_command_justified_witness: "request_ok ex_request"
proof -
  have "flow_command_decision (evaluate_preview ex_chrono ex_request [ex_entry] True True) =
      (Some VerdictBlock, [''p1''])" by code_simp
  from flow_command_justified [OF this] show ?thesis by simp
qed

text \<open>C33. A verdict lease is exact: it is granted exactly when the request is positive, the
  snapshot still valid and every named policy in force now; it ends after now, no later than the
  requested time to live and the snapshot's validity, and every named policy stays in force until
  it ends.\<close>

theorem flow_verdict_expiry_exact:
  assumes "is_i64 now"
  shows "(case flow_verdict_expiry (PolicySnapshot s) ids now ttl of
      None \<Rightarrow> ids = [] \<or> now < 0 \<or> snap_valid_until_ms s \<le> now \<or> ttl \<le> 0 \<or> now = i64_max \<or>
        (\<exists>i\<in>set ids. \<not> in_force s now i)
    | Some e \<Rightarrow> now < e \<and> e \<le> now + ttl \<and> e \<le> snap_valid_until_ms s \<and>
        (\<forall>t i. now \<le> t \<and> t < e \<and> i \<in> set ids \<longrightarrow> in_force s t i))"
proof (cases "ids = [] \<or> now < 0 \<or> snap_valid_until_ms s \<le> now \<or> ttl \<le> 0")
  case False
  let ?e0 = "min (saturating_add_i64 now ttl) (snap_valid_until_ms s)"
  have e0: "?e0 \<le> now + ttl" "?e0 \<le> snap_valid_until_ms s" "now \<noteq> i64_max \<Longrightarrow> now < ?e0"
    using False assms saturating_add_le [OF assms, of ttl]
    by (auto simp: saturating_add_i64_def sat_i64_def is_i64_def i64_min_def i64_max_def)
  show ?thesis
  proof (cases "expiry_of_policies (snap_policies s) (snap_schedule_intervals s) now ?e0 ids")
    case None
    then show ?thesis
      using False expiry_of_policies_Some_iff [of s now ?e0 ids]
      by (auto simp: flow_verdict_expiry_def)
  next
    case (Some e)
    then have "e \<le> ?e0" "now < ?e0 \<longrightarrow> now < e" by (auto dest: expiry_of_policies_bound)
    with e0 Some False show ?thesis
      using expiry_of_policies_bound [OF Some] by (auto simp: flow_verdict_expiry_def)
  qed
qed (auto simp: flow_verdict_expiry_def)

theorem flow_verdict_expiry_exact_witness: "in_force ex_snapshot 6000 ''p1''"
proof -
  have "flow_verdict_expiry (PolicySnapshot ex_snapshot) [''p1''] 5000 60000 = Some 65000" by code_simp
  then show ?thesis
    using flow_verdict_expiry_exact [where now = 5000 and s = ex_snapshot and ids = "[''p1'']" and ttl = 60000]
    by (simp add: is_i64_def i64_min_def i64_max_def)
qed

end
