(* ===== verification/Policy_Validation.thy ===== *)
theory Policy_Validation
  imports Policy_Time
begin

text \<open>
  Normalization and validation of a policy a user submits to the Collector
  (\<open>collector/src/policy/validation.rs\<close>). Every validator takes the specification, returns it
  normalized and lists the issues it found, in the order in which the code pushes them.
\<close>

section \<open>Issues\<close>

record validation_issue =
  vi_path :: string
  vi_code :: string
  vi_message :: string

record known_selectors =
  ks_gateway_exists :: bool
  ks_clients :: "string set"
  ks_applications :: "string set"
  ks_categories :: "string set"

definition issue :: "string \<Rightarrow> string \<Rightarrow> string \<Rightarrow> validation_issue" where
  "issue path code message = \<lparr>vi_path = path, vi_code = code, vi_message = message\<rparr>"

definition issue_if :: "bool \<Rightarrow> string \<Rightarrow> string \<Rightarrow> string \<Rightarrow> validation_issue list" where
  "issue_if bad path code message = (if bad then [issue path code message] else [])"

text \<open>The UTF-8 bytes of the en dash in some messages.\<close>

definition en_dash :: string where
  "en_dash = [CHR 0xE2, CHR 0x80, CHR 0x93]"

section \<open>Identity\<close>

definition validate_identity ::
  "known_selectors option \<Rightarrow> policy_spec_v1 \<Rightarrow> policy_spec_v1 \<times> validation_issue list" where
  "validate_identity known spec =
     (let i1 = issue_if (spec_schema_version spec \<noteq> 1) ''schema_version'' ''invalid_spec''
                 ''schema_version must be 1'';
          spec = spec\<lparr>spec_gateway_id := trim (spec_gateway_id spec)\<rparr>;
          i2 = issue_if (spec_gateway_id spec = [] \<or> chars_count (spec_gateway_id spec) > 128)
                 ''gateway_id'' ''invalid_spec''
                 (''gateway_id must contain 1'' @ en_dash @ ''128 characters'');
          i3 = issue_if (is_some_and known (\<lambda>selectors. \<not> ks_gateway_exists selectors))
                 ''gateway_id'' ''not_found'' ''gateway is not registered with this Collector'';
          spec = spec\<lparr>spec_name := trim (spec_name spec)\<rparr>;
          name_length = chars_count (spec_name spec);
          i4 = issue_if (\<not> (1 \<le> name_length \<and> name_length \<le> 100)) ''name'' ''invalid_spec''
                 (''name must contain 1'' @ en_dash @ ''100 Unicode characters after trimming'');
          spec = spec\<lparr>spec_description := trim (spec_description spec)\<rparr>;
          i5 = issue_if (chars_count (spec_description spec) > 500) ''description'' ''invalid_spec''
                 ''description must not exceed 500 Unicode characters'';
          i6 = issue_if (spec_priority spec > 1000) ''priority'' ''invalid_spec''
                 ''priority must be between 0 and 1000''
      in (spec, i1 @ i2 @ i3 @ i4 @ i5 @ i6))"

section \<open>Selectors\<close>

definition normalize_mac :: "string \<Rightarrow> string option" where
  "normalize_mac value =
     (let parts = split_on (CHR '':'') (trim value) in
      if length parts \<noteq> 6 \<or>
         (\<exists>part\<in>set parts. length part \<noteq> 2 \<or> \<not> list_all is_ascii_hexdigit part)
      then None else Some (to_ascii_uppercase (join '':'' parts)))"

definition indexed :: "string \<Rightarrow> nat \<Rightarrow> string" where
  "indexed path index = path @ ''['' @ format_dec index @ '']''"

fun canonical_clients ::
  "nat \<Rightarrow> string set \<Rightarrow> string list \<Rightarrow> string list \<times> validation_issue list" where
  "canonical_clients index unique [] = ([], [])"
| "canonical_clients index unique (client # rest) =
     (case normalize_mac client of
        Some mac \<Rightarrow>
          if mac \<notin> unique
          then (let (clients, issues) = canonical_clients (index + 1) (insert mac unique) rest
                in (mac # clients, issues))
          else canonical_clients (index + 1) unique rest
      | None \<Rightarrow>
          (let (clients, issues) = canonical_clients (index + 1) unique rest
           in (clients,
               issue (indexed ''selectors.clients'' index) ''unsupported_selector''
                 ''client selector must be a six-octet colon-separated MAC address'' # issues)))"

fun validate_ids_loop ::
  "string \<Rightarrow> string set option \<Rightarrow> nat \<Rightarrow> string set \<Rightarrow> string list \<Rightarrow>
   string list \<times> validation_issue list" where
  "validate_ids_loop path known_values index seen [] = ([], [])"
| "validate_ids_loop path known_values index seen (value # values) =
     (let value = trim value;
          bad = value = [] \<or> chars_count value > 128 \<or> has_control value;
          i1 = (if bad
                then [issue (indexed path index) ''unsupported_selector''
                        ''selector ID must be non-empty and at most 128 characters'']
                else issue_if (value \<in> seen) (indexed path index) ''invalid_spec''
                       ''duplicate selector IDs are not allowed'');
          i2 = issue_if (is_some_and known_values (\<lambda>known. value \<notin> known)) (indexed path index)
                 ''unsupported_selector''
                 (''selector ID '' @ value @ '' is not available in existing metadata'');
          (rest, issues) =
            validate_ids_loop path known_values (index + 1) (if bad then seen else insert value seen) values
      in (value # rest, i1 @ i2 @ issues))"

definition validate_ids ::
  "string list \<Rightarrow> nat \<Rightarrow> string \<Rightarrow> string set option \<Rightarrow> string list \<times> validation_issue list" where
  "validate_ids values max_count path known_values =
     (let i1 = issue_if (length values > max_count) path ''invalid_spec''
                 (''at most '' @ format_dec max_count @ '' selectors are allowed'');
          (values, i2) = validate_ids_loop path known_values 0 {} values
      in (sort values, i1 @ i2))"

definition validate_selectors ::
  "known_selectors option \<Rightarrow> policy_spec_v1 \<Rightarrow> policy_spec_v1 \<times> validation_issue list" where
  "validate_selectors known spec =
     (let sel = spec_selectors spec;
          (clients, i1) = canonical_clients 0 {} (sel_clients sel);
          clients = sort clients;
          i2 = issue_if (length clients > 32) ''selectors.clients'' ''invalid_spec''
                 ''at most 32 clients are allowed'';
          i3 = (case known of
                  None \<Rightarrow> []
                | Some known \<Rightarrow>
                    concat (map (\<lambda>client. issue_if (client \<notin> ks_clients known) ''selectors.clients''
                      ''unsupported_selector''
                      (''client '' @ client @ '' is not registered on gateway '' @ spec_gateway_id spec))
                      clients));
          (applications, i4) = validate_ids (sel_applications sel) 32 ''selectors.applications''
                                 (map_option ks_applications known);
          (categories, i5) = validate_ids (sel_categories sel) 16 ''selectors.categories''
                               (map_option ks_categories known);
          i6 = issue_if (\<not> is_finite (sel_min_application_confidence sel) \<or>
                         \<not> f64_in_range f64_0_80 (F64_Fin 1) (sel_min_application_confidence sel))
                 ''selectors.min_application_confidence'' ''invalid_spec''
                 ''min_application_confidence must be a finite number from 0.80 through 1.00'';
          i7 = issue_if (clients = [] \<and> applications = [] \<and> categories = []) ''selectors'' ''invalid_spec''
                 ''at least one client, application, or category selector is required''
      in (spec\<lparr>spec_selectors := sel\<lparr>sel_clients := clients, sel_applications := applications,
            sel_categories := categories\<rparr>\<rparr>,
          i1 @ i2 @ i3 @ i4 @ i5 @ i6 @ i7))"

section \<open>Network and action\<close>

definition validate_network :: "policy_spec_v1 \<Rightarrow> validation_issue list" where
  "validate_network spec =
     issue_if (net_scope (spec_network spec) \<noteq> ''internet'' \<and> \<not> is_client_total_spec spec)
       ''network.scope'' ''unsupported_scope''
       ''use internet scope, or agent scope for client-only aggregate limits in both directions'' @
     issue_if (net_direction (spec_network spec) \<noteq> ''both'') ''network.direction''
       ''unsupported_selector'' ''V1 supports only both directions''"

definition validate_rate :: "u64 option \<Rightarrow> string \<Rightarrow> validation_issue list" where
  "validate_rate value path =
     issue_if (is_some_and value (\<lambda>rate. \<not> rate_in_range rate)) path ''invalid_spec''
       ''rate must be null or an integer from 64000 through 1000000000 bps''"

definition validate_action :: "policy_spec_v1 \<Rightarrow> validation_issue list" where
  "validate_action spec =
     (let sel = spec_selectors spec; act = spec_action spec;
          application_policy = sel_applications sel \<noteq> [] \<or> sel_categories sel \<noteq> []
      in issue_if (application_policy \<and> sel_clients sel = []) ''selectors.clients''
           ''unsupported_selector''
           ''application block, allow, and limit policies require at least one client selector'' @
         (case act_kind act of
            ActionLimit \<Rightarrow>
              issue_if (sel_clients sel = [] \<and> \<not> application_policy) ''selectors.clients''
                ''unsupported_selector'' ''client limits require at least one client selector'' @
              validate_rate (act_download_bps act) ''action.download_bps'' @
              validate_rate (act_upload_bps act) ''action.upload_bps'' @
              issue_if (act_download_bps act = None \<and> act_upload_bps act = None) ''action''
                ''invalid_spec'' ''limit requires at least one download or upload rate''
          | _ \<Rightarrow>
              issue_if (act_download_bps act \<noteq> None \<or> act_upload_bps act \<noteq> None) ''action''
                ''invalid_spec'' ''block and allow actions cannot include rate limits''))"

section \<open>Schedule\<close>

definition parse_time :: "chrono \<Rightarrow> string \<Rightarrow> nat option" where
  "parse_time chr value =
     (if length value \<noteq> 5 \<or> \<not> is_ascii value \<or> value ! 2 \<noteq> CHR '':'' \<or>
         \<not> (\<forall>(index, byte)\<in>set (enumerate 0 value). index = 2 \<or> is_ascii_digit byte)
      then None
      else (case chr_parse_hm chr value of Inl _ \<Rightarrow> None | Inr minutes \<Rightarrow> Some minutes))"

fun duplicate_days :: "nat \<Rightarrow> policy_weekday set \<Rightarrow> policy_weekday list \<Rightarrow> validation_issue list" where
  "duplicate_days index days [] = []"
| "duplicate_days index days (day # rest) =
     issue_if (day \<in> days) (indexed ''schedule.windows'' index @ ''.days'') ''invalid_spec''
       ''duplicate weekdays are not allowed'' @
     duplicate_days index (insert day days) rest"

definition validate_window ::
  "chrono \<Rightarrow> nat \<Rightarrow> policy_schedule_window \<Rightarrow> policy_schedule_window \<times> validation_issue list" where
  "validate_window chr index window =
     (let i1 = issue_if (win_days window = [] \<or> length (win_days window) > 7)
                 (indexed ''schedule.windows'' index @ ''.days'') ''invalid_spec''
                 ''each window must include one or more days'';
          i2 = duplicate_days index {} (win_days window);
          window = window\<lparr>win_days := sort (win_days window)\<rparr>;
          i3 = (case (parse_time chr (win_start window), parse_time chr (win_end window)) of
                  (Some start, Some stop) \<Rightarrow>
                    issue_if (\<not> start < stop) (indexed ''schedule.windows'' index) ''invalid_spec''
                      ''start must be before end; split cross-midnight windows into two windows''
                | _ \<Rightarrow> [issue (indexed ''schedule.windows'' index) ''invalid_spec''
                          ''times must use 24-hour HH:mm format''])
      in (window, i1 @ i2 @ i3))"

definition window_key :: "policy_schedule_window \<Rightarrow> policy_weekday list \<times> string \<times> string" where
  "window_key window = (win_days window, win_start window, win_end window)"

definition validate_schedule ::
  "chrono \<Rightarrow> policy_schedule \<Rightarrow> policy_schedule \<times> validation_issue list" where
  "validate_schedule chr schedule =
     (let i1 = issue_if (\<not> chr_tz chr (sched_timezone schedule)) ''schedule.timezone'' ''invalid_spec''
                 ''timezone must be a valid IANA timezone'';
          i2 = issue_if (sched_windows schedule = [] \<or> length (sched_windows schedule) > 32)
                 ''schedule.windows'' ''invalid_spec''
                 (''schedule must contain 1'' @ en_dash @ ''32 windows'');
          checked = map (\<lambda>(index, window). validate_window chr index window)
                      (enumerate 0 (sched_windows schedule))
      in (schedule\<lparr>sched_windows := sort_key window_key (map fst checked)\<rparr>,
          i1 @ i2 @ concat (map snd checked)))"

definition normalize_and_validate ::
  "chrono \<Rightarrow> policy_spec_v1 \<Rightarrow> known_selectors option \<Rightarrow> policy_spec_v1 \<times> validation_issue list" where
  "normalize_and_validate chr spec known =
     (let (spec, i1) = validate_identity known spec;
          (spec, i2) = validate_selectors known spec;
          i3 = validate_network spec;
          i4 = validate_action spec
      in case spec_schedule spec of
           None \<Rightarrow> (spec, i1 @ i2 @ i3 @ i4)
         | Some schedule \<Rightarrow>
             (let (schedule, i5) = validate_schedule chr schedule
              in (spec\<lparr>spec_schedule := Some schedule\<rparr>, i1 @ i2 @ i3 @ i4 @ i5)))"

section \<open>Overlap and cost\<close>

definition application_limits_overlap :: "policy_spec_v1 \<Rightarrow> policy_spec_v1 \<Rightarrow> bool" where
  "application_limits_overlap left right =
     (let l = spec_selectors left; r = spec_selectors right in
      if spec_gateway_id left \<noteq> spec_gateway_id right \<or>
         act_kind (spec_action left) \<noteq> ActionLimit \<or> act_kind (spec_action right) \<noteq> ActionLimit \<or>
         (sel_applications l = [] \<and> sel_categories l = []) \<or>
         (sel_applications r = [] \<and> sel_categories r = [])
      then False
      else if \<not> (\<exists>client\<in>set (sel_clients l). client \<in> set (sel_clients r)) then False
      else (\<exists>application\<in>set (sel_applications l). application \<in> set (sel_applications r)) \<or>
           (\<exists>category\<in>set (sel_categories l). category \<in> set (sel_categories r)) \<or>
           (sel_applications l \<noteq> [] \<and> sel_categories r \<noteq> [] \<or>
            sel_categories l \<noteq> [] \<and> sel_applications r \<noteq> []))"

text \<open>The current instant is an argument; the sum over 30 days of at most \<open>usize\<close> windows is
  taken in \<open>u64\<close>.\<close>

definition schedule_projection_cost :: "chrono \<Rightarrow> int \<Rightarrow> policy_spec_v1 \<Rightarrow> u64" where
  "schedule_projection_cost chr now_ms spec =
     (case spec_schedule spec of
        None \<Rightarrow> 0
      | Some schedule \<Rightarrow>
          if \<not> chr_tz chr (sched_timezone schedule) then - 1
          else (let today = date_naive (chr_local chr (sched_timezone schedule) now_ms) in
            sum_list (map (\<lambda>offset.
              (let weekday = num_days_from_monday (today + int offset) in
               of_nat (length (filter (\<lambda>window. \<exists>day\<in>set (win_days window). monday_index day = weekday)
                 (sched_windows schedule))))) [0..<30])))"

section \<open>Specification\<close>

text \<open>A canonical MAC address from its twelve hexadecimal digits.\<close>

definition mac_text :: "char list \<Rightarrow> string" where
  "mac_text cs = (case cs of [a, b, c, d, e, f, g, h, i, j, k, l] \<Rightarrow>
     [a, b, CHR '':'', c, d, CHR '':'', e, f, CHR '':'', g, h, CHR '':'', i, j, CHR '':'', k, l] | _ \<Rightarrow> [])"

definition id_ok :: "string \<Rightarrow> bool" where
  "id_ok value \<longleftrightarrow> value \<noteq> [] \<and> chars_count value \<le> 128 \<and> \<not> has_control value"

definition ids_ok :: "nat \<Rightarrow> string set option \<Rightarrow> string list \<Rightarrow> bool" where
  "ids_ok max_count known values \<longleftrightarrow>
     length values \<le> max_count \<and> distinct values \<and> (\<forall>v\<in>set values. id_ok v) \<and>
     (case known of None \<Rightarrow> True | Some k \<Rightarrow> set values \<subseteq> k)"

definition window_ok :: "chrono \<Rightarrow> policy_schedule_window \<Rightarrow> bool" where
  "window_ok chr w \<longleftrightarrow>
     win_days w \<noteq> [] \<and> length (win_days w) \<le> 7 \<and> distinct (win_days w) \<and>
     (case (parse_time chr (win_start w), parse_time chr (win_end w)) of
        (Some a, Some b) \<Rightarrow> a < b | _ \<Rightarrow> False)"

definition schedule_ok :: "chrono \<Rightarrow> policy_schedule \<Rightarrow> bool" where
  "schedule_ok chr schedule \<longleftrightarrow>
     chr_tz chr (sched_timezone schedule) \<and> sched_windows schedule \<noteq> [] \<and>
     length (sched_windows schedule) \<le> 32 \<and> (\<forall>w\<in>set (sched_windows schedule). window_ok chr w)"

definition action_ok :: "policy_spec_v1 \<Rightarrow> bool" where
  "action_ok spec \<longleftrightarrow>
     (let sel = spec_selectors spec; act = spec_action spec in
      (sel_applications sel \<noteq> [] \<or> sel_categories sel \<noteq> [] \<longrightarrow> sel_clients sel \<noteq> []) \<and>
      (if act_kind act = ActionLimit
       then sel_clients sel \<noteq> [] \<and> (act_download_bps act \<noteq> None \<or> act_upload_bps act \<noteq> None) \<and>
         (\<forall>rate\<in>set (flatten_opt [act_download_bps act, act_upload_bps act]). rate_in_range rate)
       else act_download_bps act = None \<and> act_upload_bps act = None))"

text \<open>What the Collector accepts, on the normalized specification.\<close>

definition spec_ok :: "chrono \<Rightarrow> known_selectors option \<Rightarrow> policy_spec_v1 \<Rightarrow> bool" where
  "spec_ok chr known spec \<longleftrightarrow>
     (let sel = spec_selectors spec in
      spec_schema_version spec = 1 \<and>
      spec_gateway_id spec \<noteq> [] \<and> chars_count (spec_gateway_id spec) \<le> 128 \<and>
      1 \<le> chars_count (spec_name spec) \<and> chars_count (spec_name spec) \<le> 100 \<and>
      chars_count (spec_description spec) \<le> 500 \<and> spec_priority spec \<le> 1000 \<and>
      length (sel_clients sel) \<le> 32 \<and>
      (case known of None \<Rightarrow> True
       | Some k \<Rightarrow> ks_gateway_exists k \<and> set (sel_clients sel) \<subseteq> ks_clients k) \<and>
      ids_ok 32 (map_option ks_applications known) (sel_applications sel) \<and>
      ids_ok 16 (map_option ks_categories known) (sel_categories sel) \<and>
      is_finite (sel_min_application_confidence sel) \<and>
      f64_in_range f64_0_80 (F64_Fin 1) (sel_min_application_confidence sel) \<and>
      (sel_clients sel \<noteq> [] \<or> sel_applications sel \<noteq> [] \<or> sel_categories sel \<noteq> []) \<and>
      (net_scope (spec_network spec) = ''internet'' \<or> is_client_total_spec spec) \<and>
      net_direction (spec_network spec) = ''both'' \<and>
      action_ok spec \<and>
      (case spec_schedule spec of None \<Rightarrow> True | Some schedule \<Rightarrow> schedule_ok chr schedule))"

lemma window_ok_iff:
  "window_ok chr w \<longleftrightarrow>
     win_days w \<noteq> [] \<and> length (win_days w) \<le> 7 \<and> distinct (win_days w) \<and>
     (\<exists>a b. parse_time chr (win_start w) = Some a \<and> parse_time chr (win_end w) = Some b \<and> a < b)"
  by (auto simp: window_ok_def split: option.splits)

section \<open>Canonical MAC addresses\<close>

lemma length_2_conv: "length xs = 2 \<longleftrightarrow> (\<exists>a b. xs = [a, b])"
  by (auto simp: numeral_2_eq_2 length_Suc_conv)

lemma hexdigit_upper:
  assumes "is_ascii_hexdigit c"
  shows "is_ascii_digit (ascii_upper_char c) \<or>
         CHR ''A'' \<le> ascii_upper_char c \<and> ascii_upper_char c \<le> CHR ''F''"
    and "is_ascii_hexdigit (ascii_upper_char c)" "c \<noteq> CHR '':''"
  using assms
  by (auto simp: is_ascii_hexdigit_def ascii_upper_char_def is_ascii_lower_def is_ascii_digit_def
      byte_val_def less_eq_char_def)

lemma normalize_mac_cases:
  assumes "normalize_mac v = Some m"
  obtains cs where "length cs = 12" "list_all is_ascii_hexdigit cs" "trim v = mac_text cs"
    "m = mac_text (map ascii_upper_char cs)"
proof -
  let ?p = "split_on (CHR '':'') (trim v)"
  have six: "length ?p = 6" and two: "\<And>q. q \<in> set ?p \<Longrightarrow> length q = 2 \<and> list_all is_ascii_hexdigit q"
    and m: "m = to_ascii_uppercase (join '':'' ?p)"
    using assms by (auto simp: normalize_mac_def Let_def split: if_splits)
  from six obtain a b c d e f where p: "?p = [a, b, c, d, e, f]"
    by (auto simp: eval_nat_numeral length_Suc_conv)
  have j: "trim v = join '':'' [a, b, c, d, e, f]"
    using join_split_on [of "CHR '':''" "trim v"] unfolding p by (rule sym)
  obtain a1 a2 b1 b2 c1 c2 d1 d2 e1 e2 f1 f2 where
    q: "a = [a1, a2]" "b = [b1, b2]" "c = [c1, c2]" "d = [d1, d2]" "e = [e1, e2]" "f = [f1, f2]"
    using two [of a] two [of b] two [of c] two [of d] two [of e] two [of f]
    by (auto simp: p length_2_conv)
  let ?cs = "[a1, a2, b1, b2, c1, c2, d1, d2, e1, e2, f1, f2]"
  have upper_colon: "ascii_upper_char (CHR '':'') = CHR '':''" by code_simp
  show thesis
  proof (rule that [of ?cs])
    show "list_all is_ascii_hexdigit ?cs"
      using two [of a] two [of b] two [of c] two [of d] two [of e] two [of f] by (simp add: p q)
    show "trim v = mac_text ?cs" unfolding j q by (simp add: mac_text_def)
    show "m = mac_text (map ascii_upper_char ?cs)"
      unfolding m p q by (simp add: mac_text_def to_ascii_uppercase_def upper_colon)
  qed simp
qed

lemma list_12_conv:
  assumes "length cs = 12"
  obtains a b c d e f g h i j k l where "cs = [a, b, c, d, e, f, g, h, i, j, k, l]"
  using assms by (auto simp: eval_nat_numeral length_Suc_conv)

lemma normalize_mac_text:
  assumes "length cs = 12" "list_all is_ascii_hexdigit cs" "trim v = mac_text cs"
  shows "normalize_mac v = Some (mac_text (map ascii_upper_char cs))"
  using assms(1)
proof (rule list_12_conv)
  fix a b c d e f g h i j k l
  assume cs: "cs = [a, b, c, d, e, f, g, h, i, j, k, l]"
  show ?thesis
    using assms(2,3) unfolding cs
    by (simp add: normalize_mac_def Let_def mac_text_def hexdigit_upper(3) to_ascii_uppercase_def)
      (simp add: ascii_upper_char_def is_ascii_lower_def)
qed

lemma trim_mac_text:
  assumes "length cs = 12" "list_all is_ascii_hexdigit cs"
  shows "trim (mac_text cs) = mac_text cs"
  using assms(1)
proof (rule list_12_conv)
  fix a b c d e f g h i j k l
  assume cs: "cs = [a, b, c, d, e, f, g, h, i, j, k, l]"
  have ok: "\<not> is_ws1 (byte_val x) \<and> byte_val x < 128" if "is_ascii_hexdigit x" for x
    using that
    by (auto simp: is_ws1_def is_ascii_hexdigit_def is_ascii_digit_def byte_val_def less_eq_char_def)
  show ?thesis
    using assms(2) ok unfolding cs
    by (intro trim_nonspace [of _ a "[b, CHR '':'', c, d, CHR '':'', e, f, CHR '':'', g, h,
          CHR '':'', i, j, CHR '':'', k]" l]) (auto simp: mac_text_def)
qed

lemma normalize_mac_valid:
  assumes "normalize_mac v = Some m"
  shows "valid_mac m" "normalize_mac m = Some m"
proof -
  obtain cs where cs: "length cs = 12" "list_all is_ascii_hexdigit cs"
    "m = mac_text (map ascii_upper_char cs)"
    by (rule normalize_mac_cases [OF assms]) auto
  let ?us = "map ascii_upper_char cs"
  have us: "length ?us = 12" "list_all is_ascii_hexdigit ?us" "map ascii_upper_char ?us = ?us"
    using cs by (auto simp: list_all_iff hexdigit_upper(2))
  then show "normalize_mac m = Some m"
    using normalize_mac_text [OF us(1,2), unfolded us(3)] trim_mac_text [OF us(1,2)] cs(3) by simp
  show "valid_mac m"
    using cs(1)
  proof (rule list_12_conv)
    fix a b c d e f g h i j k l
    assume "cs = [a, b, c, d, e, f, g, h, i, j, k, l]"
    with cs hexdigit_upper(1) show ?thesis by (simp add: valid_mac_def mac_text_def)
  qed
qed

section \<open>Selectors\<close>

lemma issue_if_Nil [simp]: "issue_if b p c m = [] \<longleftrightarrow> \<not> b"
  by (simp add: issue_if_def)

lemma is_some_and_not: "is_some_and x P \<longleftrightarrow> (\<exists>v. x = Some v \<and> P v)"
  by (simp add: is_some_and_def split: option.splits)

lemma canonical_clients_fst:
  "distinct (fst (canonical_clients i u xs)) \<and> set (fst (canonical_clients i u xs)) \<inter> u = {} \<and>
   set (fst (canonical_clients i u xs)) \<subseteq> {m. \<exists>x\<in>set xs. normalize_mac x = Some m}"
proof (induction i u xs rule: canonical_clients.induct)
  case (2 index unique client rest)
  then show ?case
    by (cases "normalize_mac client"; cases "the (normalize_mac client) \<in> unique")
      (auto simp: split_def Let_def)
qed simp

lemma canonical_clients_snd:
  "snd (canonical_clients i u xs) = [] \<longleftrightarrow> (\<forall>x\<in>set xs. normalize_mac x \<noteq> None)"
  by (induction i u xs rule: canonical_clients.induct) (auto simp: split_def Let_def split: option.splits)

lemma canonical_clients_valid:
  assumes "c \<in> set (fst (canonical_clients i u xs))"
  shows "valid_mac c" "normalize_mac c = Some c"
  using canonical_clients_fst [of i u xs] assms by (blast intro: normalize_mac_valid)+

lemma canonical_clients_id:
  "distinct xs \<Longrightarrow> set xs \<inter> u = {} \<Longrightarrow> (\<And>x. x \<in> set xs \<Longrightarrow> normalize_mac x = Some x) \<Longrightarrow>
     canonical_clients i u xs = (xs, [])"
  by (induction xs arbitrary: i u) auto

lemma validate_ids_loop_fst [simp]: "fst (validate_ids_loop path known i seen vs) = map trim vs"
  by (induction vs arbitrary: i seen) (simp_all add: Let_def split_def)

lemma validate_ids_loop_Nil:
  "snd (validate_ids_loop path known i seen vs) = [] \<longleftrightarrow>
     (\<forall>v\<in>set vs. id_ok (trim v)) \<and> distinct (map trim vs) \<and> set (map trim vs) \<inter> seen = {} \<and>
     (case known of None \<Rightarrow> True | Some k \<Rightarrow> set (map trim vs) \<subseteq> k)"
proof (induction vs arbitrary: i seen)
  case (Cons v vs)
  have "snd (validate_ids_loop path known i seen (v # vs)) = [] \<longleftrightarrow>
     id_ok (trim v) \<and> trim v \<notin> seen \<and> (case known of None \<Rightarrow> True | Some k \<Rightarrow> trim v \<in> k) \<and>
     snd (validate_ids_loop path known (i + 1) (insert (trim v) seen) vs) = []"
    by (auto simp: Let_def split_def id_ok_def is_some_and_not split: option.splits)
  then show ?case unfolding Cons.IH by (cases known) auto
qed (simp split: option.splits)

lemma validate_ids_fst [simp]: "fst (validate_ids vs n path known) = sort (map trim vs)"
  by (simp add: validate_ids_def Let_def split_def)

lemma validate_ids_Nil:
  "snd (validate_ids vs n path known) = [] \<longleftrightarrow> ids_ok n known (sort (map trim vs))"
  by (auto simp: validate_ids_def ids_ok_def Let_def split_def validate_ids_loop_Nil
      split: option.splits)

lemma sort_map_trim_idem [simp]: "sort (map trim (sort (map trim vs))) = sort (map trim vs)"
proof -
  have "map trim (sort (map trim vs)) = sort (map trim vs)" by (intro map_idI) auto
  then show ?thesis by (simp add: sort_key_id_if_sorted)
qed

section \<open>Schedules\<close>

definition sort_days :: "policy_schedule_window \<Rightarrow> policy_schedule_window" where
  "sort_days w = w\<lparr>win_days := sort (win_days w)\<rparr>"

lemma sort_key_eq_Nil: "sort_key k xs = [] \<longleftrightarrow> xs = []"
  by (metis length_0_conv length_sort)

lemma duplicate_days_Nil:
  "duplicate_days i ds xs = [] \<longleftrightarrow> distinct xs \<and> set xs \<inter> ds = {}"
  by (induction xs arbitrary: ds) auto

lemma fst_validate_window [simp]: "fst (validate_window chr i w) = sort_days w"
  by (simp add: validate_window_def Let_def sort_days_def)

lemma validate_window_Nil: "snd (validate_window chr i w) = [] \<longleftrightarrow> window_ok chr (sort_days w)"
  by (auto simp: validate_window_def Let_def window_ok_iff sort_days_def duplicate_days_Nil
      sort_key_eq_Nil not_less split: option.splits)

lemma sort_days_idem [simp]: "sort_days (sort_days w) = sort_days w"
  by (simp add: sort_days_def sort_key_id_if_sorted)

lemma map_snd_enumerate_comp: "map (\<lambda>x. f (snd x)) (enumerate n xs) = map f xs"
  by (induction xs arbitrary: n) auto

lemma validate_schedule_fst:
  "fst (validate_schedule chr s) =
     s\<lparr>sched_windows := sort_key window_key (map sort_days (sched_windows s))\<rparr>"
  by (simp add: validate_schedule_def Let_def comp_def split_def map_snd_enumerate_comp)

lemma validate_schedule_Nil:
  "snd (validate_schedule chr s) = [] \<longleftrightarrow> schedule_ok chr (fst (validate_schedule chr s))"
proof -
  have "(\<forall>x\<in>set (enumerate 0 (sched_windows s)). snd (validate_window chr (fst x) (snd x)) = []) \<longleftrightarrow>
    (\<forall>w\<in>snd ` set (enumerate 0 (sched_windows s)). window_ok chr (sort_days w))"
    by (simp add: validate_window_Nil)
  also have "snd ` set (enumerate 0 (sched_windows s)) = set (sched_windows s)"
    by (metis map_snd_enumerate set_map)
  finally show ?thesis
    by (auto simp: validate_schedule_def Let_def split_def schedule_ok_def sort_key_eq_Nil
        map_snd_enumerate_comp comp_def)
qed

lemma validate_schedule_idem:
  "fst (validate_schedule chr (fst (validate_schedule chr s))) = fst (validate_schedule chr s)"
proof -
  have "map sort_days (sort_key window_key (map sort_days ws)) = sort_key window_key (map sort_days ws)" for ws
    by (intro map_idI) auto
  then show ?thesis by (simp add: validate_schedule_fst sort_key_id_if_sorted)
qed

section \<open>The whole specification\<close>

definition normalize_selectors :: "policy_selectors \<Rightarrow> policy_selectors" where
  "normalize_selectors sel =
     sel\<lparr>sel_clients := sort (fst (canonical_clients 0 {} (sel_clients sel))),
       sel_applications := sort (map trim (sel_applications sel)),
       sel_categories := sort (map trim (sel_categories sel))\<rparr>"

text \<open>The normalized specification, without the checks.\<close>

definition normalize_spec :: "chrono \<Rightarrow> policy_spec_v1 \<Rightarrow> policy_spec_v1" where
  "normalize_spec chr spec =
     spec\<lparr>spec_gateway_id := trim (spec_gateway_id spec), spec_name := trim (spec_name spec),
       spec_description := trim (spec_description spec),
       spec_selectors := normalize_selectors (spec_selectors spec),
       spec_schedule := map_option (\<lambda>s. fst (validate_schedule chr s)) (spec_schedule spec)\<rparr>"

lemma normalize_selectors_idem: "normalize_selectors (normalize_selectors sel) = normalize_selectors sel"
proof -
  let ?cs = "sort (fst (canonical_clients 0 {} (sel_clients sel)))"
  have "canonical_clients 0 {} ?cs = (?cs, [])"
    using canonical_clients_fst [of 0 "{}" "sel_clients sel"]
      canonical_clients_valid(2) [of _ 0 "{}" "sel_clients sel"]
    by (intro canonical_clients_id) auto
  then show ?thesis by (simp add: normalize_selectors_def sort_key_id_if_sorted)
qed

lemma normalize_spec_idem: "normalize_spec chr (normalize_spec chr spec) = normalize_spec chr spec"
  by (cases "spec_schedule spec")
    (simp_all add: normalize_spec_def normalize_selectors_idem validate_schedule_idem)

lemma validate_selectors_eq:
  "fst (validate_selectors known spec) = spec\<lparr>spec_selectors := normalize_selectors (spec_selectors spec)\<rparr>"
  by (simp add: validate_selectors_def normalize_selectors_def Let_def split_def)

lemma normalize_and_validate_fst: "fst (normalize_and_validate chr spec known) = normalize_spec chr spec"
  by (cases "spec_schedule spec")
    (simp_all add: normalize_and_validate_def Let_def split_def validate_selectors_eq
      validate_identity_def normalize_spec_def)

lemma validate_action_Nil: "validate_action spec = [] \<longleftrightarrow> action_ok spec"
  by (cases "act_kind (spec_action spec)")
    (auto simp: validate_action_def action_ok_def Let_def validate_rate_def is_some_and_not flatten_opt_def
      split: option.splits)

lemma validate_identity_Nil:
  "snd (validate_identity known spec) = [] \<longleftrightarrow>
     (let n = fst (validate_identity known spec) in
      spec_schema_version n = 1 \<and> spec_gateway_id n \<noteq> [] \<and> chars_count (spec_gateway_id n) \<le> 128 \<and>
      (case known of None \<Rightarrow> True | Some k \<Rightarrow> ks_gateway_exists k) \<and>
      1 \<le> chars_count (spec_name n) \<and> chars_count (spec_name n) \<le> 100 \<and>
      chars_count (spec_description n) \<le> 500 \<and> spec_priority n \<le> 1000)"
  by (cases known) (auto simp: validate_identity_def Let_def is_some_and_not not_less)

lemma validate_selectors_Nil:
  "snd (validate_selectors known spec) = [] \<longleftrightarrow>
     (let n = normalize_selectors (spec_selectors spec) in
      (\<forall>c\<in>set (sel_clients (spec_selectors spec)). normalize_mac c \<noteq> None) \<and>
      length (sel_clients n) \<le> 32 \<and>
      (case known of None \<Rightarrow> True | Some k \<Rightarrow> set (sel_clients n) \<subseteq> ks_clients k) \<and>
      ids_ok 32 (map_option ks_applications known) (sel_applications n) \<and>
      ids_ok 16 (map_option ks_categories known) (sel_categories n) \<and>
      is_finite (sel_min_application_confidence n) \<and>
      f64_in_range f64_0_80 (F64_Fin 1) (sel_min_application_confidence n) \<and>
      (sel_clients n \<noteq> [] \<or> sel_applications n \<noteq> [] \<or> sel_categories n \<noteq> []))"
  by (cases known)
    (auto simp: validate_selectors_def normalize_selectors_def Let_def split_def canonical_clients_snd
      validate_ids_Nil not_less)

lemma validate_network_Nil:
  "validate_network spec = [] \<longleftrightarrow>
     (net_scope (spec_network spec) = ''internet'' \<or> is_client_total_spec spec) \<and>
     net_direction (spec_network spec) = ''both''"
  by (auto simp: validate_network_def)

lemma normalize_and_validate_Nil:
  "snd (normalize_and_validate chr spec known) = [] \<longleftrightarrow>
     (\<forall>c\<in>set (sel_clients (spec_selectors spec)). normalize_mac c \<noteq> None) \<and>
     spec_ok chr known (normalize_spec chr spec)"
proof -
  let ?a = "fst (validate_identity known spec)"
  let ?b = "fst (validate_selectors known ?a)"
  have ab: "?a = spec\<lparr>spec_gateway_id := trim (spec_gateway_id spec), spec_name := trim (spec_name spec),
       spec_description := trim (spec_description spec)\<rparr>"
    by (simp add: validate_identity_def Let_def)
  have same: "is_client_total_spec (normalize_spec chr spec) = is_client_total_spec ?b"
    "action_ok (normalize_spec chr spec) = action_ok ?b"
    by (simp_all add: ab validate_selectors_eq normalize_spec_def is_client_total_spec_def
        action_ok_def)
  have "snd (normalize_and_validate chr spec known) = [] \<longleftrightarrow>
    snd (validate_identity known spec) = [] \<and> snd (validate_selectors known ?a) = [] \<and>
    validate_network ?b = [] \<and> validate_action ?b = [] \<and>
    (case spec_schedule spec of None \<Rightarrow> True | Some s \<Rightarrow> snd (validate_schedule chr s) = [])"
    by (cases "spec_schedule spec")
      (auto simp: normalize_and_validate_def Let_def split_def ab validate_selectors_eq)
  then show ?thesis
    unfolding validate_identity_Nil validate_selectors_Nil validate_network_Nil validate_action_Nil
      validate_schedule_Nil spec_ok_def same ab validate_selectors_eq
    by (cases "spec_schedule spec"; cases known; simp add: normalize_spec_def Let_def; argo)
qed

lemma normalize_selectors_clients:
  "c \<in> set (sel_clients (normalize_selectors sel)) \<Longrightarrow> valid_mac c \<and> normalize_mac c = Some c"
  using canonical_clients_valid [of c 0 "{}" "sel_clients sel"] by (simp add: normalize_selectors_def)

lemma distinct_normalize_selectors_clients: "distinct (sel_clients (normalize_selectors sel))"
  using canonical_clients_fst [of 0 "{}" "sel_clients sel"] by (simp add: normalize_selectors_def)

lemma action_ok_cases:
  assumes "action_ok spec"
  shows "act_kind (spec_action spec) = ActionLimit \<Longrightarrow> sel_clients (spec_selectors spec) \<noteq> []"
    and "act_kind (spec_action spec) = ActionLimit \<Longrightarrow>
      act_download_bps (spec_action spec) \<noteq> None \<or> act_upload_bps (spec_action spec) \<noteq> None"
    and "act_kind (spec_action spec) = ActionLimit \<Longrightarrow>
      \<forall>r\<in>set (flatten_opt [act_download_bps (spec_action spec), act_upload_bps (spec_action spec)]).
        rate_in_range r"
    and "act_kind (spec_action spec) \<noteq> ActionLimit \<Longrightarrow>
      act_download_bps (spec_action spec) = None \<and> act_upload_bps (spec_action spec) = None"
  using assms by (auto simp: action_ok_def Let_def flatten_opt_def split: if_splits)

lemma spec_ok_wire_valid:
  assumes ok: "spec_ok chr known spec" and "trim (spec_name spec) = spec_name spec"
    and mac: "\<And>c. c \<in> set (sel_clients (spec_selectors spec)) \<Longrightarrow> valid_mac c"
    and len: "\<And>v. v \<in> set (sel_applications (spec_selectors spec)) \<union>
           set (sel_categories (spec_selectors spec)) \<Longrightarrow> length v \<le> 128"
  shows "validate_policy_spec (spec_gateway_id spec) spec = Ok ()"
proof -
  note o = ok [unfolded spec_ok_def Let_def]
  have name: "trim (spec_name spec) \<noteq> []" using o assms(2) by (auto simp: chars_count_def)
  have ids: "\<not> bad_text 128 v"
    if "v \<in> set (sel_applications (spec_selectors spec)) \<union> set (sel_categories (spec_selectors spec))" for v
    using o len [OF that] that by (auto simp: ids_ok_def id_ok_def bad_text_def)
  have 1: "try_each (\<lambda>client. if \<not> valid_mac client
      then Err ''policy contains a non-canonical client MAC'' else Ok ())
      (sel_clients (spec_selectors spec)) = Ok ()"
    using mac by (simp add: try_each_eq_Inr)
  have 2: "\<not> (\<exists>v\<in>set (sel_applications (spec_selectors spec)). bad_text 128 v)"
    "\<not> (\<exists>v\<in>set (sel_categories (spec_selectors spec)). bad_text 128 v)"
    using ids by auto
  have "action_ok spec" using o by simp
  note act = action_ok_cases [OF this]
  show ?thesis
    using o name 1 2 act
    by (cases "act_kind (spec_action spec)")
      (simp_all add: validate_policy_spec_def Let_def ids_ok_def not_less)
qed

section \<open>Properties\<close>

text \<open>C34. Validation is exact: the Collector reports no issue for a submitted policy exactly when
  every client selector is a MAC address and the normalized policy meets the declarative
  contract.\<close>

theorem normalize_and_validate_exact:
  "snd (normalize_and_validate chr spec known) = [] \<longleftrightarrow>
     list_all (\<lambda>c. normalize_mac c \<noteq> None) (sel_clients (spec_selectors spec)) \<and>
     spec_ok chr known (fst (normalize_and_validate chr spec known))"
  by (simp add: normalize_and_validate_Nil normalize_and_validate_fst list_all_iff)

text \<open>Normalization is idempotent, and validating an accepted policy again neither changes it nor
  finds an issue.\<close>

theorem normalize_and_validate_idempotent:
  "(let (spec', issues) = normalize_and_validate chr spec known in
    fst (normalize_and_validate chr spec' known) = spec' \<and>
    (issues = [] \<longrightarrow> normalize_and_validate chr spec' known = (spec', [])))"
proof -
  have "normalize_mac c \<noteq> None" if "c \<in> set (sel_clients (spec_selectors (normalize_spec chr spec)))" for c
    using that normalize_selectors_clients [of c "spec_selectors spec"] by (simp add: normalize_spec_def)
  then show ?thesis
    by (auto simp: split_def prod_eq_iff normalize_and_validate_fst normalize_and_validate_Nil
        normalize_spec_idem)
qed

theorem normalize_and_validate_idempotent_witness:
  "normalize_and_validate ex_chrono (fst (normalize_and_validate ex_chrono ex_spec None)) None =
     (fst (normalize_and_validate ex_chrono ex_spec None), [])"
proof -
  have "snd (normalize_and_validate ex_chrono ex_spec None) = []" by code_simp
  then show ?thesis using normalize_and_validate_idempotent [of ex_chrono ex_spec None]
    by (simp add: split_def Let_def)
qed

text \<open>C35. A policy the Collector accepts is one the snapshot validation accepts, provided its
  application and category identifiers are at most 128 bytes long.\<close>

theorem accepted_policy_wire_valid:
  assumes "normalize_and_validate chr spec known = (spec', [])"
    and "\<forall>v\<in>set (sel_applications (spec_selectors spec')) \<union> set (sel_categories (spec_selectors spec')).
           length v \<le> 128"
  shows "validate_policy_spec (spec_gateway_id spec') spec' = Ok ()"
proof -
  have n: "spec' = normalize_spec chr spec"
    using assms(1) normalize_and_validate_fst by (metis fst_conv)
  moreover have "spec_ok chr known spec'"
    using assms(1) normalize_and_validate_Nil [of chr spec known] n by simp
  ultimately show ?thesis
    using assms(2) normalize_selectors_clients
    by (intro spec_ok_wire_valid) (auto simp: normalize_spec_def)
qed

theorem accepted_policy_wire_valid_witness:
  "validate_policy_spec (spec_gateway_id ex_spec) ex_spec = Ok ()"
  by (rule accepted_policy_wire_valid [where chr = ex_chrono and known = None and spec = ex_spec];
      code_simp)

text \<open>The provision is needed: the Collector counts characters where the snapshot validation
  counts bytes, so an application identifier of 65 two-byte characters is accepted by the
  Collector and then rejected when a snapshot is built.\<close>

theorem accepted_policy_wire_rejected:
  "\<exists>spec. snd (normalize_and_validate ex_chrono spec None) = [] \<and>
     validate_policy_spec (spec_gateway_id spec) (fst (normalize_and_validate ex_chrono spec None)) =
       Err ''policy contains an invalid application selector''"
proof
  let ?s = "ex_spec\<lparr>spec_selectors := (spec_selectors ex_spec)\<lparr>sel_applications :=
     [concat (replicate 65 [CHR 0xC3, CHR 0xA9])]\<rparr>\<rparr>"
  show "snd (normalize_and_validate ex_chrono ?s None) = [] \<and>
     validate_policy_spec (spec_gateway_id ?s) (fst (normalize_and_validate ex_chrono ?s None)) =
       Err ''policy contains an invalid application selector''"
    by code_simp
qed

end
