(* ===== verification/Policy_Compiler.thy ===== *)
theory Policy_Compiler
  imports Policy_Evaluator Policy_Validation
begin

text \<open>
  The snapshot compiler (\<open>collector/src/policy/compiler.rs\<close>): the weekly windows of a scheduled
  policy are expanded, in the policy's time zone, to UTC intervals over the next 30 days, sorted
  and merged; the policies and their intervals form the snapshot.
\<close>

section \<open>Expanding a schedule\<close>

definition schedule_horizon_ms :: int where
  "schedule_horizon_ms = 30 * 24 * 60 * 60 * 1000"

definition weekday_matches :: "policy_weekday \<Rightarrow> int \<Rightarrow> bool" where
  "weekday_matches day date \<longleftrightarrow> day = weekday_of (num_days_from_monday date)"

fun resolve_local_from ::
  "chrono \<Rightarrow> string \<Rightarrow> bool \<Rightarrow> nat \<Rightarrow> int \<Rightarrow> int res" where
  "resolve_local_from chr timezone is_start 0 candidate =
     Err ''schedule local time is not valid within three hours''"
| "resolve_local_from chr timezone is_start (Suc n) candidate =
     (case chr_from_local chr timezone candidate of
        LocalSingle value \<Rightarrow> Ok value
      | LocalAmbiguous first second \<Rightarrow> Ok (if is_start then min first second else max first second)
      | LocalNone \<Rightarrow>
          (case checked_add_minute chr candidate of
             None \<Rightarrow> Err ''schedule local time overflow''
           | Some candidate \<Rightarrow> resolve_local_from chr timezone is_start n candidate))"

definition resolve_local :: "chrono \<Rightarrow> string \<Rightarrow> int \<Rightarrow> bool \<Rightarrow> int res" where
  "resolve_local chr timezone local is_start = resolve_local_from chr timezone is_start 181 local"

definition expand_window ::
  "chrono \<Rightarrow> string \<Rightarrow> int \<Rightarrow> int \<Rightarrow> int \<Rightarrow> policy_schedule_interval list \<Rightarrow>
   policy_schedule_window \<Rightarrow> policy_schedule_interval list res" where
  "expand_window chr timezone from_ms until_ms date intervals window =
     (if \<not> (\<exists>day\<in>set (win_days window). weekday_matches day date) then Ok intervals
      else and_then (map_err (\<lambda>error. ''invalid schedule start: '' @ error)
                       (chr_parse_hm chr (win_start window))) (\<lambda>start.
      and_then (map_err (\<lambda>error. ''invalid schedule end: '' @ error)
                  (chr_parse_hm chr (win_end window))) (\<lambda>stop.
      if stop \<le> start then Err ''schedule windows must end after they start''
      else and_then (resolve_local chr timezone (and_time date start) True) (\<lambda>start.
      and_then (resolve_local chr timezone (and_time date stop) False) (\<lambda>stop.
      if stop \<le> start then Ok intervals
      else (let start_ms = max start from_ms; end_ms = min stop until_ms in
        if start_ms < end_ms
        then Ok (intervals @ [\<lparr>iv_start_ms = start_ms, iv_end_ms = end_ms\<rparr>])
        else Ok intervals))))))"

function expand_dates ::
  "chrono \<Rightarrow> policy_schedule \<Rightarrow> int \<Rightarrow> int \<Rightarrow> int \<Rightarrow> int \<Rightarrow> policy_schedule_interval list \<Rightarrow>
   policy_schedule_interval list res" where
  "expand_dates chr schedule from_ms until_ms local_end date intervals =
     (if date \<le> local_end
      then (case try_fold (expand_window chr (sched_timezone schedule) from_ms until_ms date)
                   intervals (sched_windows schedule) of
              Inl e \<Rightarrow> Inl e
            | Inr intervals \<Rightarrow>
                (case succ_opt chr date of
                   None \<Rightarrow> Err ''schedule date overflow''
                 | Some date \<Rightarrow> expand_dates chr schedule from_ms until_ms local_end date intervals))
      else Ok intervals)"
  by pat_completeness auto
termination
  by (relation "measure (\<lambda>(_, _, _, _, local_end, date, _). nat (local_end + 1 - date))")
    (auto simp: succ_opt_def split: if_splits)

declare expand_dates.simps [simp del]

definition merge_interval ::
  "policy_schedule_interval list \<Rightarrow> policy_schedule_interval \<Rightarrow> policy_schedule_interval list" where
  "merge_interval merged interval =
     (case rev merged of
        [] \<Rightarrow> [interval]
      | previous # before \<Rightarrow>
          if iv_start_ms interval \<le> iv_end_ms previous
          then rev (previous\<lparr>iv_end_ms := max (iv_end_ms previous) (iv_end_ms interval)\<rparr> # before)
          else merged @ [interval])"

definition expand_schedule ::
  "chrono \<Rightarrow> policy_spec_v1 \<Rightarrow> int \<Rightarrow> int \<Rightarrow> policy_schedule_interval list res" where
  "expand_schedule chr spec from_ms until_ms =
     and_then (ok_or ''scheduled policy is missing its schedule'' (spec_schedule spec)) (\<lambda>schedule.
     if \<not> chr_tz chr (sched_timezone schedule)
     then Err (''unknown IANA timezone '' @ sched_timezone schedule)
     else if \<not> chr_timestamp chr from_ms then Err ''invalid schedule start timestamp''
     else if \<not> chr_timestamp chr until_ms then Err ''invalid schedule end timestamp''
     else (let local_start = date_naive (chr_local chr (sched_timezone schedule) from_ms);
               local_end = date_naive (chr_local chr (sched_timezone schedule) until_ms)
           in and_then (expand_dates chr schedule from_ms until_ms local_end local_start []) (\<lambda>intervals.
              Ok (foldl merge_interval [] (sort_key interval_key intervals)))))"

section \<open>Compiling a snapshot\<close>

definition expand_policy ::
  "chrono \<Rightarrow> int \<Rightarrow> int \<Rightarrow> policy_schedule_intervals list \<Rightarrow> policy_snapshot_entry \<Rightarrow>
   policy_schedule_intervals list res" where
  "expand_policy chr generated_at_ms valid_until_ms schedule_intervals policy =
     (if spec_schedule (entry_spec policy) \<noteq> None
      then and_then (expand_schedule chr (entry_spec policy) generated_at_ms valid_until_ms) (\<lambda>intervals.
        Ok (schedule_intervals @ [\<lparr>ivs_policy_id = entry_id policy, ivs_intervals = intervals\<rparr>]))
      else Ok schedule_intervals)"

definition compile_snapshot ::
  "wire_env \<Rightarrow> chrono \<Rightarrow> string \<Rightarrow> string \<Rightarrow> u64 \<Rightarrow> int \<Rightarrow> u64 \<Rightarrow> policy_snapshot_entry list \<Rightarrow>
   policy_wire_frame res" where
  "compile_snapshot env chr gateway_id controller_epoch bundle_generation generated_at_ms
     config_revision policies =
     and_then (ok_or ''schedule horizon timestamp overflow''
                 (checked_add_i64 generated_at_ms schedule_horizon_ms)) (\<lambda>valid_until_ms.
     and_then (try_fold (expand_policy chr generated_at_ms valid_until_ms) [] policies)
       (\<lambda>schedule_intervals.
     snapshot_frame env gateway_id controller_epoch config_revision bundle_generation
       generated_at_ms valid_until_ms policies schedule_intervals))"

section \<open>Specification\<close>

text \<open>The instants a list of half-open intervals covers.\<close>

definition covered :: "policy_schedule_interval list \<Rightarrow> int set" where
  "covered ivs = {t. \<exists>i\<in>set ivs. iv_start_ms i \<le> t \<and> t < iv_end_ms i}"

text \<open>Merged intervals: non-empty, in order, and with a gap between neighbours.\<close>

definition separated :: "policy_schedule_interval list \<Rightarrow> bool" where
  "separated ivs \<longleftrightarrow> sorted_wrt (\<lambda>a b. iv_end_ms a < iv_start_ms b) ivs \<and>
     (\<forall>i\<in>set ivs. iv_start_ms i < iv_end_ms i)"

text \<open>The instants of one window on one date, in UTC.\<close>

definition window_instants :: "chrono \<Rightarrow> string \<Rightarrow> int \<Rightarrow> policy_schedule_window \<Rightarrow> int set" where
  "window_instants chr tz date w =
     {t. (\<exists>day\<in>set (win_days w). weekday_matches day date) \<and>
         (\<exists>a b s e. chr_parse_hm chr (win_start w) = Ok a \<and> chr_parse_hm chr (win_end w) = Ok b \<and>
            resolve_local chr tz (and_time date a) True = Ok s \<and>
            resolve_local chr tz (and_time date b) False = Ok e \<and> s \<le> t \<and> t < e)}"

text \<open>Every interval lies in the compiled range.\<close>

definition ivs_in :: "int \<Rightarrow> int \<Rightarrow> policy_schedule_interval list \<Rightarrow> bool" where
  "ivs_in f u ivs \<longleftrightarrow> (\<forall>i\<in>set ivs. f \<le> iv_start_ms i \<and> iv_start_ms i < iv_end_ms i \<and> iv_end_ms i \<le> u)"

abbreviation scheduled :: "policy_snapshot_entry \<Rightarrow> bool" where
  "scheduled p \<equiv> spec_schedule (entry_spec p) \<noteq> None"

text \<open>A schedule entry is the expansion of a policy.\<close>

definition expanded :: "chrono \<Rightarrow> int \<Rightarrow> int \<Rightarrow> policy_snapshot_entry \<Rightarrow> policy_schedule_intervals \<Rightarrow> bool" where
  "expanded chr f u p e \<longleftrightarrow>
     ivs_policy_id e = entry_id p \<and> expand_schedule chr (entry_spec p) f u = Ok (ivs_intervals e)"

text \<open>What compiling relies on of a zone and of the range of dates: every local time exists within
  three hours, and the day of the horizon is followed by representable times.\<close>

definition tz_total :: "chrono \<Rightarrow> string \<Rightarrow> bool" where
  "tz_total chr tz \<longleftrightarrow> (\<forall>l. \<exists>k\<le>180. chr_from_local chr tz (l + int k * minute_ms) \<noteq> LocalNone)"

definition representable :: "chrono \<Rightarrow> string \<Rightarrow> int \<Rightarrow> bool" where
  "representable chr tz t \<longleftrightarrow> chr_timestamp chr t \<and> date_naive (chr_local chr tz t) < chr_max_date chr \<and>
     and_time (date_naive (chr_local chr tz t)) 1440 + 181 * minute_ms \<le> chr_max_local chr"

section \<open>A concrete instance\<close>

text \<open>A policy that blocks on the first day of the epoch, a Thursday, from 8:00 to 9:30.\<close>

definition ex_schedule :: policy_schedule where
  "ex_schedule = \<lparr>sched_timezone = ''UTC'', sched_windows =
     [\<lparr>win_days = [Thu], win_start = ''08:00'', win_end = ''09:00''\<rparr>,
      \<lparr>win_days = [Thu], win_start = ''08:45'', win_end = ''09:30''\<rparr>]\<rparr>"

definition ex_scheduled :: policy_snapshot_entry where
  "ex_scheduled = \<lparr>entry_id = ''p2'', entry_spec = ex_spec\<lparr>spec_schedule := Some ex_schedule\<rparr>\<rparr>"

definition ex_compiled :: policy_snapshot where
  "ex_compiled =
     (case compile_snapshot ex_env ex_chrono ''gw'' ex_epoch 1 0 1 [ex_scheduled] of
        Inr (PolicySnapshot s) \<Rightarrow> s | _ \<Rightarrow> ex_snapshot)"

section \<open>Lemmas\<close>

lemma covered_simps [simp]:
  "covered [] = {}" "covered (xs @ ys) = covered xs \<union> covered ys"
  "covered (i # xs) = {iv_start_ms i..<iv_end_ms i} \<union> covered xs"
  by (auto simp: covered_def)

lemma covered_cong_set: "set xs = set ys \<Longrightarrow> covered xs = covered ys"
  by (simp add: covered_def)

lemma covered_rev [simp]: "covered (rev xs) = covered xs"
  by (rule covered_cong_set) simp

lemma window_instants_eq:
  assumes "\<exists>day\<in>set (win_days w). weekday_matches day date"
    and "chr_parse_hm chr (win_start w) = Ok a" "chr_parse_hm chr (win_end w) = Ok b"
    and "resolve_local chr tz (and_time date a) True = Ok s"
    and "resolve_local chr tz (and_time date b) False = Ok e"
  shows "window_instants chr tz date w = {s..<e}"
  using assms by (auto simp: window_instants_def)

lemma expand_window_Ok:
  assumes "expand_window chr tz f u date acc w = Ok acc'"
  shows "covered acc' = covered acc \<union> (window_instants chr tz date w \<inter> {f..<u}) \<and>
         (ivs_in f u acc \<longrightarrow> ivs_in f u acc')"
proof (cases "\<exists>day\<in>set (win_days w). weekday_matches day date")
  case True
  with assms obtain a b s e where
    p: "chr_parse_hm chr (win_start w) = Ok a" "chr_parse_hm chr (win_end w) = Ok b"
      "resolve_local chr tz (and_time date a) True = Ok s"
      "resolve_local chr tz (and_time date b) False = Ok e"
    by (auto simp: expand_window_def res_simps)
  then have "\<not> b \<le> a" using True assms by (auto simp: expand_window_def)
  then have "acc' = (if s < e \<and> max s f < min e u
      then acc @ [\<lparr>iv_start_ms = max s f, iv_end_ms = min e u\<rparr>] else acc)"
    using True p assms by (simp add: expand_window_def Let_def split: if_splits)
  then show ?thesis
    unfolding window_instants_eq [OF True p] ivs_in_def by auto
next
  case False
  then have "window_instants chr tz date w = {}" by (auto simp: window_instants_def)
  with False assms show ?thesis by (simp add: expand_window_def)
qed

lemma expand_windows_Ok:
  assumes "try_fold (expand_window chr tz f u date) acc ws = Ok acc'"
  shows "covered acc' = covered acc \<union> ((\<Union>w\<in>set ws. window_instants chr tz date w) \<inter> {f..<u}) \<and>
         (ivs_in f u acc \<longrightarrow> ivs_in f u acc')"
  using assms
proof (induction ws arbitrary: acc)
  case (Cons w ws)
  then obtain a where a: "expand_window chr tz f u date acc w = Ok a"
    "try_fold (expand_window chr tz f u date) a ws = Ok acc'" by (auto simp: res_simps)
  from Cons.IH [OF a(2)] expand_window_Ok [OF a(1)] show ?case by auto
qed simp

lemma expand_dates_Ok:
  assumes "expand_dates chr sch f u lst date acc = Ok acc'"
  shows "covered acc' = covered acc \<union>
      ((\<Union>d\<in>{date..lst}. \<Union>w\<in>set (sched_windows sch). window_instants chr (sched_timezone sch) d w) \<inter> {f..<u}) \<and>
      (ivs_in f u acc \<longrightarrow> ivs_in f u acc')"
  using assms
proof (induction chr sch f u lst date acc rule: expand_dates.induct)
  case (1 chr sch f u lst date acc)
  note step = 1(2) [unfolded expand_dates.simps [of chr sch f u lst date acc]]
  show ?case
  proof (cases "date \<le> lst")
    case True
    with step obtain a where a:
      "try_fold (expand_window chr (sched_timezone sch) f u date) acc (sched_windows sch) = Ok a"
      "succ_opt chr date = Some (date + 1)" "expand_dates chr sch f u lst (date + 1) a = Ok acc'"
      by (auto simp: succ_opt_def split: sum.splits option.splits if_splits)
    have "{date..lst} = insert date {date + 1..lst}" using True by auto
    with expand_windows_Ok [OF a(1)] 1(1) [OF True a(1,2,3)] show ?thesis by auto
  next
    case False
    with step show ?thesis by auto
  qed
qed

section \<open>Merging\<close>

lemma merge_interval_snoc:
  "merge_interval (ms @ [p]) i =
     (if iv_start_ms i \<le> iv_end_ms p
      then ms @ [p\<lparr>iv_end_ms := max (iv_end_ms p) (iv_end_ms i)\<rparr>] else ms @ [p, i])"
  by (simp add: merge_interval_def)

lemma merge_interval_Nil: "merge_interval [] i = [i]"
  by (simp add: merge_interval_def)

text \<open>Inserting the next interval of a sorted list keeps the merged list separated and adds
  exactly its instants.\<close>

lemma merge_interval_step:
  assumes "separated ms" and "\<forall>m\<in>set ms. iv_start_ms m \<le> iv_start_ms i" and "iv_start_ms i < iv_end_ms i"
  shows "separated (merge_interval ms i) \<and> covered (merge_interval ms i) = covered ms \<union> covered [i] \<and>
    (\<forall>m\<in>set (merge_interval ms i). iv_start_ms m \<le> iv_start_ms i)"
proof (cases ms rule: rev_cases)
  case Nil
  then show ?thesis using assms by (simp add: merge_interval_Nil separated_def)
next
  case (snoc ys p)
  show ?thesis
    using assms unfolding snoc merge_interval_snoc
    by (auto simp: separated_def sorted_wrt_append)
qed

lemma merge_intervals:
  assumes "sorted (map interval_key xs)" and "\<forall>i\<in>set xs. iv_start_ms i < iv_end_ms i"
  shows "separated (foldl merge_interval [] xs) \<and> covered (foldl merge_interval [] xs) = covered xs \<and>
    (\<forall>m\<in>set (foldl merge_interval [] xs). \<forall>x. (\<forall>y\<in>set xs. iv_start_ms y \<le> x) \<longrightarrow> iv_start_ms m \<le> x)"
  using assms
proof (induction xs rule: rev_induct)
  case (snoc i xs)
  let ?m = "foldl merge_interval [] xs"
  have le: "\<forall>y\<in>set xs. iv_start_ms y \<le> iv_start_ms i"
    using snoc.prems(1) by (auto simp: sorted_append interval_key_def)
  have IH: "separated ?m" "covered ?m = covered xs" "\<forall>m\<in>set ?m. iv_start_ms m \<le> iv_start_ms i"
    using snoc le by (auto simp: sorted_append)
  from merge_interval_step [OF IH(1,3)] snoc.prems(2) IH(2) show ?case
    by (auto intro: order_trans)
qed (simp add: separated_def)

lemma separated_sorted: "separated ivs \<Longrightarrow> sorted_wrt (<) (map interval_key ivs)"
  unfolding separated_def sorted_wrt_map
  by (erule conjE, erule sorted_wrt_mono_rel [rotated]) (auto simp: interval_key_def)

lemma covered_in_range:
  assumes "separated ivs" and "covered ivs \<subseteq> {f..<u}"
  shows "ivs_in f u ivs"
  unfolding ivs_in_def
proof
  fix i assume i: "i \<in> set ivs"
  then have ne: "iv_start_ms i < iv_end_ms i" using assms(1) by (simp add: separated_def)
  then have "iv_start_ms i \<in> covered ivs" "iv_end_ms i - 1 \<in> covered ivs"
    using i unfolding covered_def by force+
  with ne assms(2) show "f \<le> iv_start_ms i \<and> iv_start_ms i < iv_end_ms i \<and> iv_end_ms i \<le> u" by force
qed

lemma expand_schedule_Ok:
  assumes "expand_schedule chr spec f u = Ok ivs" and "spec_schedule spec = Some sch"
  shows "separated ivs \<and> covered ivs =
    (\<Union>d\<in>{date_naive (chr_local chr (sched_timezone sch) f)..date_naive (chr_local chr (sched_timezone sch) u)}.
       \<Union>w\<in>set (sched_windows sch). window_instants chr (sched_timezone sch) d w) \<inter> {f..<u}"
proof -
  from assms obtain raw where raw:
    "expand_dates chr sch f u (date_naive (chr_local chr (sched_timezone sch) u))
       (date_naive (chr_local chr (sched_timezone sch) f)) [] = Ok raw"
    "ivs = foldl merge_interval [] (sort_key interval_key raw)"
    by (auto simp: expand_schedule_def res_simps Let_def)
  note r = expand_dates_Ok [OF raw(1)]
  have "\<forall>i\<in>set raw. iv_start_ms i < iv_end_ms i" using r by (simp add: ivs_in_def)
  with merge_intervals [of "sort_key interval_key raw"]
  have "separated ivs \<and> covered ivs = covered (sort_key interval_key raw)"
    unfolding raw(2) by simp
  then show ?thesis using r covered_cong_set [of "sort_key interval_key raw" raw] by simp
qed

section \<open>Fixed-offset zones\<close>

lemma resolve_local_fixed:
  assumes "fixed_offset chr tz off"
  shows "resolve_local chr tz l b = Ok (l - off)"
proof -
  have "(181::nat) = Suc 180" by simp
  then show ?thesis
    using assms unfolding resolve_local_def by (simp only: resolve_local_from.simps) (simp add: fixed_offset_def)
qed

lemma parse_time_Some:
  assumes "parse_time chr v = Some a"
  obtains b1 b2 b3 b4 where "v = [b1, b2, CHR '':'', b3, b4]"
    "is_ascii_digit b1" "is_ascii_digit b2" "is_ascii_digit b3" "is_ascii_digit b4"
    "chr_parse_hm chr v = Ok a"
proof -
  from assms have len: "length v = 5"
    and f: "v ! 2 = CHR '':''" "\<forall>(index, byte)\<in>set (enumerate 0 v). index = 2 \<or> is_ascii_digit byte"
    and "chr_parse_hm chr v = Ok a"
    by (auto simp: parse_time_def split: if_splits sum.splits)
  moreover from len obtain b1 b2 b3 b4 b5 where "v = [b1, b2, b3, b4, b5]"
    by (auto simp: eval_nat_numeral length_Suc_conv)
  ultimately show thesis by (intro that [of b1 b2 b4 b5]) auto
qed

lemma parse_time_value:
  assumes "parse_hm_spec chr" and "parse_time chr v = Some a"
  shows "a < 1440" "parse_minute v = Some (of_nat a)"
  using assms(2)
proof (atomize (full), rule parse_time_Some)
  fix b1 b2 b3 b4
  assume v: "v = [b1, b2, CHR '':'', b3, b4]"
    and d: "is_ascii_digit b1" "is_ascii_digit b2" "is_ascii_digit b3" "is_ascii_digit b4"
    and a: "chr_parse_hm chr v = Ok a"
  have digit: "byte_val x - 48 < 10 \<and> digit_val 10 x = Some (byte_val x - 48) \<and> x \<noteq> CHR ''+'' \<and> x \<noteq> CHR '':''"
    if "is_ascii_digit x" for x
    using that
    by (auto simp: is_ascii_digit_def digit_val_def byte_val_def less_eq_char_def Let_def)
  have two: "parse_u32 [x, y] = Some (two_digits x y) \<and> two_digits x y < 100"
    if "is_ascii_digit x" "is_ascii_digit y" for x y
    using digit [OF that(1)] digit [OF that(2)]
    by (auto simp: parse_u32_def from_str_radix_def two_digits_def)
  have spec: "if two_digits b1 b2 < 24 \<and> two_digits b3 b4 < 60
      then chr_parse_hm chr v = Ok (two_digits b1 b2 * 60 + two_digits b3 b4)
      else \<not> is_ok (chr_parse_hm chr v)"
    using assms(1) d unfolding parse_hm_spec_def v by blast
  then have h: "two_digits b1 b2 < 24" "two_digits b3 b4 < 60"
    "a = two_digits b1 b2 * 60 + two_digits b3 b4"
    using a by (auto split: if_splits)
  show "a < 1440 \<and> parse_minute v = Some (of_nat a)"
    using h two [OF d(1,2)] two [OF d(3,4)] digit [OF d(1)] digit [OF d(2)]
    by (simp add: parse_minute_def v)
qed

lemma of_nat_u32_le: "a < 2 ^ 32 \<Longrightarrow> b < 2 ^ 32 \<Longrightarrow> (of_nat a :: u32) \<le> of_nat b \<longleftrightarrow> a \<le> b"
  by (simp add: word_le_nat_alt unat_of_nat)

lemma of_nat_u32_less: "a < 2 ^ 32 \<Longrightarrow> b < 2 ^ 32 \<Longrightarrow> (of_nat a :: u32) < of_nat b \<longleftrightarrow> a < b"
  using of_nat_u32_le [of b a] by (simp flip: not_le)

lemma weekday_matches_iff:
  "(\<exists>day\<in>set days. weekday_matches day date) \<longleftrightarrow> weekday_of (num_days_from_monday date) \<in> set days"
  by (auto simp: weekday_matches_def)

lemma window_instants_fixed:
  assumes "fixed_offset chr tz off" and "parse_hm_spec chr" and "window_ok chr w"
  shows "t \<in> window_instants chr tz d w \<longleftrightarrow> date_naive (t + off) = d \<and>
    weekday_of (num_days_from_monday d) \<in> set (win_days w) \<and>
    is_some_and (parse_minute (win_start w)) (\<lambda>start. start \<le> of_nat (minute_of_day (t + off))) \<and>
    is_some_and (parse_minute (win_end w)) (\<lambda>stop. of_nat (minute_of_day (t + off)) < stop)"
proof -
  from assms(3) obtain a b where ab: "parse_time chr (win_start w) = Some a"
    "parse_time chr (win_end w) = Some b" "a < b" by (auto simp: window_ok_iff)
  note pa = parse_time_value [OF assms(2) ab(1)] and pb = parse_time_value [OF assms(2) ab(2)]
  have hm: "chr_parse_hm chr (win_start w) = Ok a" "chr_parse_hm chr (win_end w) = Ok b"
    using ab by (auto elim: parse_time_Some)
  have "t \<in> window_instants chr tz d w \<longleftrightarrow> weekday_of (num_days_from_monday d) \<in> set (win_days w) \<and>
     and_time d a \<le> t + off \<and> t + off < and_time d b"
    using hm by (auto simp: window_instants_def resolve_local_fixed [OF assms(1)] weekday_matches_iff)
  also have "\<dots> \<longleftrightarrow> weekday_of (num_days_from_monday d) \<in> set (win_days w) \<and> date_naive (t + off) = d \<and>
     a \<le> minute_of_day (t + off) \<and> minute_of_day (t + off) < b"
    using and_time_window [of a b d "t + off"] pa(1) pb(1) ab(3) by simp
  finally show ?thesis
    using pa pb minute_of_day_less [of "t + off"]
    by (auto simp: is_some_and_def of_nat_u32_le of_nat_u32_less)
qed

text \<open>In a zone with a fixed offset the compiled intervals are exactly the instants at which the
  preview considers the schedule active.\<close>

lemma expand_schedule_fixed:
  assumes "expand_schedule chr (entry_spec p) f u = Ok ivs" and "spec_schedule (entry_spec p) = Some sch"
    and "fixed_offset chr (sched_timezone sch) off" and "parse_hm_spec chr" and "schedule_ok chr sch"
    and "f \<le> t" "t < u" and "chr_timestamp chr t"
  shows "t \<in> covered ivs \<longleftrightarrow> schedule_active chr p t"
proof -
  let ?tz = "sched_timezone sch" let ?d = "date_naive (t + off)"
  have loc: "chr_local chr ?tz x = x + off" for x using assms(3) by (simp add: fixed_offset_def)
  have "?d \<in> {date_naive (f + off)..date_naive (u + off)}"
    using assms(6,7) by (auto simp: date_naive_def day_ms_def intro!: zdiv_mono1)
  moreover have "t \<in> window_instants chr ?tz d w \<Longrightarrow> d = ?d" if "w \<in> set (sched_windows sch)" for d w
    using that assms(5) window_instants_fixed [OF assms(3,4)] by (simp add: schedule_ok_def)
  moreover have "t \<in> covered ivs \<longleftrightarrow> (\<exists>d\<in>{date_naive (f + off)..date_naive (u + off)}.
      \<exists>w\<in>set (sched_windows sch). t \<in> window_instants chr ?tz d w)"
    using expand_schedule_Ok [OF assms(1,2)] assms(6,7) by (simp add: loc)
  ultimately have "t \<in> covered ivs \<longleftrightarrow> (\<exists>w\<in>set (sched_windows sch). t \<in> window_instants chr ?tz ?d w)"
    by blast
  also have "\<dots> \<longleftrightarrow> schedule_active chr p t"
    using assms(2,3,5,8) window_instants_fixed [OF assms(3,4)]
    by (auto simp: schedule_active_def loc schedule_ok_def Let_def)
  finally show ?thesis .
qed

section \<open>Snapshots\<close>

lemma expand_policies_Ok:
  "try_fold (expand_policy chr f u) acc ps = Ok sis \<Longrightarrow>
     \<exists>new. sis = acc @ new \<and> list_all2 (expanded chr f u) (filter scheduled ps) new"
proof (induction ps arbitrary: acc)
  case (Cons p ps)
  then obtain a where a: "expand_policy chr f u acc p = Ok a" "try_fold (expand_policy chr f u) a ps = Ok sis"
    by (auto simp: res_simps)
  from Cons.IH [OF a(2)] obtain new where new: "sis = a @ new"
    "list_all2 (expanded chr f u) (filter scheduled ps) new" by blast
  show ?case
  proof (cases "scheduled p")
    case True
    with a(1) obtain ivs where ivs: "expand_schedule chr (entry_spec p) f u = Ok ivs"
      "a = acc @ [\<lparr>ivs_policy_id = entry_id p, ivs_intervals = ivs\<rparr>]"
      by (auto simp: expand_policy_def res_simps)
    then have "expanded chr f u p \<lparr>ivs_policy_id = entry_id p, ivs_intervals = ivs\<rparr>"
      by (simp add: expanded_def)
    with ivs True new show ?thesis
      by (intro exI [of _ "\<lparr>ivs_policy_id = entry_id p, ivs_intervals = ivs\<rparr> # new"]) simp
  next
    case False
    with a(1) new show ?thesis by (simp add: expand_policy_def)
  qed
qed simp

lemma expand_policies_member:
  assumes "try_fold (expand_policy chr f u) [] ps = Ok sis" and "p \<in> set ps" "scheduled p"
  shows "\<exists>e\<in>set sis. expanded chr f u p e"
proof -
  have "list_all2 (expanded chr f u) (filter scheduled ps) sis"
    using expand_policies_Ok [OF assms(1)] by simp
  moreover have "p \<in> set (filter scheduled ps)" using assms by simp
  ultimately show ?thesis by (metis in_set_conv_nth list_all2_conv_all_nth)
qed

lemma compile_snapshot_Ok:
  assumes "compile_snapshot env chr g e b gen r ps = Ok fr"
  obtains s sis where "fr = PolicySnapshot s" "snapshot_wf env s"
    "snap_policies s = sort_key entry_id ps"
    "snap_generated_at_ms s = gen" "snap_valid_until_ms s = gen + schedule_horizon_ms"
    "try_fold (expand_policy chr gen (gen + schedule_horizon_ms)) [] ps = Ok sis"
    "snap_schedule_intervals s = sorted_schedules sis"
proof -
  from assms obtain sis where sis:
    "try_fold (expand_policy chr gen (gen + schedule_horizon_ms)) [] ps = Ok sis"
    and fr: "snapshot_frame env g e r b gen (gen + schedule_horizon_ms) ps sis = Ok fr"
    by (auto simp: compile_snapshot_def res_simps checked_add_i64_def split: if_splits)
  from fr show thesis
    by (rule snapshot_frame_Ok) (rule that [OF _ _ _ _ _ sis], auto simp: sorted_schedules_def)
qed

lemma find_schedule:
  assumes "snapshot_wf env s" "snap_schedule_intervals s = sorted_schedules sis" and "e \<in> set sis"
  shows "\<exists>e'. find (\<lambda>x. ivs_policy_id x = ivs_policy_id e) (snap_schedule_intervals s) = Some e' \<and>
    set (ivs_intervals e') = set (ivs_intervals e)"
proof -
  let ?e = "e\<lparr>ivs_intervals := sort_key interval_key (ivs_intervals e)\<rparr>"
  have "distinct (map ivs_policy_id (snap_schedule_intervals s))"
    using assms(1) by (simp add: snapshot_wf_def snapshot_content_wf_def strict_sorted_map_distinct)
  moreover have "?e \<in> set (snap_schedule_intervals s)"
    using assms(2,3) by (auto simp: sorted_schedules_def)
  ultimately have "find (\<lambda>x. ivs_policy_id x = ivs_policy_id ?e) (snap_schedule_intervals s) = Some ?e"
    by (rule find_key_unique)
  then show ?thesis by auto
qed

lemma compiled_in_force:
  assumes "snapshot_wf env s" "snap_policies s = sort_key entry_id ps" and "p \<in> set ps"
    and "snap_schedule_intervals s = sorted_schedules sis"
    and "try_fold (expand_policy chr f u) [] ps = Ok sis"
  shows "in_force s t (entry_id p) \<longleftrightarrow> spec_enabled (entry_spec p) \<and>
    (scheduled p \<longrightarrow> (\<exists>ivs. expand_schedule chr (entry_spec p) f u = Ok ivs \<and> t \<in> covered ivs))"
proof -
  have find: "find (\<lambda>q. entry_id q = entry_id p) (snap_policies s) = Some p"
    using snapshot_wf_find_policy [OF assms(1)] assms(2,3) by simp
  show ?thesis
  proof (cases "scheduled p")
    case True
    obtain e where e: "e \<in> set sis" "ivs_policy_id e = entry_id p"
      "expand_schedule chr (entry_spec p) f u = Ok (ivs_intervals e)"
      using expand_policies_member [OF assms(5,3) True] by (auto simp: expanded_def)
    obtain e' where "find (\<lambda>x. ivs_policy_id x = entry_id p) (snap_schedule_intervals s) = Some e'"
      "set (ivs_intervals e') = set (ivs_intervals e)"
      using find_schedule [OF assms(1,4) e(1)] e(2) by auto
    with find True e(3) show ?thesis by (auto simp: in_force_def covered_def)
  qed (use find in \<open>auto simp: in_force_def\<close>)
qed

section \<open>Compiling succeeds\<close>

lemma resolve_local_from_is_ok:
  assumes "\<exists>k<n. chr_from_local chr tz (l + int k * minute_ms) \<noteq> LocalNone"
    and "l + int n * minute_ms \<le> chr_max_local chr"
  shows "is_ok (resolve_local_from chr tz b n l)"
  using assms
proof (induction n arbitrary: l)
  case (Suc n)
  show ?case
  proof (cases "chr_from_local chr tz l = LocalNone")
    case True
    from Suc.prems(1) obtain k where k: "k < Suc n" "chr_from_local chr tz (l + int k * minute_ms) \<noteq> LocalNone"
      by blast
    with True obtain j where "k = Suc j" by (cases k) auto
    with k have "\<exists>j<n. chr_from_local chr tz ((l + minute_ms) + int j * minute_ms) \<noteq> LocalNone"
      by (auto simp: algebra_simps intro!: exI [of _ j])
    moreover have "(l + minute_ms) + int n * minute_ms \<le> chr_max_local chr"
      using Suc.prems(2) by (simp add: algebra_simps)
    moreover have "l + minute_ms \<le> chr_max_local chr"
      using Suc.prems(2) by (simp add: minute_ms_def)
    ultimately show ?thesis using True Suc.IH by (simp add: checked_add_minute_def)
  qed (auto split: local_result.splits)
qed simp

lemma resolve_local_is_ok:
  assumes "tz_total chr tz" and "l + 181 * minute_ms \<le> chr_max_local chr"
  shows "is_ok (resolve_local chr tz l b)"
  unfolding resolve_local_def
  using assms by (intro resolve_local_from_is_ok) (auto simp: tz_total_def less_Suc_eq_le [symmetric])

lemma expand_window_is_ok:
  assumes "parse_hm_spec chr" "tz_total chr tz" "window_ok chr w"
    and "and_time date 1440 + 181 * minute_ms \<le> chr_max_local chr"
  shows "is_ok (expand_window chr tz f u date acc w)"
proof -
  from assms(3) obtain a b where ab: "parse_time chr (win_start w) = Some a"
    "parse_time chr (win_end w) = Some b" "a < b" by (auto simp: window_ok_iff)
  have hm: "chr_parse_hm chr (win_start w) = Ok a" "chr_parse_hm chr (win_end w) = Ok b"
    using ab by (auto elim: parse_time_Some)
  have "a < 1440" "b < 1440" using parse_time_value [OF assms(1)] ab by blast+
  then have "is_ok (resolve_local chr tz (and_time date a) True)"
    "is_ok (resolve_local chr tz (and_time date b) False)"
    using assms(2,4) by (auto intro!: resolve_local_is_ok simp: and_time_def minute_ms_def)
  with hm ab(3) show ?thesis
    by (auto simp: expand_window_def is_ok_def Let_def split: sum.splits)
qed

lemma expand_dates_is_ok:
  assumes "parse_hm_spec chr" "tz_total chr (sched_timezone sch)" "schedule_ok chr sch"
    and "lst < chr_max_date chr" "and_time lst 1440 + 181 * minute_ms \<le> chr_max_local chr"
  shows "is_ok (expand_dates chr sch f u lst date acc)"
  using assms
proof (induction chr sch f u lst date acc rule: expand_dates.induct)
  case (1 chr sch f u lst date acc)
  show ?case
  proof (cases "date \<le> lst")
    case True
    then have "date * day_ms \<le> lst * day_ms" by (simp add: day_ms_def)
    then have "and_time date 1440 + 181 * minute_ms \<le> chr_max_local chr"
      using 1(6) by (simp add: and_time_def)
    then have "is_ok (try_fold (expand_window chr (sched_timezone sch) f u date) acc (sched_windows sch))"
      using 1(2-4) by (intro try_fold_is_ok expand_window_is_ok) (auto simp: schedule_ok_def)
    then obtain a where "try_fold (expand_window chr (sched_timezone sch) f u date) acc (sched_windows sch) = Ok a"
      by (auto simp: is_ok_def split: sum.splits)
    with 1(1) [OF True this] 1(2-6) True show ?thesis
      by (subst expand_dates.simps) (simp add: succ_opt_def)
  qed (subst expand_dates.simps, simp)
qed

lemma expand_schedule_is_ok:
  assumes "parse_hm_spec chr" "spec_schedule spec = Some sch" "schedule_ok chr sch"
    and "tz_total chr (sched_timezone sch)" "chr_timestamp chr f" "representable chr (sched_timezone sch) u"
  shows "is_ok (expand_schedule chr spec f u)"
proof -
  let ?l = "\<lambda>t. date_naive (chr_local chr (sched_timezone sch) t)"
  have "is_ok (expand_dates chr sch f u (?l u) (?l f) [])"
    using assms by (intro expand_dates_is_ok) (auto simp: representable_def)
  then show ?thesis
    using assms by (auto simp: expand_schedule_def schedule_ok_def representable_def Let_def is_ok_def
        split: sum.splits)
qed

lemma expand_policies_is_ok:
  assumes "parse_hm_spec chr" "chr_timestamp chr f"
    and "\<And>p sch. p \<in> set ps \<Longrightarrow> spec_schedule (entry_spec p) = Some sch \<Longrightarrow>
      schedule_ok chr sch \<and> tz_total chr (sched_timezone sch) \<and> representable chr (sched_timezone sch) u"
  shows "is_ok (try_fold (expand_policy chr f u) acc ps)"
proof (rule try_fold_is_ok)
  fix acc p assume p: "p \<in> set ps"
  show "is_ok (expand_policy chr f u acc p)"
  proof (cases "spec_schedule (entry_spec p)")
    case (Some sch)
    then have "is_ok (expand_schedule chr (entry_spec p) f u)"
      using assms p by (intro expand_schedule_is_ok) auto
    then show ?thesis by (auto simp: expand_policy_def is_ok_iff)
  qed (simp add: expand_policy_def)
qed

lemma expanded_intervals:
  assumes "expanded chr f u p e" "scheduled p"
  shows "distinct (ivs_intervals e)" "\<forall>i\<in>set (ivs_intervals e). iv_start_ms i < iv_end_ms i"
proof -
  from assms obtain sch where "spec_schedule (entry_spec p) = Some sch"
    "expand_schedule chr (entry_spec p) f u = Ok (ivs_intervals e)" by (auto simp: expanded_def)
  then have sep: "separated (ivs_intervals e)" using expand_schedule_Ok by blast
  then show "\<forall>i\<in>set (ivs_intervals e). iv_start_ms i < iv_end_ms i" by (simp add: separated_def)
  show "distinct (ivs_intervals e)"
    using strict_sorted_map_distinct [OF separated_sorted [OF sep]] by (simp add: distinct_map)
qed

text \<open>What the Collector's validation gives for compiling.\<close>

lemma accepted_policy:
  assumes "normalize_and_validate chr spec known = (spec', [])"
    and "\<forall>v\<in>set (sel_applications (spec_selectors spec')) \<union> set (sel_categories (spec_selectors spec')).
           length v \<le> 128"
  shows "validate_policy_spec (spec_gateway_id spec') spec' = Ok () \<and>
    (\<forall>sch. spec_schedule spec' = Some sch \<longrightarrow> schedule_ok chr sch)"
proof -
  have n: "spec' = normalize_spec chr spec" "spec_ok chr known spec'"
    using assms(1) normalize_and_validate_fst [of chr spec known] normalize_and_validate_Nil [of chr spec known]
    by auto
  then have "validate_policy_spec (spec_gateway_id spec') spec' = Ok ()"
    using assms(2) normalize_selectors_clients
    by (intro spec_ok_wire_valid) (auto simp: normalize_spec_def)
  with n(2) show ?thesis by (auto simp: spec_ok_def Let_def)
qed

lemma expanded_ids:
  "list_all2 (expanded chr f u) ps sis \<Longrightarrow> map ivs_policy_id sis = map entry_id ps"
  by (induction rule: list_all2_induct) (auto simp: expanded_def)

lemma ex_chrono_timestamp: "chr_timestamp ex_chrono t \<longleftrightarrow> \<bar>t\<bar> \<le> 8000000000000000"
  by (simp add: ex_chrono_def)

lemma ex_chrono_total: "tz_total ex_chrono tz"
  by (auto simp: tz_total_def ex_chrono_def intro: exI [of _ 0])

section \<open>Properties\<close>

text \<open>C17. The compiled intervals of a schedule are exact: in order, non-empty and separated, and they
  cover precisely those instants of the compiled range that lie in a window of the schedule on some
  local date, with the start and end of the window resolved in the policy's time zone.\<close>

theorem expand_schedule_exact:
  assumes "expand_schedule chr spec from_ms until_ms = Ok ivs" and "spec_schedule spec = Some sch"
  shows "separated ivs \<and> ivs_in from_ms until_ms ivs \<and> (\<forall>t. t \<in> covered ivs \<longleftrightarrow>
    from_ms \<le> t \<and> t < until_ms \<and>
    (\<exists>date. date_naive (chr_local chr (sched_timezone sch) from_ms) \<le> date \<and>
       date \<le> date_naive (chr_local chr (sched_timezone sch) until_ms) \<and>
       (\<exists>w\<in>set (sched_windows sch). t \<in> window_instants chr (sched_timezone sch) date w)))"
proof -
  note ok = expand_schedule_Ok [OF assms]
  then have "ivs_in from_ms until_ms ivs" by (intro covered_in_range) auto
  with ok show ?thesis by auto
qed

theorem expand_schedule_exact_witness:
  "separated [\<lparr>iv_start_ms = 28800000, iv_end_ms = 34200000\<rparr>]"
proof -
  have "expand_schedule ex_chrono (entry_spec ex_scheduled) 0 400000000 =
      Ok [\<lparr>iv_start_ms = 28800000, iv_end_ms = 34200000\<rparr>]"
    "spec_schedule (entry_spec ex_scheduled) = Some ex_schedule"
    by code_simp+
  then show ?thesis using expand_schedule_exact by blast
qed

text \<open>C16. The snapshot means what the preview says: in a time zone with a fixed offset, a policy of a
  compiled snapshot is in force at an instant of the snapshot's validity exactly when it is enabled
  and the preview considers its schedule active at that instant.\<close>

theorem compile_snapshot_matches_preview:
  assumes "compile_snapshot env chr gateway epoch generation generated_at revision policies =
      Ok (PolicySnapshot s)"
    and "p \<in> set policies" and "parse_hm_spec chr"
    and "\<forall>sch. spec_schedule (entry_spec p) = Some sch \<longrightarrow>
      schedule_ok chr sch \<and> (\<exists>off. fixed_offset chr (sched_timezone sch) off)"
    and "generated_at \<le> t" "t < generated_at + schedule_horizon_ms" and "chr_timestamp chr t"
  shows "in_force s t (entry_id p) \<longleftrightarrow> spec_enabled (entry_spec p) \<and> schedule_active chr p t"
  using assms(1)
proof (rule compile_snapshot_Ok)
  fix s' sis
  assume s': "PolicySnapshot s = PolicySnapshot s'" "snapshot_wf env s'"
    "snap_policies s' = sort_key entry_id policies"
    "try_fold (expand_policy chr generated_at (generated_at + schedule_horizon_ms)) [] policies = Ok sis"
    "snap_schedule_intervals s' = sorted_schedules sis"
  note force = compiled_in_force [OF s'(2,3) assms(2) s'(5,4), of t]
  show ?thesis
  proof (cases "spec_schedule (entry_spec p)")
    case None
    then show ?thesis using force s'(1) by (simp add: schedule_active_def)
  next
    case (Some sch)
    with assms(4) obtain off where "schedule_ok chr sch" "fixed_offset chr (sched_timezone sch) off" by auto
    note fixed = expand_schedule_fixed [OF _ Some this(2) assms(3) this(1) assms(5-7)]
    have "\<exists>e\<in>set sis. expanded chr generated_at (generated_at + schedule_horizon_ms) p e"
      using expand_policies_member [OF s'(4) assms(2)] Some by simp
    then show ?thesis using force fixed Some s'(1) by (auto simp: expanded_def)
  qed
qed

theorem compile_snapshot_matches_preview_witness:
  "in_force ex_compiled 30000000 ''p2'' \<longleftrightarrow>
     spec_enabled (entry_spec ex_scheduled) \<and> schedule_active ex_chrono ex_scheduled 30000000"
proof -
  have "in_force ex_compiled 30000000 (entry_id ex_scheduled) \<longleftrightarrow>
     spec_enabled (entry_spec ex_scheduled) \<and> schedule_active ex_chrono ex_scheduled 30000000"
  proof (rule compile_snapshot_matches_preview)
    show "compile_snapshot ex_env ex_chrono ''gw'' ex_epoch 1 0 1 [ex_scheduled] =
      Ok (PolicySnapshot ex_compiled)" by code_simp
    have "schedule_ok ex_chrono ex_schedule" by code_simp
    then show "\<forall>sch. spec_schedule (entry_spec ex_scheduled) = Some sch \<longrightarrow>
      schedule_ok ex_chrono sch \<and> (\<exists>off. fixed_offset ex_chrono (sched_timezone sch) off)"
      using ex_chrono_fixed_offset by (auto simp: ex_scheduled_def ex_schedule_def)
  qed (simp_all add: ex_chrono_parse_hm schedule_horizon_ms_def ex_chrono_timestamp)
  then show ?thesis by (simp add: ex_scheduled_def)
qed



end
