(* ===== verification/Agent_Schedule.thy ===== *)
theory Agent_Schedule
  imports Policy_Evaluator
begin

text \<open>
  Time-bounded decisions. The Agent's view of a schedule (\<open>agent/src/policy/schedule.rs\<close>), the
  lease of an endpoint block (\<open>agent/src/policy/endpoint_block.rs\<close>) and the test whether a snapshot
  needs flow verdicts at all (\<open>agent/src/policy/mod.rs\<close>). The contract that both kinds of lease
  share, the Collector's flow verdicts and the Agent's endpoint blocks, is the locale
  \<open>verdict_lease\<close>.
\<close>

section \<open>The Agent's schedule\<close>

datatype schedule_state = Active | Inactive | Expired | ClockInvalid

definition min_valid_clock_ms :: int where
  "min_valid_clock_ms = 1500000000000"

definition interval_active :: "int \<Rightarrow> policy_schedule_interval \<Rightarrow> bool" where
  "interval_active now_ms interval \<longleftrightarrow> iv_start_ms interval \<le> now_ms \<and> now_ms < iv_end_ms interval"

definition evaluate ::
  "policy_snapshot_entry \<Rightarrow> policy_schedule_intervals list \<Rightarrow> int option \<Rightarrow> int \<Rightarrow> schedule_state" where
  "evaluate policy schedule_intervals now_ms valid_until_ms =
     (if spec_schedule (entry_spec policy) = None then Active
      else (case now_ms of
         None \<Rightarrow> ClockInvalid
       | Some now_ms \<Rightarrow>
           if \<not> min_valid_clock_ms \<le> now_ms then ClockInvalid
           else if valid_until_ms \<le> now_ms then Expired
           else if is_some_and (find (\<lambda>entry. ivs_policy_id entry = entry_id policy) schedule_intervals)
                     (\<lambda>entry. \<exists>interval\<in>set (ivs_intervals entry). interval_active now_ms interval)
           then Active else Inactive))"

definition snapshot_has_enabled_application_verdicts :: "policy_wire_frame \<Rightarrow> bool" where
  "snapshot_has_enabled_application_verdicts snapshot =
     (case snapshot of
        PolicySnapshot s \<Rightarrow>
          \<exists>policy\<in>set (snap_policies s).
            spec_enabled (entry_spec policy) \<and>
            (sel_applications (spec_selectors (entry_spec policy)) \<noteq> [] \<or>
             sel_categories (spec_selectors (entry_spec policy)) \<noteq> []) \<and>
            act_kind (spec_action (entry_spec policy)) \<in> {ActionBlock, ActionAllow, ActionLimit}
      | _ \<Rightarrow> False)"

section \<open>Endpoint block leases\<close>

definition cache_ttl_ms :: int where
  "cache_ttl_ms = 5 * 60 * 1000"

definition applies_to_client :: "string \<Rightarrow> policy_snapshot_entry \<Rightarrow> bool" where
  "applies_to_client client_mac policy \<longleftrightarrow>
     (sel_applications (spec_selectors (entry_spec policy)) \<noteq> [] \<or>
      sel_categories (spec_selectors (entry_spec policy)) \<noteq> []) \<and>
     (\<exists>mac\<in>set (sel_clients (spec_selectors (entry_spec policy))). eq_ignore_ascii_case mac client_mac)"

fun block_expiry ::
  "policy_snapshot \<Rightarrow> string \<Rightarrow> int \<Rightarrow> int \<Rightarrow> string list \<Rightarrow> int option" where
  "block_expiry s client_mac now_ms expiry [] = Some expiry"
| "block_expiry s client_mac now_ms expiry (policy_id # ids) =
     (case find (\<lambda>policy. entry_id policy = policy_id) (snap_policies s) of
        None \<Rightarrow> None
      | Some policy \<Rightarrow>
          if \<not> spec_enabled (entry_spec policy) \<or>
             act_kind (spec_action (entry_spec policy)) \<noteq> ActionBlock \<or>
             \<not> applies_to_client client_mac policy
          then None
          else if spec_schedule (entry_spec policy) \<noteq> None
          then (case find (\<lambda>entry. ivs_policy_id entry = policy_id) (snap_schedule_intervals s) of
             None \<Rightarrow> None
           | Some intervals \<Rightarrow>
               (case find (interval_active now_ms) (ivs_intervals intervals) of
                  None \<Rightarrow> None
                | Some active \<Rightarrow>
                    block_expiry s client_mac now_ms (min expiry (iv_end_ms active)) ids))
          else block_expiry s client_mac now_ms expiry ids)"

definition boundaries_after :: "int \<Rightarrow> policy_schedule_intervals \<Rightarrow> int list" where
  "boundaries_after now_ms intervals =
     filter (\<lambda>boundary. now_ms < boundary)
       (concat (map (\<lambda>interval. [iv_start_ms interval, iv_end_ms interval]) (ivs_intervals intervals)))"

fun transition_expiry ::
  "policy_snapshot \<Rightarrow> int \<Rightarrow> int \<Rightarrow> policy_snapshot_entry list \<Rightarrow> int option" where
  "transition_expiry s now_ms expiry [] = Some expiry"
| "transition_expiry s now_ms expiry (policy # policies) =
     (case find (\<lambda>entry. ivs_policy_id entry = entry_id policy) (snap_schedule_intervals s) of
        None \<Rightarrow> None
      | Some intervals \<Rightarrow>
          transition_expiry s now_ms (foldl min expiry (boundaries_after now_ms intervals)) policies)"

definition has_transitions :: "string \<Rightarrow> policy_snapshot_entry \<Rightarrow> bool" where
  "has_transitions client_mac policy \<longleftrightarrow>
     spec_enabled (entry_spec policy) \<and> spec_schedule (entry_spec policy) \<noteq> None \<and>
     applies_to_client client_mac policy"

definition expires_at_ms ::
  "policy_wire_frame \<Rightarrow> string list \<Rightarrow> string \<Rightarrow> int \<Rightarrow> int \<Rightarrow> int option" where
  "expires_at_ms snapshot policy_ids client_mac issued_at_ms now_ms =
     (case snapshot of
        PolicySnapshot s \<Rightarrow>
          if policy_ids = [] \<or> issued_at_ms < 0 \<or> now_ms < 0 then None
          else Option.bind
            (block_expiry s client_mac now_ms
               (min (saturating_add_i64 issued_at_ms cache_ttl_ms) (snap_valid_until_ms s)) policy_ids)
            (\<lambda>expiry. Option.bind
            (transition_expiry s now_ms expiry (filter (has_transitions client_mac) (snap_policies s)))
            (\<lambda>expiry. if now_ms < expiry then Some expiry else None))
      | _ \<Rightarrow> None)"

section \<open>Specification\<close>

text \<open>A policy authorizes a block for a client at a time.\<close>

definition block_authorized :: "policy_snapshot \<Rightarrow> string \<Rightarrow> int \<Rightarrow> string \<Rightarrow> bool" where
  "block_authorized s client_mac t policy_id \<longleftrightarrow> in_force s t policy_id \<and>
     (\<exists>p. find (\<lambda>policy. entry_id policy = policy_id) (snap_policies s) = Some p \<and>
        act_kind (spec_action (entry_spec p)) = ActionBlock \<and> applies_to_client client_mac p)"

text \<open>No policy of the client starts or stops being in force between two times.\<close>

definition no_transition :: "policy_snapshot \<Rightarrow> string \<Rightarrow> int \<Rightarrow> int \<Rightarrow> bool" where
  "no_transition s client_mac t t' \<longleftrightarrow>
     (\<forall>p\<in>set (snap_policies s). has_transitions client_mac p \<longrightarrow>
        (\<forall>e. find (\<lambda>entry. ivs_policy_id entry = entry_id p) (snap_schedule_intervals s) = Some e \<longrightarrow>
          (\<forall>i\<in>set (ivs_intervals e). interval_active t i \<longleftrightarrow> interval_active t' i)))"

text \<open>
  The contract of a lease: it ends in the future, within a bound, and what justifies it keeps
  holding until it ends. A client that acts only under a current lease therefore never acts
  without justification, however often it renews.
\<close>

locale verdict_lease =
  fixes lease :: "'req \<Rightarrow> int \<Rightarrow> int option"
    and bound :: "'req \<Rightarrow> int \<Rightarrow> int"
    and justified :: "'req \<Rightarrow> int \<Rightarrow> int \<Rightarrow> bool"
  assumes lease_future: "lease r now = Some e \<Longrightarrow> now < e"
    and lease_bound: "lease r now = Some e \<Longrightarrow> e \<le> bound r now"
    and lease_justified: "lease r now = Some e \<Longrightarrow> now \<le> t \<Longrightarrow> t < e \<Longrightarrow> justified r now t"
begin

definition in_lease :: "'req \<Rightarrow> int list \<Rightarrow> int \<Rightarrow> bool" where
  "in_lease r renewals t \<longleftrightarrow> (\<exists>now\<in>set renewals. now \<le> t \<and> (\<exists>e. lease r now = Some e \<and> t < e))"

lemma in_lease_justified: "in_lease r renewals t \<Longrightarrow> \<exists>now\<in>set renewals. now \<le> t \<and> justified r now t"
  unfolding in_lease_def using lease_justified by blast

lemma in_lease_bound: "in_lease r renewals t \<Longrightarrow> \<exists>now\<in>set renewals. t < bound r now"
  unfolding in_lease_def using lease_bound by (meson less_le_trans)

lemma no_renewal_no_lease: "in_lease r [] t \<longleftrightarrow> False"
  by (simp add: in_lease_def)

lemma justified_now: "lease r now = Some e \<Longrightarrow> justified r now now"
  using lease_justified lease_future by blast

end

section \<open>Lemmas\<close>

lemma saturating_add_nonneg_le: "0 \<le> a \<Longrightarrow> 0 \<le> b \<Longrightarrow> saturating_add_i64 a b \<le> a + b"
  by (simp add: saturating_add_i64_def sat_i64_def i64_min_def)

lemma flow_verdict_expiry_Some:
  assumes "flow_verdict_expiry (PolicySnapshot s) ids now ttl = Some e"
  shows "now < e" "e \<le> now + ttl" "e \<le> snap_valid_until_ms s"
    "\<And>t i. now \<le> t \<Longrightarrow> t < e \<Longrightarrow> i \<in> set ids \<Longrightarrow> in_force s t i"
proof -
  let ?e0 = "min (saturating_add_i64 now ttl) (snap_valid_until_ms s)"
  from assms have nn: "0 \<le> now" "0 < ttl"
    and ex: "expiry_of_policies (snap_policies s) (snap_schedule_intervals s) now ?e0 ids = Some e"
    and "now < e"
    by (auto simp: flow_verdict_expiry_def bind_eq_Some_conv split: if_splits)
  then show "now < e" by simp
  show "e \<le> now + ttl" "e \<le> snap_valid_until_ms s"
    using expiry_of_policies_bound [OF ex, of now] saturating_add_nonneg_le [of now ttl] nn by auto
  show "in_force s t i" if "now \<le> t" "t < e" "i \<in> set ids" for t i
    using expiry_of_policies_bound [OF ex, of t] that by blast
qed

interpretation flow_lease: verdict_lease
  "\<lambda>(s, ids, ttl) now. flow_verdict_expiry (PolicySnapshot s) ids now ttl"
  "\<lambda>(s, ids, ttl) now. min (now + ttl) (snap_valid_until_ms s)"
  "\<lambda>(s, ids, ttl) now t. \<forall>i\<in>set ids. in_force s t i"
  by unfold_locales (auto dest: flow_verdict_expiry_Some)

lemma block_expiry_Some:
  assumes "block_expiry s mac now e0 ids = Some e"
  shows "e \<le> e0 \<and> (now \<le> t \<and> t < e \<longrightarrow> (\<forall>i\<in>set ids. block_authorized s mac t i))"
  using assms
proof (induction ids arbitrary: e0)
  case (Cons a ids)
  obtain p where p: "find (\<lambda>policy. entry_id policy = a) (snap_policies s) = Some p"
    "spec_enabled (entry_spec p)" "act_kind (spec_action (entry_spec p)) = ActionBlock"
    "applies_to_client mac p"
    using Cons.prems by (auto split: option.splits if_splits)
  show ?case
  proof (cases "spec_schedule (entry_spec p)")
    case None
    with Cons.prems p Cons.IH [of e0] show ?thesis
      by (auto simp: block_authorized_def in_force_def)
  next
    case (Some sch)
    with Cons.prems p obtain x i where
      x: "find (\<lambda>x. ivs_policy_id x = a) (snap_schedule_intervals s) = Some x"
      and i: "find (interval_active now) (ivs_intervals x) = Some i"
      and rest: "block_expiry s mac now (min e0 (iv_end_ms i)) ids = Some e"
      by (auto split: option.splits)
    with Cons.IH [OF rest] find_Some_iff_dest [OF i] p show ?thesis
      by (auto simp: block_authorized_def in_force_def interval_active_def intro!: bexI [of _ i])
  qed
qed simp

lemma foldl_min_le: "foldl min (e :: int) xs \<le> e \<and> (\<forall>x\<in>set xs. foldl min e xs \<le> x)"
  by (induction xs arbitrary: e) (auto, (meson min.boundedE order_trans)+)

lemma transition_expiry_Some:
  assumes "transition_expiry s now e0 ps = Some e"
  shows "e \<le> e0 \<and> (\<forall>p\<in>set ps. \<forall>x. find (\<lambda>entry. ivs_policy_id entry = entry_id p) (snap_schedule_intervals s) = Some x \<longrightarrow>
    (\<forall>b\<in>set (boundaries_after now x). e \<le> b))"
  using assms
proof (induction ps arbitrary: e0)
  case (Cons p ps)
  then obtain x where x: "find (\<lambda>entry. ivs_policy_id entry = entry_id p) (snap_schedule_intervals s) = Some x"
    "transition_expiry s now (foldl min e0 (boundaries_after now x)) ps = Some e"
    by (auto split: option.splits)
  from Cons.IH [OF x(2)] foldl_min_le [of e0 "boundaries_after now x"] x(1) show ?case
    by fastforce
qed simp

lemma no_boundary_same_activity:
  assumes "\<forall>b\<in>set (boundaries_after now x). e \<le> b" and "i \<in> set (ivs_intervals x)"
    and "now \<le> t" "t < e"
  shows "interval_active t i \<longleftrightarrow> interval_active now i"
proof -
  have "iv_start_ms i \<le> now \<or> e \<le> iv_start_ms i" "iv_end_ms i \<le> now \<or> e \<le> iv_end_ms i"
    using assms(1,2) by (auto simp: boundaries_after_def)
  with assms(3,4) show ?thesis by (auto simp: interval_active_def)
qed

lemma expires_at_ms_Some:
  assumes "expires_at_ms (PolicySnapshot s) ids mac issued now = Some e"
  shows "now < e" "e \<le> issued + cache_ttl_ms" "e \<le> snap_valid_until_ms s"
    "now \<le> t \<Longrightarrow> t < e \<Longrightarrow> (\<forall>i\<in>set ids. block_authorized s mac t i) \<and> no_transition s mac now t"
proof -
  let ?e0 = "min (saturating_add_i64 issued cache_ttl_ms) (snap_valid_until_ms s)"
  from assms obtain e1 where e1: "block_expiry s mac now ?e0 ids = Some e1"
    and e: "transition_expiry s now e1 (filter (has_transitions mac) (snap_policies s)) = Some e"
    and nn: "0 \<le> issued" "now < e"
    by (auto simp: expires_at_ms_def bind_eq_Some_conv split: if_splits)
  note b = block_expiry_Some [OF e1] and tr = transition_expiry_Some [OF e]
  show "now < e" by fact
  show "e \<le> issued + cache_ttl_ms" "e \<le> snap_valid_until_ms s"
    using b [of now] tr saturating_add_nonneg_le [of issued cache_ttl_ms] nn
    by (auto simp: cache_ttl_ms_def)
  show "(\<forall>i\<in>set ids. block_authorized s mac t i) \<and> no_transition s mac now t" if "now \<le> t" "t < e"
    using b [of t] tr that no_boundary_same_activity [OF _ _ that]
    unfolding no_transition_def by force
qed

interpretation endpoint_lease: verdict_lease
  "\<lambda>(s, ids, mac, issued) now. expires_at_ms (PolicySnapshot s) ids mac issued now"
  "\<lambda>(s, ids, mac, issued) now. min (issued + cache_ttl_ms) (snap_valid_until_ms s)"
  "\<lambda>(s, ids, mac, issued) now t. (\<forall>i\<in>set ids. block_authorized s mac t i) \<and> no_transition s mac now t"
  by unfold_locales (auto dest: expires_at_ms_Some)

lemma evaluate_Active_iff:
  "evaluate p (snap_schedule_intervals s) (Some t) (snap_valid_until_ms s) = Active \<longleftrightarrow>
     spec_schedule (entry_spec p) = None \<or>
     min_valid_clock_ms \<le> t \<and> t < snap_valid_until_ms s \<and>
     (\<exists>e. find (\<lambda>entry. ivs_policy_id entry = entry_id p) (snap_schedule_intervals s) = Some e \<and>
        (\<exists>i\<in>set (ivs_intervals e). interval_active t i))"
  by (auto simp: evaluate_def is_some_and_def split: option.splits)

section \<open>Properties\<close>

text \<open>C37. An endpoint block never outlives its justification: while it is leased, however often the
  lease was renewed, every policy it names is in force, is an application block and selects the
  client, no scheduled application policy of the client has changed between active and inactive
  since the last renewal, and the snapshot is still valid.\<close>

theorem endpoint_block_justified:
  assumes "\<exists>now\<in>set renewals. now \<le> t \<and>
      (\<exists>e. expires_at_ms (PolicySnapshot s) ids mac issued now = Some e \<and> t < e)"
  shows "(\<forall>i\<in>set ids. block_authorized s mac t i) \<and>
    (\<exists>now\<in>set renewals. now \<le> t \<and> no_transition s mac now t) \<and>
    t < snap_valid_until_ms s \<and> t < issued + cache_ttl_ms"
proof -
  have "endpoint_lease.in_lease (s, ids, mac, issued) renewals t"
    using assms by (simp add: endpoint_lease.in_lease_def)
  from endpoint_lease.in_lease_justified [OF this] endpoint_lease.in_lease_bound [OF this]
  show ?thesis by auto
qed

theorem endpoint_block_justified_witness:
  "block_authorized ex_snapshot ''02:00:00:00:00:01'' 6000 ''p1''"
proof -
  have "expires_at_ms (PolicySnapshot ex_snapshot) [''p1''] ''02:00:00:00:00:01'' 1000 5000 = Some 100000"
    by code_simp
  then show ?thesis
    using endpoint_block_justified [where renewals = "[5000]" and t = 6000 and s = ex_snapshot and
        ids = "[''p1'']" and mac = "''02:00:00:00:00:01''" and issued = 1000] by simp
qed



end
