(* ===== verification/Mac_Identity.thy ===== *)
theory Mac_Identity
  imports Policy_Wire
begin

text \<open>
  Client identities of the Agent: MAC addresses with their textual form
  (\<open>agent/src/identity.rs\<close>) and the resolution of a MAC address to the IP addresses of the
  neighbour table (\<open>agent/src/policy/identity.rs\<close>).
\<close>

section \<open>MAC addresses\<close>

text \<open>The six octets; \<open>from_bytes\<close> and \<open>from_str\<close> are the only constructors.\<close>

type_synonym mac_address = "u8 list"

datatype mac_address_parse_error = OctetCount nat | InvalidOctet string

definition mac_from_bytes :: "u8 list \<Rightarrow> mac_address_parse_error + mac_address" where
  "mac_from_bytes bytes = (if length bytes = 6 then Ok bytes else Err (OctetCount (length bytes)))"

definition is_unicast :: "mac_address \<Rightarrow> bool" where
  "is_unicast mac \<longleftrightarrow> mac \<noteq> replicate 6 0 \<and> unat (hd mac) mod 2 = 0"

text \<open>The loop over the parts: the octets read so far are the state, the number of them both the
  index and the count.\<close>

fun parse_octets :: "mac_address \<Rightarrow> string list \<Rightarrow> mac_address_parse_error + mac_address" where
  "parse_octets octets [] = Ok octets"
| "parse_octets octets (part # parts) =
     (if 6 \<le> length octets then Err (OctetCount (length octets + 1))
      else if length part \<noteq> 2 then Err (InvalidOctet part)
      else (case from_str_radix 256 16 part of
         None \<Rightarrow> Err (InvalidOctet part)
       | Some octet \<Rightarrow> parse_octets (octets @ [of_nat octet]) parts))"

definition mac_from_str :: "string \<Rightarrow> mac_address_parse_error + mac_address" where
  "mac_from_str value =
     and_then (parse_octets [] (split_on (CHR '':'') value)) (\<lambda>octets.
     if length octets \<noteq> 6 then Err (OctetCount (length octets)) else Ok octets)"

definition mac_to_string :: "mac_address \<Rightarrow> string" where
  "mac_to_string mac = join '':'' (map (\<lambda>octet. hex2 (unat octet)) mac)"

text \<open>The debug form of a string: quoted, with the escapes of ASCII text.\<close>

definition debug_char :: "char \<Rightarrow> string" where
  "debug_char c =
     (if c = CHR 0x22 then [CHR 0x5C, CHR 0x22]
      else if c = CHR 0x5C then [CHR 0x5C, CHR 0x5C]
      else if c = CHR 0x09 then [CHR 0x5C, CHR ''t'']
      else if c = CHR 0x0A then [CHR 0x5C, CHR ''n'']
      else if c = CHR 0x0D then [CHR 0x5C, CHR ''r'']
      else if c = CHR 0x00 then [CHR 0x5C, CHR ''0'']
      else if byte_val c < 32 \<or> byte_val c = 127
      then [CHR 0x5C, CHR ''u'', CHR ''{''] @ format_hex (byte_val c) @ ''}''
      else [c])"

definition debug_str :: "string \<Rightarrow> string" where
  "debug_str s = CHR 0x22 # concat (map debug_char s) @ [CHR 0x22]"

fun mac_error_text :: "mac_address_parse_error \<Rightarrow> string" where
  "mac_error_text (OctetCount n) = ''MAC address has '' @ format_dec n @ '' octets, expected 6''"
| "mac_error_text (InvalidOctet octet) = ''invalid MAC address octet '' @ debug_str octet"

section \<open>Client addresses\<close>

datatype ip_addr = IpV4 u32 | IpV6 "128 word"

text \<open>The derived order of \<open>IpAddr\<close>: IPv4 before IPv6, then by octets.\<close>

fun ip_rank :: "ip_addr \<Rightarrow> nat \<times> nat" where
  "ip_rank (IpV4 a) = (0, unat a)"
| "ip_rank (IpV6 a) = (1, unat a)"

lemma ip_rank_inject: "ip_rank a = ip_rank b \<Longrightarrow> a = b"
  by (cases a; cases b) (auto intro: unsigned_word_eqI)

instantiation ip_addr :: linorder
begin

definition less_eq_ip_addr :: "ip_addr \<Rightarrow> ip_addr \<Rightarrow> bool" where
  "less_eq_ip_addr a b \<longleftrightarrow> ip_rank a \<le> ip_rank b"

definition less_ip_addr :: "ip_addr \<Rightarrow> ip_addr \<Rightarrow> bool" where
  "less_ip_addr a b \<longleftrightarrow> ip_rank a < ip_rank b"

instance
  by intro_classes (auto simp: less_eq_ip_addr_def less_ip_addr_def ip_rank_inject)

end

datatype identity_error = Unresolved | Conflict

record client_addresses =
  ca_by_mac :: "string \<Rightarrow> ip_addr set option"
  ca_conflicts :: "ip_addr set"

definition insert_at :: "'k \<Rightarrow> 'v \<Rightarrow> ('k \<Rightarrow> 'v set option) \<Rightarrow> 'k \<Rightarrow> 'v set option" where
  "insert_at k v m = m(k \<mapsto> insert v (case m k of None \<Rightarrow> {} | Some s \<Rightarrow> s))"

definition from_neighbors :: "(string \<times> ip_addr) list \<Rightarrow> client_addresses" where
  "from_neighbors neighbors =
     (let lowered = map (\<lambda>(mac, ip). (to_ascii_lowercase mac, ip)) neighbors;
          by_mac = fold (\<lambda>(mac, ip). insert_at mac ip) lowered Map.empty;
          by_ip = fold (\<lambda>(mac, ip). insert_at ip mac) lowered Map.empty
      in \<lparr>ca_by_mac = by_mac,
          ca_conflicts =
            Set.filter (\<lambda>ip. case by_ip ip of None \<Rightarrow> False | Some macs \<Rightarrow> 1 < card macs)
              (snd ` set lowered)\<rparr>)"

definition resolve :: "client_addresses \<Rightarrow> string \<Rightarrow> identity_error + ip_addr list" where
  "resolve ca mac =
     (case ca_by_mac ca (to_ascii_lowercase mac) of
        None \<Rightarrow> Err Unresolved
      | Some addresses \<Rightarrow>
          if addresses \<inter> ca_conflicts ca \<noteq> {} then Err Conflict
          else if addresses = {} then Err Unresolved
          else Ok (sorted_list_of_set addresses))"

section \<open>Lemmas\<close>

lemma parse_octets_map:
  "length acc + length ms \<le> 6 \<Longrightarrow> parse_octets acc (map (\<lambda>m. hex2 (unat m)) ms) = Ok (acc @ ms)"
  by (induction ms arbitrary: acc) (auto simp: from_str_radix_hex2 unat_u8_less)

lemma hex_digit_not_colon: "d < 16 \<Longrightarrow> hex_digit d \<noteq> CHR '':''"
  using is_lower_hex_hex_digit [of d] by (auto simp: is_lower_hex_def is_ascii_digit_def less_eq_char_def)

lemma hex2_no_colon: "b < 256 \<Longrightarrow> CHR '':'' \<notin> set (hex2 b)"
  using hex_digit_not_colon [of "b div 16"] hex_digit_not_colon [of "b mod 16"]
  by (auto simp: hex2_def less_mult_imp_div_less)

lemma split_on_no: "c \<notin> set p \<Longrightarrow> split_on c p = [p]"
  by (induction p) auto

lemma split_on_append: "c \<notin> set p \<Longrightarrow> split_on c (p @ c # s) = p # split_on c s"
  by (induction p) auto

lemma split_on_join:
  "xs \<noteq> [] \<Longrightarrow> (\<And>x. x \<in> set xs \<Longrightarrow> c \<notin> set x) \<Longrightarrow> split_on c (join [c] xs) = xs"
  by (induction xs rule: induct_list012) (auto simp: split_on_no split_on_append)

lemma mac_from_to_string: "length m = 6 \<Longrightarrow> mac_from_str (mac_to_string m) = Ok m"
  unfolding mac_from_str_def mac_to_string_def
  by (subst split_on_join) (auto simp: parse_octets_map [of "[]", simplified] hex2_no_colon unat_u8_less)

lemma upper_hex_digit:
  assumes "is_ascii_digit c \<or> CHR ''A'' \<le> c \<and> c \<le> CHR ''F''"
  obtains d where "d < 16" "digit_val 16 c = Some d" "ascii_upper_char (hex_digit d) = c"
    "c \<noteq> CHR ''+''" "c \<noteq> CHR '':''"
proof -
  have c: "c = char_of (byte_val c)" by (simp add: byte_val_def)
  have "byte_val c \<in> {48..<58} \<union> {65..<71}"
    using assms by (auto simp: is_ascii_digit_def less_eq_char_def byte_val_def)
  then have "byte_val c \<in> set ([48..<58] @ [65..<71])" by (simp only: set_upt set_append)
  moreover have "\<forall>n\<in>set ([48..<58] @ [65..<71]). \<exists>d\<in>{0..<16}. digit_val 16 (char_of n) = Some d \<and>
      ascii_upper_char (hex_digit d) = char_of n \<and> char_of n \<noteq> CHR ''+'' \<and> char_of n \<noteq> CHR '':''"
    by code_simp
  ultimately obtain d where "d \<in> {0..<16}" "digit_val 16 (char_of (byte_val c)) = Some d"
      "ascii_upper_char (hex_digit d) = char_of (byte_val c)" "char_of (byte_val c) \<noteq> CHR ''+''"
      "char_of (byte_val c) \<noteq> CHR '':''" by blast
  then show thesis using that [of d] unfolding c [symmetric] by simp
qed

lemma upper_hex_octet:
  assumes "is_ascii_digit a \<or> CHR ''A'' \<le> a \<and> a \<le> CHR ''F''"
    and "is_ascii_digit b \<or> CHR ''A'' \<le> b \<and> b \<le> CHR ''F''"
  obtains n where "n < 256" "from_str_radix 256 16 [a, b] = Some n"
    "to_ascii_uppercase (hex2 n) = [a, b]" "CHR '':'' \<notin> set [a, b]"
proof -
  obtain d where d: "d < 16" "digit_val 16 a = Some d" "ascii_upper_char (hex_digit d) = a"
    "a \<noteq> CHR ''+''" "a \<noteq> CHR '':''" by (rule upper_hex_digit [OF assms(1)])
  obtain e where e: "e < 16" "digit_val 16 b = Some e" "ascii_upper_char (hex_digit e) = b"
    "b \<noteq> CHR ''+''" "b \<noteq> CHR '':''" by (rule upper_hex_digit [OF assms(2)])
  show thesis
    using d e
    by (intro that [of "16 * d + e"])
      (auto simp: from_str_radix_def hex2_def to_ascii_uppercase_def)
qed

lemma upper_hex_octet_ex:
  assumes "is_ascii_digit a \<or> CHR ''A'' \<le> a \<and> a \<le> CHR ''F''"
    and "is_ascii_digit b \<or> CHR ''A'' \<le> b \<and> b \<le> CHR ''F''"
  shows "\<exists>n<256. from_str_radix 256 16 [a, b] = Some n \<and> to_ascii_uppercase (hex2 n) = [a, b] \<and>
        CHR '':'' \<notin> set [a, b] \<and> length [a, b] = 2"
  by (rule upper_hex_octet [OF assms]) auto

lemma list_17_conv:
  assumes "length s = 17"
  obtains a b c d e f g h i j k l m n p q r where
    "s = [a, b, c, d, e, f, g, h, i, j, k, l, m, n, p, q, r]"
  using assms by (auto simp: eval_nat_numeral length_Suc_conv)

lemma valid_mac_parts:
  assumes "valid_mac s"
  obtains ps where "s = join '':'' ps" "length ps = 6" "\<And>p. p \<in> set ps \<Longrightarrow> \<exists>n<256.
      from_str_radix 256 16 p = Some n \<and> to_ascii_uppercase (hex2 n) = p \<and> CHR '':'' \<notin> set p \<and> length p = 2"
proof -
  have "length s = 17" using assms by (simp add: valid_mac_def)
  then obtain a b c d e f g h i j k l m n p q r where
    s: "s = [a, b, c, d, e, f, g, h, i, j, k, l, m, n, p, q, r]" by (rule list_17_conv)
  let ?U = "\<lambda>x. is_ascii_digit x \<or> CHR ''A'' \<le> x \<and> x \<le> CHR ''F''"
  have "(?U a \<and> ?U b \<and> ?U d \<and> ?U e \<and> ?U g \<and> ?U h \<and> ?U j \<and> ?U k \<and> ?U m \<and> ?U n \<and> ?U q \<and> ?U r) \<and>
      c = CHR '':'' \<and> f = CHR '':'' \<and> i = CHR '':'' \<and> l = CHR '':'' \<and> p = CHR '':''"
    using assms by (simp add: valid_mac_def s)
  then have u: "?U a" "?U b" "?U d" "?U e" "?U g" "?U h" "?U j" "?U k" "?U m" "?U n" "?U q" "?U r"
    and c: "c = CHR '':''" "f = CHR '':''" "i = CHR '':''" "l = CHR '':''" "p = CHR '':''"
    by - (elim conjE, assumption)+
  show thesis
  proof (rule that [of "[[a, b], [d, e], [g, h], [j, k], [m, n], [q, r]]"])
    show "s = join '':'' [[a, b], [d, e], [g, h], [j, k], [m, n], [q, r]]" by (simp add: s c)
    fix x assume "x \<in> set [[a, b], [d, e], [g, h], [j, k], [m, n], [q, r]]"
    then show "\<exists>n<256. from_str_radix 256 16 x = Some n \<and> to_ascii_uppercase (hex2 n) = x \<and>
        CHR '':'' \<notin> set x \<and> length x = 2"
      by (simp only: set_simps insert_iff empty_iff, elim disjE FalseE)
        (simp_all only: upper_hex_octet_ex u)
  qed simp
qed

lemma parse_octets_parts:
  assumes "\<And>p. p \<in> set ps \<Longrightarrow> \<exists>n<256. from_str_radix 256 16 p = Some n \<and>
      to_ascii_uppercase (hex2 n) = p \<and> length p = 2"
    and "length acc + length ps \<le> 6"
  shows "\<exists>ms. parse_octets acc ps = Ok (acc @ ms) \<and>
    map (\<lambda>m. to_ascii_uppercase (hex2 (unat m))) ms = ps"
  using assms
proof (induction ps arbitrary: acc)
  case (Cons p ps)
  obtain n where n: "n < 256" "from_str_radix 256 16 p = Some n" "to_ascii_uppercase (hex2 n) = p" "length p = 2"
    using Cons.prems(1) [of p] by auto
  obtain ms where "parse_octets (acc @ [of_nat n]) ps = Ok ((acc @ [of_nat n]) @ ms)"
    "map (\<lambda>m. to_ascii_uppercase (hex2 (unat m))) ms = ps"
    using Cons.IH [of "acc @ [of_nat n]"] Cons.prems by auto
  moreover have "unat (of_nat n :: u8) = n" using n(1) by (simp add: unat_of_nat)
  ultimately show ?case
    using n Cons.prems(2) by (intro exI [of _ "of_nat n # ms"]) auto
qed simp

lemma to_ascii_uppercase_join:
  "to_ascii_uppercase (join '':'' ps) = join '':'' (map to_ascii_uppercase ps)"
  by (induction ps rule: induct_list012)
    (auto simp: to_ascii_uppercase_def ascii_upper_char_def is_ascii_lower_def)

lemma mac_from_valid:
  assumes "valid_mac s"
  shows "\<exists>m. mac_from_str s = Ok m \<and> length m = 6 \<and> to_ascii_uppercase (mac_to_string m) = s"
proof -
  obtain ps where ps: "s = join '':'' ps" "length ps = 6" "\<And>p. p \<in> set ps \<Longrightarrow> \<exists>n<256.
      from_str_radix 256 16 p = Some n \<and> to_ascii_uppercase (hex2 n) = p \<and> CHR '':'' \<notin> set p \<and> length p = 2"
    by (rule valid_mac_parts [OF assms]) blast
  then obtain ms where ms: "parse_octets [] ps = Ok ms"
    "map (\<lambda>m. to_ascii_uppercase (hex2 (unat m))) ms = ps"
    using parse_octets_parts [of ps "[]"] by fastforce
  have "split_on (CHR '':'') s = ps"
    using ps by (auto intro!: split_on_join simp: ps(1))
  moreover have "length ms = 6" using ms(2) ps(2) by (metis length_map)
  ultimately show ?thesis
    using ms ps(1) by (auto simp: mac_from_str_def mac_to_string_def to_ascii_uppercase_join comp_def)
qed

section \<open>Client addresses\<close>

lemma fold_insert_at:
  "fold (\<lambda>(k, v). insert_at k v) xs m k =
     (if m k = None \<and> k \<notin> fst ` set xs then None
      else Some ((case m k of None \<Rightarrow> {} | Some s \<Rightarrow> s) \<union> {v. (k, v) \<in> set xs}))"
proof (induction xs arbitrary: m)
  case Nil
  then show ?case by (cases "m k") auto
next
  case (Cons x xs)
  obtain a b where x: "x = (a, b)" by (cases x)
  show ?case
    unfolding x fold_simps comp_def prod.case Cons.IH [of "insert_at a b m"]
    by (cases "m k"; cases "k = a") (auto simp: insert_at_def)
qed

lemma fold_insert_at_swap:
  "fold (\<lambda>(k, v). insert_at v k) xs m = fold (\<lambda>(k, v). insert_at k v) (map (\<lambda>(k, v). (v, k)) xs) m"
  by (induction xs arbitrary: m) auto

lemma finite_values: "finite {v. (k, v) \<in> set xs}"
  by (rule finite_subset [of _ "snd ` set xs"]) force+

lemma card_gt_1: "finite A \<Longrightarrow> 1 < card A \<longleftrightarrow> (\<exists>x\<in>A. \<exists>y\<in>A. x \<noteq> y)"
  by (metis (no_types, lifting) card_le_Suc0_iff_eq One_nat_def not_le)

abbreviation lowered :: "(string \<times> ip_addr) list \<Rightarrow> (string \<times> ip_addr) list" where
  "lowered ns \<equiv> map (\<lambda>(mac, ip). (to_ascii_lowercase mac, ip)) ns"

lemma from_neighbors_by_mac:
  "ca_by_mac (from_neighbors ns) mac =
     (if mac \<in> fst ` set (lowered ns) then Some {ip. (mac, ip) \<in> set (lowered ns)} else None)"
  by (simp add: from_neighbors_def Let_def fold_insert_at)

lemma more_than_one_value:
  "k \<in> fst ` set xs \<and> 1 < card {v. (k, v) \<in> set xs} \<longleftrightarrow>
     (\<exists>a b. (k, a) \<in> set xs \<and> (k, b) \<in> set xs \<and> a \<noteq> b)"
  unfolding card_gt_1 [OF finite_values] by force

lemma from_neighbors_conflicts:
  "ip \<in> ca_conflicts (from_neighbors ns) \<longleftrightarrow>
     (\<exists>a b. (a, ip) \<in> set (lowered ns) \<and> (b, ip) \<in> set (lowered ns) \<and> a \<noteq> b)"
proof -
  let ?sw = "map (\<lambda>(k, v). (v, k)) (lowered ns)"
  have "ip \<in> ca_conflicts (from_neighbors ns) \<longleftrightarrow>
      ip \<in> fst ` set ?sw \<and> 1 < card {m. (ip, m) \<in> set ?sw}"
    unfolding from_neighbors_def Let_def client_addresses.simps fold_insert_at_swap fold_insert_at
    by (auto simp: image_image split_def)
  moreover have "(ip, m) \<in> set ?sw \<longleftrightarrow> (m, ip) \<in> set (lowered ns)" for m by force
  ultimately show ?thesis unfolding more_than_one_value by simp
qed

lemma claimed_twice:
  "{ip. (l, ip) \<in> set (lowered ns)} \<inter> ca_conflicts (from_neighbors ns) = {} \<longleftrightarrow>
     (\<forall>ip. (l, ip) \<in> set (lowered ns) \<longrightarrow> (\<forall>m. (m, ip) \<in> set (lowered ns) \<longrightarrow> m = l))"
  unfolding disjoint_iff mem_Collect_eq from_neighbors_conflicts by blast

lemma sorted_list_of_set_iff:
  "finite A \<Longrightarrow> xs = sorted_list_of_set A \<longleftrightarrow> sorted xs \<and> distinct xs \<and> set xs = A"
  by (auto intro: sorted_distinct_set_unique)

section \<open>Properties\<close>

text \<open>Every client selector of a valid policy names exactly one MAC address for the Agent: it
  parses, prints back as the same text up to case, and no two selectors name the same address; and
  printing and parsing an address are inverse.\<close>

theorem selector_mac_identity:
  assumes "valid_mac s"
  shows "\<exists>m. mac_from_str s = Ok m \<and> mac_from_str (mac_to_string m) = Ok m \<and>
    to_ascii_uppercase (mac_to_string m) = s \<and>
    (\<forall>s'. valid_mac s' \<and> mac_from_str s' = Ok m \<longrightarrow> s' = s)"
proof -
  obtain m where m: "mac_from_str s = Ok m" "length m = 6" "to_ascii_uppercase (mac_to_string m) = s"
    using mac_from_valid [OF assms] by blast
  moreover have "s' = s" if "valid_mac s'" "mac_from_str s' = Ok m" for s'
    using mac_from_valid [OF that(1)] that(2) m(3) by auto
  ultimately show ?thesis using mac_from_to_string by blast
qed

theorem selector_mac_identity_witness:
  "\<exists>m. mac_from_str ''02:00:00:00:00:0A'' = Ok m \<and>
    to_ascii_uppercase (mac_to_string m) = ''02:00:00:00:00:0A''"
proof -
  have "valid_mac ''02:00:00:00:00:0A''" by code_simp
  from selector_mac_identity [OF this] show ?thesis by blast
qed

text \<open>Resolving a client never guesses: it yields addresses exactly when the neighbour table has
  an entry for the MAC address and none of its addresses is also claimed by another MAC address; it
  then yields all of them, each once, in order.\<close>

theorem resolve_exact:
  "resolve (from_neighbors ns) mac = Ok addrs \<longleftrightarrow>
     addrs \<noteq> [] \<and> sorted addrs \<and> distinct addrs \<and>
     set addrs = {ip. \<exists>m. (m, ip) \<in> set ns \<and> eq_ignore_ascii_case m mac} \<and>
     (\<forall>ip\<in>set addrs. \<forall>(m, ip')\<in>set ns. ip' = ip \<longrightarrow> eq_ignore_ascii_case m mac)"
proof -
  let ?l = "to_ascii_lowercase mac"
  let ?A = "{ip. (?l, ip) \<in> set (lowered ns)}"
  have A: "?A = {ip. \<exists>m. (m, ip) \<in> set ns \<and> eq_ignore_ascii_case m mac}"
    by (force simp: eq_ignore_ascii_case_def)
  have fin: "finite ?A" by (rule finite_values)
  have dom: "?l \<in> fst ` set (lowered ns) \<longleftrightarrow> ?A \<noteq> {}" by force
  have "resolve (from_neighbors ns) mac = Ok addrs \<longleftrightarrow>
      ?A \<noteq> {} \<and> ?A \<inter> ca_conflicts (from_neighbors ns) = {} \<and> addrs = sorted_list_of_set ?A"
    using dom by (auto simp: resolve_def from_neighbors_by_mac)
  also have "?A \<inter> ca_conflicts (from_neighbors ns) = {} \<longleftrightarrow>
      (\<forall>ip\<in>?A. \<forall>(m, ip')\<in>set ns. ip' = ip \<longrightarrow> eq_ignore_ascii_case m mac)"
    unfolding claimed_twice by (fastforce simp: eq_ignore_ascii_case_def)
  finally have eq: "resolve (from_neighbors ns) mac = Ok addrs \<longleftrightarrow>
      ?A \<noteq> {} \<and> (\<forall>ip\<in>?A. \<forall>(m, ip')\<in>set ns. ip' = ip \<longrightarrow> eq_ignore_ascii_case m mac) \<and>
      sorted addrs \<and> distinct addrs \<and> set addrs = ?A"
    unfolding sorted_list_of_set_iff [OF fin] .
  show ?thesis unfolding eq A [symmetric] using set_empty [of addrs] by metis
qed

theorem resolve_exact_witness:
  "resolve (from_neighbors [(''aa'', IpV4 1), (''bb'', IpV4 2)]) ''AA'' = Ok [IpV4 1]"
proof -
  have "eq_ignore_ascii_case ''aa'' ''AA''" "\<not> eq_ignore_ascii_case ''bb'' ''AA''" by code_simp+
  then show ?thesis unfolding resolve_exact by auto
qed

end
