(* ===== verification/Slot_Allocation.thy ===== *)
theory Slot_Allocation
  imports Netqmon_Prelude
begin

text \<open>
  The scheme the Agent uses wherever it hands out class slots and tags: keys that hold a slot keep it,
  and every other key takes the first free candidate of its own probe sequence. The locale
  \<open>probe_allocation\<close> states what a probe sequence has to provide; the priority slots and the
  tags and class identifiers of the shaper are its interpretations. A \<open>BTreeMap\<close> is the list of
  its insertions, newest first.
\<close>

section \<open>Ordered maps\<close>

type_synonym ('k, 'v) btree_map = "('k \<times> 'v) list"

definition bt_values :: "('k::linorder, 'v) btree_map \<Rightarrow> 'v list" where
  "bt_values m = map (the \<circ> map_of m) (sorted_list_of_set (fst ` set m))"

lemma set_bt_values: "set (bt_values m) = ran (map_of m)"
proof -
  have "v \<in> set (bt_values m) \<longleftrightarrow> (\<exists>k\<in>dom (map_of m). v = the (map_of m k))" for v
    by (auto simp: bt_values_def dom_map_of_conv_image_fst)
  then show ?thesis by (auto simp: ran_def dom_def) force+
qed

lemma distinct_bt_values:
  assumes "inj_on (f \<circ> the \<circ> map_of m) (dom (map_of m))"
  shows "distinct (map f (bt_values m))"
  using assms by (simp add: bt_values_def distinct_map dom_map_of_conv_image_fst o_assoc)

section \<open>Probing\<close>

definition probe :: "'s list \<Rightarrow> 's set \<Rightarrow> 's option" where
  "probe candidates occupied = find (\<lambda>s. s \<notin> occupied) candidates"

text \<open>The body of the allocation loop for one key.\<close>

definition assign_step ::
  "('k \<Rightarrow> 's list) \<Rightarrow> ('k \<Rightarrow> 's \<Rightarrow> 'v) \<Rightarrow> string \<Rightarrow> 's set \<times> ('k, 'v) btree_map \<Rightarrow> 'k \<Rightarrow>
    ('s set \<times> ('k, 'v) btree_map) res" where
  "assign_step candidates mk err state key =
     (let (occupied, assigned) = state in
      if map_of assigned key \<noteq> None then Ok (occupied, assigned)
      else and_then (ok_or err (probe (candidates key) occupied)) (\<lambda>s.
        Ok (insert s occupied, (key, mk key s) # assigned)))"

lemma probe_Some: "probe cs occ = Some s \<Longrightarrow> s \<in> set cs \<and> s \<notin> occ"
  by (auto simp: probe_def dest: find_Some_iff_dest)

lemma probe_None: "probe cs occ = None \<longleftrightarrow> set cs \<subseteq> occ"
  by (auto simp: probe_def find_None_iff)

text \<open>
  Every key probes the whole of its universe. A state is consistent when different keys hold
  different slots, and every slot held is of the key's universe and marked as occupied.
\<close>

locale probe_allocation =
  fixes candidates :: "'k \<Rightarrow> 's list" and universe :: "'k \<Rightarrow> 's set"
    and mk :: "'k \<Rightarrow> 's \<Rightarrow> 'v" and slot_of :: "'k \<Rightarrow> 'v \<Rightarrow> 's"
  assumes candidates_universe: "set (candidates k) = universe k"
    and slot_of_mk: "slot_of k (mk k s) = s"
begin

definition consistent :: "'s set \<times> ('k, 'v) btree_map \<Rightarrow> bool" where
  "consistent st \<longleftrightarrow> inj_on (\<lambda>k. slot_of k (the (map_of (snd st) k))) (dom (map_of (snd st))) \<and>
     (\<forall>k v. map_of (snd st) k = Some v \<longrightarrow> slot_of k v \<in> universe k \<and> slot_of k v \<in> fst st)"

lemma step_Ok:
  assumes "assign_step candidates mk err st k = Ok st'"
  shows "(\<exists>v. map_of (snd st) k = Some v) \<and> st' = st \<or>
    map_of (snd st) k = None \<and> (\<exists>s. s \<in> universe k \<and> s \<notin> fst st \<and>
      st' = (insert s (fst st), (k, mk k s) # snd st))"
  using assms candidates_universe
  by (auto simp: assign_step_def split_def res_simps dest: probe_Some split: if_splits)

lemma step_consistent:
  assumes "assign_step candidates mk err st k = Ok st'" and "consistent st"
  shows "consistent st' \<and> map_of (snd st) \<subseteq>\<^sub>m map_of (snd st') \<and>
    dom (map_of (snd st')) = insert k (dom (map_of (snd st)))"
proof (cases "map_of (snd st) k")
  case (Some v)
  with step_Ok [OF assms(1)] assms(2) show ?thesis by (auto simp: insert_absorb)
next
  case None
  with step_Ok [OF assms(1)] obtain s where s: "s \<in> universe k" "s \<notin> fst st"
    and st': "st' = (insert s (fst st), (k, mk k s) # snd st)" by auto
  let ?f = "\<lambda>k. slot_of k (the (map_of (snd st) k))"
  have inj: "inj_on ?f (dom (map_of (snd st)))"
    and held: "\<And>k v. map_of (snd st) k = Some v \<Longrightarrow> slot_of k v \<in> universe k \<and> slot_of k v \<in> fst st"
    using assms(2) by (auto simp: consistent_def)
  have "inj_on (\<lambda>k'. slot_of k' (the (map_of (snd st') k'))) (insert k (dom (map_of (snd st))))"
    using inj held s None
    by (auto simp: st' inj_on_def slot_of_mk domIff) 
  with held s None show ?thesis
    by (auto simp: st' consistent_def slot_of_mk map_le_def)
qed

lemma all_consistent:
  assumes "try_fold (assign_step candidates mk err) st ks = Ok st'" and "consistent st"
  shows "consistent st' \<and> map_of (snd st) \<subseteq>\<^sub>m map_of (snd st') \<and>
    dom (map_of (snd st')) = set ks \<union> dom (map_of (snd st))"
  using assms
proof (induction ks arbitrary: st)
  case (Cons k ks)
  then obtain st1 where 1: "assign_step candidates mk err st k = Ok st1"
    "try_fold (assign_step candidates mk err) st1 ks = Ok st'" by (auto simp: res_simps)
  from step_consistent [OF 1(1) Cons.prems(2)] Cons.IH [OF 1(2)] show ?case
    by (auto intro: map_le_trans)
qed simp

text \<open>New keys hold freshly made values.\<close>

lemma all_new:
  assumes "try_fold (assign_step candidates mk err) st ks = Ok st'" and "map_of (snd st') k = Some v"
  shows "map_of (snd st) k = Some v \<or> k \<in> set ks \<and> (\<exists>s. v = mk k s)"
  using assms
proof (induction ks arbitrary: st)
  case (Cons k' ks)
  then obtain st1 where 1: "assign_step candidates mk err st k' = Ok st1"
    "try_fold (assign_step candidates mk err) st1 ks = Ok st'" by (auto simp: res_simps)
  have "map_of (snd st) k = Some v \<or> k = k' \<and> (\<exists>s. v = mk k s)" if "map_of (snd st1) k = Some v"
    using step_Ok [OF 1(1)] that by (auto simp: slot_of_mk split: if_splits)
  with Cons.IH [OF 1(2) Cons.prems(2)] show ?case by auto
qed simp

lemma consistent_card:
  assumes "consistent st" and "\<And>k. k \<in> dom (map_of (snd st)) \<Longrightarrow> universe k = U" and "finite U"
  shows "card (dom (map_of (snd st))) \<le> card U"
proof (rule card_inj_on_le)
  show "inj_on (\<lambda>k. slot_of k (the (map_of (snd st) k))) (dom (map_of (snd st)))"
    using assms(1) by (simp add: consistent_def)
  show "(\<lambda>k. slot_of k (the (map_of (snd st) k))) ` dom (map_of (snd st)) \<subseteq> U"
    using assms(1,2) by (force simp: consistent_def dom_def)
qed (rule assms(3))

text \<open>Probing a common universe succeeds as long as it has room for the keys without a slot.\<close>

lemma all_total:
  assumes "\<And>k. k \<in> set ks \<Longrightarrow> universe k = U"
    and "card (fst st \<inter> U) + card (set ks - dom (map_of (snd st))) \<le> card U"
  shows "\<exists>st'. try_fold (assign_step candidates mk err) st ks = Ok st'"
  using assms
proof (induction ks arbitrary: st)
  case (Cons k ks)
  let ?m = "map_of (snd st)"
  have U: "set (candidates k) = U" and finU: "finite U"
    using Cons.prems(1) [of k] candidates_universe [of k] by (auto simp: finite_set [of "candidates k", simplified candidates_universe])
  show ?case
  proof (cases "?m k")
    case (Some v)
    then have "assign_step candidates mk err st k = Ok st"
      and "set (k # ks) - dom ?m = set ks - dom ?m" by (auto simp: assign_step_def split_def)
    with Cons.IH [of st] Cons.prems show ?thesis by simp
  next
    case None
    then have eq: "set (k # ks) - dom ?m = insert k (set ks - insert k (dom ?m))" by auto
    have card: "card (set (k # ks) - dom ?m) = Suc (card (set ks - insert k (dom ?m)))"
      unfolding eq by (rule card_insert_disjoint) auto
    have "\<not> U \<subseteq> fst st"
      using Cons.prems(2) card by (auto simp: Int_absorb1)
    then obtain s where s: "probe (candidates k) (fst st) = Some s"
      using probe_None [of "candidates k" "fst st"] U by auto
    with U have "s \<in> U" "s \<notin> fst st" by (auto dest: probe_Some)
    then have "card (insert s (fst st) \<inter> U) = Suc (card (fst st \<inter> U))"
      using finU by (simp add: Int_insert_left)
    moreover have "dom (map_of ((k, mk k s) # snd st)) = insert k (dom ?m)" by auto
    ultimately have "\<exists>st'. try_fold (assign_step candidates mk err)
        (insert s (fst st), (k, mk k s) # snd st) ks = Ok st'"
      using Cons.prems card by (intro Cons.IH) (simp_all del: map_of.simps)
    with None s show ?thesis by (simp add: assign_step_def [of _ _ _ st k] split_def)
  qed
qed simp

end

end
