(* ===== verification/Priority_Selection.thy ===== *)
theory Priority_Selection
  imports Agent_Schedule Mac_Identity Slot_Allocation
begin

text \<open>
  Policy selection of the priority backend (\<open>agent/src/policy/priority_selection.rs\<close>): from a
  snapshot and the clock, the clients that need a class, their aggregate and application budgets, and
  the clients that are blocked.
\<close>

section \<open>State\<close>

record total_rates =
  tr_upload_bps :: "u64 option"
  tr_download_bps :: "u64 option"
  tr_policy_ids :: "string set"

record application_rates =
  ar_mac :: string
  ar_policy_id :: string
  ar_upload_bps :: "u64 option"
  ar_download_bps :: "u64 option"

record priority_selection =
  ps_totals :: "(string, total_rates) btree_map"
  ps_application_limits :: "application_rates list"
  ps_clients :: "string set"
  ps_blocked_macs :: "string set"
  ps_results :: "policy_result list"
  ps_next_transition_ms :: "int option"

definition empty_selection :: priority_selection where
  "empty_selection = \<lparr>ps_totals = [], ps_application_limits = [], ps_clients = {}, ps_blocked_macs = {},
     ps_results = [], ps_next_transition_ms = None\<rparr>"

section \<open>The shapes of policies\<close>

abbreviation clients_of :: "policy_snapshot_entry \<Rightarrow> string list" where
  "clients_of policy \<equiv> sel_clients (spec_selectors (entry_spec policy))"

abbreviation action_of :: "policy_snapshot_entry \<Rightarrow> policy_action" where
  "action_of policy \<equiv> spec_action (entry_spec policy)"

definition application_shape :: "policy_action_kind \<Rightarrow> policy_snapshot_entry \<Rightarrow> bool" where
  "application_shape kind policy \<longleftrightarrow>
     act_kind (action_of policy) = kind \<and>
     net_scope (spec_network (entry_spec policy)) = ''internet'' \<and>
     clients_of policy \<noteq> [] \<and> is_application_policy policy"

definition internet_decision :: "policy_snapshot_entry \<Rightarrow> bool" where
  "internet_decision policy \<longleftrightarrow>
     net_scope (spec_network (entry_spec policy)) = ''internet'' \<and>
     net_direction (spec_network (entry_spec policy)) = ''both'' \<and>
     clients_of policy \<noteq> [] \<and>
     sel_applications (spec_selectors (entry_spec policy)) = [] \<and>
     sel_categories (spec_selectors (entry_spec policy)) = [] \<and>
     act_kind (action_of policy) \<in> {ActionBlock, ActionAllow}"

definition total_shape :: "policy_snapshot_entry \<Rightarrow> bool" where
  "total_shape policy = is_client_total_spec (entry_spec policy)"

section \<open>Selection\<close>

fun rate_min :: "u64 option \<Rightarrow> u64 option \<Rightarrow> u64 option" where
  "rate_min (Some a) (Some b) = Some (min a b)"
| "rate_min a None = a"
| "rate_min None b = b"

definition add_total ::
  "policy_snapshot_entry \<Rightarrow> string \<Rightarrow> (string, total_rates) btree_map \<Rightarrow> (string, total_rates) btree_map" where
  "add_total policy mac totals =
     (let rates = (case map_of totals mac of
            None \<Rightarrow> \<lparr>tr_upload_bps = None, tr_download_bps = None, tr_policy_ids = {}\<rparr>
          | Some rates \<Rightarrow> rates)
      in (mac, \<lparr>tr_upload_bps = rate_min (tr_upload_bps rates) (act_upload_bps (action_of policy)),
           tr_download_bps = rate_min (tr_download_bps rates) (act_download_bps (action_of policy)),
           tr_policy_ids = insert (entry_id policy) (tr_policy_ids rates)\<rparr>) # totals)"

definition client_key :: "string \<Rightarrow> string res" where
  "client_key client =
     and_then (map_err mac_error_text (mac_from_str client)) (\<lambda>mac.
     if \<not> is_unicast mac then Err ''priority_identity_invalid'' else Ok (mac_to_string mac))"

text \<open>The effect of an active policy on one client; the state holds the selection and the decided
  clients.\<close>

definition note_client ::
  "policy_snapshot_entry \<Rightarrow> priority_selection \<times> string set \<Rightarrow> string \<Rightarrow> priority_selection \<times> string set" where
  "note_client policy state mac =
     (let (selection, decided) = state;
          selected = selection\<lparr>ps_clients := insert mac (ps_clients selection)\<rparr>
      in if total_shape policy
         then (selected\<lparr>ps_totals := add_total policy mac (ps_totals selection)\<rparr>, decided)
         else if application_shape ActionLimit policy
         then (selected\<lparr>ps_application_limits := ps_application_limits selection @
                [\<lparr>ar_mac = mac, ar_policy_id = entry_id policy,
                  ar_upload_bps = act_upload_bps (action_of policy),
                  ar_download_bps = act_download_bps (action_of policy)\<rparr>]\<rparr>, decided)
         else if application_shape ActionBlock policy then (selected, decided)
         else if application_shape ActionAllow policy then (selected, decided)
         else if mac \<notin> decided \<and> act_kind (action_of policy) = ActionBlock
         then (selected\<lparr>ps_blocked_macs := insert mac (ps_blocked_macs selection)\<rparr>, insert mac decided)
         else (selection, insert mac decided))"

definition select_client ::
  "policy_snapshot_entry \<Rightarrow> priority_selection \<times> string set \<Rightarrow> string \<Rightarrow>
    (priority_selection \<times> string set) res" where
  "select_client policy state client = and_then (client_key client) (\<lambda>mac. Ok (note_client policy state mac))"

definition next_transition :: "int option \<Rightarrow> int list \<Rightarrow> int option" where
  "next_transition = foldl (\<lambda>next transition. Some (case next of None \<Rightarrow> transition | Some old \<Rightarrow> min old transition))"

definition note_transitions ::
  "policy_snapshot \<Rightarrow> int option \<Rightarrow> priority_selection \<Rightarrow> policy_snapshot_entry \<Rightarrow> priority_selection res" where
  "note_transitions s now_ms selection policy =
     (if spec_schedule (entry_spec policy) = None then Ok selection
      else and_then (ok_or ''schedule_window_missing''
             (find (\<lambda>entry. ivs_policy_id entry = entry_id policy) (snap_schedule_intervals s))) (\<lambda>intervals.
           and_then (ok_or ''clock_invalid''
             (case now_ms of None \<Rightarrow> None | Some now \<Rightarrow> if min_valid_clock_ms \<le> now then Some now else None)) (\<lambda>now.
           Ok (selection\<lparr>ps_next_transition_ms := next_transition (ps_next_transition_ms selection)
             (filter (\<lambda>transition. transition > now)
               (concat (map (\<lambda>interval. [iv_start_ms interval, iv_end_ms interval]) (ivs_intervals intervals)) @
                [snap_valid_until_ms s]))\<rparr>))))"

definition policy_outcome ::
  "policy_snapshot_entry \<Rightarrow> policy_result_status \<Rightarrow> string option \<Rightarrow> string option \<Rightarrow> policy_result" where
  "policy_outcome policy status reason message =
     \<lparr>res_policy_id = entry_id policy, res_status = status, res_reason_code = reason,
      res_message = message, res_details = None\<rparr>"

abbreviation push_result :: "policy_result \<Rightarrow> priority_selection \<Rightarrow> priority_selection" where
  "push_result result selection \<equiv> selection\<lparr>ps_results := ps_results selection @ [result]\<rparr>"

text \<open>A policy of a known shape, by the state of its schedule.\<close>

definition apply_policy ::
  "policy_snapshot \<Rightarrow> int option \<Rightarrow> policy_snapshot_entry \<Rightarrow> string set \<Rightarrow> priority_selection \<Rightarrow>
    (priority_selection \<times> string set) res" where
  "apply_policy s now_ms policy decided selection =
     (case evaluate policy (snap_schedule_intervals s) now_ms (snap_valid_until_ms s) of
        ClockInvalid \<Rightarrow> Err ''clock_invalid''
      | Expired \<Rightarrow> Ok (push_result (policy_outcome policy ResultFailed (Some ''schedule_expired'')
          (Some ''the Collector schedule window has expired'')) selection, decided)
      | Inactive \<Rightarrow> Ok (push_result (policy_outcome policy ResultApplied None None) selection, decided)
      | Active \<Rightarrow>
          and_then (try_fold (select_client policy) (selection, decided) (clients_of policy))
            (\<lambda>(selection, decided).
              Ok (push_result (policy_outcome policy ResultApplied None None) selection, decided)))"

definition select_policy ::
  "policy_snapshot \<Rightarrow> int option \<Rightarrow> priority_selection \<times> string set \<Rightarrow> policy_snapshot_entry \<Rightarrow>
    (priority_selection \<times> string set) res" where
  "select_policy s now_ms state policy =
     (let (selection, decided) = state in
      if \<not> spec_enabled (entry_spec policy)
      then Ok (push_result (policy_outcome policy ResultDisabled None None) selection, decided)
      else if is_application_policy policy \<and>
              act_kind (action_of policy) \<in> {ActionBlock, ActionAllow, ActionLimit} \<and> clients_of policy = []
      then Err ''application_client_selector_required''
      else if \<not> total_shape policy \<and> \<not> internet_decision policy \<and> \<not> application_shape ActionLimit policy \<and>
              \<not> application_shape ActionBlock policy \<and> \<not> application_shape ActionAllow policy
      then Err ''priority_policy_shape_not_verified''
      else and_then (note_transitions s now_ms selection policy) (apply_policy s now_ms policy decided))"

definition selection_key :: "policy_snapshot_entry \<Rightarrow> u16 \<times> string" where
  "selection_key policy = (spec_priority (entry_spec policy), entry_id policy)"

definition from_snapshot ::
  "wire_env \<Rightarrow> policy_wire_frame \<Rightarrow> string \<Rightarrow> int option \<Rightarrow> priority_selection res" where
  "from_snapshot env snapshot gateway now_ms =
     and_then (validate_frame env snapshot) (\<lambda>_.
     (case snapshot of
        PolicySnapshot s \<Rightarrow>
          if snap_gateway_id s \<noteq> gateway then Err ''priority_gateway_mismatch''
          else and_then (try_fold (select_policy s now_ms) (empty_selection, {})
                 (sort_key selection_key (snap_policies s))) (\<lambda>(selection, decided).
            (let selection = selection\<lparr>ps_application_limits :=
                   sort_key (\<lambda>a. (ar_mac a, ar_policy_id a)) (ps_application_limits selection)\<rparr>
             in if card (ps_clients selection) > 256 then Err ''priority_class_slots_exhausted''
                else Ok (selection\<lparr>ps_results := sort_key res_policy_id (ps_results selection)\<rparr>)))
      | _ \<Rightarrow> Err ''priority_snapshot_required''))"

section \<open>Specification\<close>

text \<open>The policies in force and the clients they select, in canonical form.\<close>

definition effective :: "policy_snapshot \<Rightarrow> int option \<Rightarrow> policy_snapshot_entry \<Rightarrow> bool" where
  "effective s now_ms p \<longleftrightarrow> spec_enabled (entry_spec p) \<and>
     evaluate p (snap_schedule_intervals s) now_ms (snap_valid_until_ms s) = Active"

definition selects :: "policy_snapshot_entry \<Rightarrow> string \<Rightarrow> bool" where
  "selects p mac \<longleftrightarrow> Ok mac \<in> client_key ` set (clients_of p)"

text \<open>The policy that decides on a client: the first in force by priority and identifier.\<close>

definition decides :: "policy_snapshot \<Rightarrow> int option \<Rightarrow> string \<Rightarrow> policy_snapshot_entry \<Rightarrow> bool" where
  "decides s now_ms mac p \<longleftrightarrow> effective s now_ms p \<and> internet_decision p \<and> selects p mac"

definition limits_total :: "policy_snapshot \<Rightarrow> int option \<Rightarrow> string \<Rightarrow> policy_snapshot_entry \<Rightarrow> bool" where
  "limits_total s now_ms mac p \<longleftrightarrow> effective s now_ms p \<and> total_shape p \<and> selects p mac"

definition total_limits :: "policy_snapshot \<Rightarrow> int option \<Rightarrow> string \<Rightarrow> policy_snapshot_entry set" where
  "total_limits s now_ms mac = {p \<in> set (snap_policies s). limits_total s now_ms mac p}"

definition total_of :: "policy_snapshot_entry list \<Rightarrow> total_rates option" where
  "total_of ps = (if ps = [] then None else Some
     \<lparr>tr_upload_bps = foldl rate_min None (map (act_upload_bps \<circ> action_of) ps),
      tr_download_bps = foldl rate_min None (map (act_download_bps \<circ> action_of) ps),
      tr_policy_ids = entry_id ` set ps\<rparr>)"

definition app_limit :: "policy_snapshot_entry \<Rightarrow> string \<Rightarrow> application_rates" where
  "app_limit p mac = \<lparr>ar_mac = mac, ar_policy_id = entry_id p,
     ar_upload_bps = act_upload_bps (action_of p), ar_download_bps = act_download_bps (action_of p)\<rparr>"

text \<open>The selection a sequence of policies amounts to.\<close>

definition tracks ::
  "policy_snapshot \<Rightarrow> int option \<Rightarrow> policy_snapshot_entry list \<Rightarrow> priority_selection \<times> string set \<Rightarrow> bool" where
  "tracks s now ps st \<longleftrightarrow>
     snd st = {m. \<exists>p\<in>set ps. decides s now m p} \<and>
     ps_blocked_macs (fst st) = {m. \<exists>p. find (decides s now m) ps = Some p \<and> act_kind (action_of p) = ActionBlock} \<and>
     (\<forall>m. map_of (ps_totals (fst st)) m = total_of (filter (limits_total s now m) ps)) \<and>
     set (ps_application_limits (fst st)) =
       {app_limit p m | p m. p \<in> set ps \<and> effective s now p \<and> application_shape ActionLimit p \<and> selects p m} \<and>
     ps_clients (fst st) = ps_blocked_macs (fst st) \<union>
       {m. \<exists>p\<in>set ps. effective s now p \<and> \<not> internet_decision p \<and> selects p m} \<and>
     map res_policy_id (ps_results (fst st)) = map entry_id ps"

section \<open>Lemmas\<close>

lemma find_append: "find P (xs @ ys) = (case find P xs of None \<Rightarrow> find P ys | Some x \<Rightarrow> Some x)"
  by (induction xs) auto

lemma shapes_exclusive:
  "total_shape p \<Longrightarrow> \<not> internet_decision p" "application_shape k p \<Longrightarrow> \<not> internet_decision p"
  "total_shape p \<Longrightarrow> \<not> application_shape k p" "application_shape k p \<Longrightarrow> application_shape k' p \<Longrightarrow> k = k'"
  by (auto simp: total_shape_def internet_decision_def application_shape_def is_client_total_spec_def
      policy_client_total_scope_def is_application_policy_def)

lemma rate_min_idem: "rate_min (rate_min r u) u = rate_min r u"
  by (cases r; cases u) auto

lemma select_clients_Ok:
  "try_fold (select_client p) st cs = Ok st' \<longleftrightarrow>
     (\<exists>ms. list_all2 (\<lambda>c m. client_key c = Ok m) cs ms \<and> st' = foldl (note_client p) st ms)"
proof (induction cs arbitrary: st)
  case (Cons c cs)
  have "try_fold (select_client p) st (c # cs) = Ok st' \<longleftrightarrow>
    (\<exists>m. client_key c = Ok m \<and> try_fold (select_client p) (note_client p st m) cs = Ok st')"
    by (cases "client_key c") (simp_all add: select_client_def [of p st c])
  then show ?case unfolding Cons.IH list_all2_Cons1 by fastforce
qed auto

lemma selects_keys:
  assumes "list_all2 (\<lambda>c m. client_key c = Ok m) (clients_of p) ms"
  shows "selects p m \<longleftrightarrow> m \<in> set ms"
proof -
  have "map client_key (clients_of p) = map Inr ms"
    using assms by (auto simp: list_eq_iff_nth_eq list_all2_conv_all_nth)
  then have "client_key ` set (clients_of p) = Inr ` set ms" by (metis list.set_map)
  then show ?thesis by (auto simp: selects_def)
qed

text \<open>The effect of one policy on each part of the state.\<close>

lemma note_clients_decision:
  assumes "internet_decision p"
  shows "foldl (note_client p) (sel, dec) ms =
    (let new = (if act_kind (action_of p) = ActionBlock then set ms - dec else {}) in
     (sel\<lparr>ps_clients := new \<union> ps_clients sel, ps_blocked_macs := new \<union> ps_blocked_macs sel\<rparr>, set ms \<union> dec))"
  using assms
proof (induction ms arbitrary: sel dec)
  case (Cons m ms)
  have "\<not> total_shape p" "\<And>k. \<not> application_shape k p"
    using Cons.prems shapes_exclusive(1,2) by blast+
  then have "note_client p (sel, dec) m =
    (if m \<notin> dec \<and> act_kind (action_of p) = ActionBlock
     then (sel\<lparr>ps_clients := insert m (ps_clients sel), ps_blocked_macs := insert m (ps_blocked_macs sel)\<rparr>, insert m dec)
     else (sel, insert m dec))"
    by (simp add: note_client_def Let_def)
  moreover have "m \<notin> dec \<Longrightarrow> insert m (set ms - insert m dec \<union> X) = insert m (set ms) - dec \<union> X" for X
    by auto
  moreover have "m \<in> dec \<Longrightarrow> set ms - insert m dec = set ms - dec" by auto
  ultimately show ?case using Cons by (simp add: Let_def insert_Diff_if)
qed (simp add: Let_def)

lemma note_clients_limit:
  assumes "application_shape ActionLimit p"
  shows "foldl (note_client p) (sel, dec) ms =
    (sel\<lparr>ps_clients := set ms \<union> ps_clients sel,
         ps_application_limits := ps_application_limits sel @ map (app_limit p) ms\<rparr>, dec)"
proof -
  have "note_client p (sel, dec) m = (sel\<lparr>ps_clients := insert m (ps_clients sel),
      ps_application_limits := ps_application_limits sel @ [app_limit p m]\<rparr>, dec)" for sel m
    using assms shapes_exclusive(3) [of p ActionLimit] by (auto simp: note_client_def app_limit_def Let_def)
  then show ?thesis by (induction ms arbitrary: sel) auto
qed

lemma note_clients_application:
  assumes "application_shape k p" "k \<noteq> ActionLimit"
  shows "foldl (note_client p) (sel, dec) ms = (sel\<lparr>ps_clients := set ms \<union> ps_clients sel\<rparr>, dec)"
proof -
  have "note_client p (sel, dec) m = (sel\<lparr>ps_clients := insert m (ps_clients sel)\<rparr>, dec)" for sel m
    using assms shapes_exclusive(3) [of p k] shapes_exclusive(4) [of k p]
    by (cases k) (auto simp: note_client_def Let_def)
  then show ?thesis by (induction ms arbitrary: sel) auto
qed

definition add_policy :: "policy_snapshot_entry \<Rightarrow> total_rates option \<Rightarrow> total_rates" where
  "add_policy p r = \<lparr>tr_upload_bps = rate_min (case r of None \<Rightarrow> None | Some r \<Rightarrow> tr_upload_bps r) (act_upload_bps (action_of p)),
     tr_download_bps = rate_min (case r of None \<Rightarrow> None | Some r \<Rightarrow> tr_download_bps r) (act_download_bps (action_of p)),
     tr_policy_ids = insert (entry_id p) (case r of None \<Rightarrow> {} | Some r \<Rightarrow> tr_policy_ids r)\<rparr>"

lemma map_of_add_total: "map_of (add_total p m t) = (map_of t)(m \<mapsto> add_policy p (map_of t m))"
  by (auto simp: add_total_def add_policy_def split: option.splits)

lemma add_policy_idem: "add_policy p (Some (add_policy p r)) = add_policy p r"
  by (simp add: add_policy_def rate_min_idem)

lemma note_clients_total:
  assumes "total_shape p"
  shows "\<exists>t. foldl (note_client p) (sel, dec) ms = (sel\<lparr>ps_clients := set ms \<union> ps_clients sel, ps_totals := t\<rparr>, dec) \<and>
    (\<forall>m. map_of t m = (if m \<in> set ms then Some (add_policy p (map_of (ps_totals sel) m)) else map_of (ps_totals sel) m))"
  using assms
proof (induction ms arbitrary: sel)
  case (Cons m ms)
  let ?sel = "sel\<lparr>ps_clients := insert m (ps_clients sel), ps_totals := add_total p m (ps_totals sel)\<rparr>"
  have "note_client p (sel, dec) m = (?sel, dec)" using Cons.prems by (simp add: note_client_def)
  with Cons.IH [OF Cons.prems, of ?sel] show ?case
    by (auto simp: map_of_add_total add_policy_idem)
next
  case Nil
  then show ?case by (intro exI [of _ "ps_totals sel"]) simp
qed

lemma note_transitions_Ok:
  "note_transitions s now sel p = Ok sel' \<Longrightarrow> \<exists>t. sel' = sel\<lparr>ps_next_transition_ms := t\<rparr>"
  by (auto simp: note_transitions_def res_simps split: if_splits)
    (metis priority_selection.surjective priority_selection.update_convs(6))

text \<open>The parts of the state that a policy without effect leaves alone.\<close>

lemma tracks_ineffective:
  assumes "tracks s now ps (sel, dec)" and "\<not> effective s now p" and "res_policy_id r = entry_id p"
    and "sel' = sel\<lparr>ps_next_transition_ms := t\<rparr>"
  shows "tracks s now (ps @ [p]) (push_result r sel', dec)"
proof -
  have "\<not> decides s now m p" "\<not> limits_total s now m p" for m
    using assms(2) by (simp_all add: decides_def limits_total_def)
  then show ?thesis using assms by (auto simp: tracks_def find_append split: option.splits)
qed

lemma total_of_snoc: "total_of (ps @ [p]) = Some (add_policy p (total_of ps))"
  by (simp add: total_of_def add_policy_def)

lemma tracks_decision:
  assumes "tracks s now ps (sel, dec)" and "effective s now p" and "internet_decision p"
    and sel: "\<And>m. selects p m \<longleftrightarrow> m \<in> set ms" and "res_policy_id r = entry_id p"
    and "foldl (note_client p) (sel\<lparr>ps_next_transition_ms := t\<rparr>, dec) ms = (sel', dec')"
  shows "tracks s now (ps @ [p]) (push_result r sel', dec')"
proof -
  have d: "decides s now m p \<longleftrightarrow> m \<in> set ms" for m using assms(2,3) sel by (simp add: decides_def)
  have n: "\<not> limits_total s now m p" "\<not> application_shape k p" for m k
    using assms(3) shapes_exclusive(1,2) by (auto simp: limits_total_def)
  have dec: "dec = {m. \<exists>p\<in>set ps. decides s now m p}" using assms(1) by (simp add: tracks_def)
  have none: "find (decides s now m) ps = None \<longleftrightarrow> m \<notin> dec" for m by (auto simp: dec find_None_iff)
  define new where "new = (if act_kind (action_of p) = ActionBlock then set ms - dec else {})"
  have new: "m \<in> new \<longleftrightarrow> find (decides s now m) ps = None \<and> m \<in> set ms \<and> act_kind (action_of p) = ActionBlock" for m
    by (auto simp: new_def none)
  have st: "sel' = sel\<lparr>ps_next_transition_ms := t, ps_clients := new \<union> ps_clients sel, ps_blocked_macs := new \<union> ps_blocked_macs sel\<rparr>"
    "dec' = set ms \<union> dec"
    using assms(6) by (simp_all add: note_clients_decision [OF assms(3)] new_def Let_def)
  show ?thesis
    using assms(1,3,5) n by (auto simp: tracks_def st d new find_append split: option.splits)
qed

lemma tracks_other:
  assumes "tracks s now ps (sel, dec)" and "effective s now p" and "\<not> internet_decision p"
    and sel: "\<And>m. selects p m \<longleftrightarrow> m \<in> set ms" and "res_policy_id r = entry_id p"
    and "sel' = sel\<lparr>ps_next_transition_ms := t, ps_clients := set ms \<union> ps_clients sel,
           ps_application_limits := ps_application_limits sel @ ls, ps_totals := ts\<rparr>"
    and "set ls = (if application_shape ActionLimit p then app_limit p ` set ms else {})"
    and "\<And>m. map_of ts m = (if total_shape p \<and> m \<in> set ms then Some (add_policy p (map_of (ps_totals sel) m))
           else map_of (ps_totals sel) m)"
  shows "tracks s now (ps @ [p]) (push_result r sel', dec)"
proof -
  have n: "\<not> decides s now m p" and l: "limits_total s now m p \<longleftrightarrow> total_shape p \<and> m \<in> set ms" for m
    using assms(2,3) sel by (simp_all add: decides_def limits_total_def)
  have "map_of ts m = total_of (filter (limits_total s now m) (ps @ [p]))" for m
    using assms(1) by (simp add: assms(8) l total_of_snoc tracks_def)
  moreover have "set (ps_application_limits sel @ ls) =
    {app_limit q m | q m. q \<in> set (ps @ [p]) \<and> effective s now q \<and> application_shape ActionLimit q \<and> selects q m}"
    using assms(1,2,7) sel by (auto simp: tracks_def)
  ultimately show ?thesis
    using assms(1,2,3,5) n sel by (auto simp: tracks_def assms(6) find_append split: option.splits)
qed

lemma tracks_effective:
  assumes tr: "tracks s now ps (sel, dec)" and eff: "effective s now p"
    and shape: "total_shape p \<or> internet_decision p \<or> (\<exists>k. application_shape k p)"
    and sel: "\<And>m. selects p m \<longleftrightarrow> m \<in> set ms" and r: "res_policy_id r = entry_id p"
    and st: "foldl (note_client p) (sel\<lparr>ps_next_transition_ms := t\<rparr>, dec) ms = (sel', dec')"
  shows "tracks s now (ps @ [p]) (push_result r sel', dec')"
proof (cases "internet_decision p")
  case True
  from tracks_decision [OF tr eff True sel r st] show ?thesis .
next
  case False
  note other = tracks_other [OF tr eff False sel r]
  from shape False consider (total) "total_shape p" | (limit) "application_shape ActionLimit p"
    | (app) k where "application_shape k p" "k \<noteq> ActionLimit" by blast
  then show ?thesis
  proof cases
    case total
    with note_clients_total [OF total, of "sel\<lparr>ps_next_transition_ms := t\<rparr>" dec ms] st
    show ?thesis using shapes_exclusive(3) [OF total] by (auto intro: other [where ls = "[]"])
  next
    case limit
    then have nt: "\<not> total_shape p" using shapes_exclusive(3) by blast
    have s': "sel' = sel\<lparr>ps_next_transition_ms := t, ps_clients := set ms \<union> ps_clients sel,
        ps_application_limits := ps_application_limits sel @ map (app_limit p) ms, ps_totals := ps_totals sel\<rparr>" and d: "dec' = dec"
      using limit st by (auto simp: note_clients_limit)
    show ?thesis unfolding d by (rule other [OF s']) (simp_all add: limit nt)
  next
    case app
    then have nt: "\<not> total_shape p" "\<not> application_shape ActionLimit p" using shapes_exclusive(3,4) by blast+
    have s': "sel' = sel\<lparr>ps_next_transition_ms := t, ps_clients := set ms \<union> ps_clients sel,
        ps_application_limits := ps_application_limits sel @ [], ps_totals := ps_totals sel\<rparr>" and d: "dec' = dec"
      using st by (auto simp: note_clients_application [OF app])
    show ?thesis unfolding d by (rule other [OF s']) (simp_all add: nt)
  qed
qed

lemma select_policy_Ok:
  assumes "select_policy s now (sel, dec) p = Ok st'" and "spec_enabled (entry_spec p)"
  shows "(total_shape p \<or> internet_decision p \<or> (\<exists>k. application_shape k p)) \<and>
    (\<exists>t. apply_policy s now p dec (sel\<lparr>ps_next_transition_ms := t\<rparr>) = Ok st')"
  using assms note_transitions_Ok by (fastforce simp: select_policy_def res_simps split: if_splits)

lemma tracks_step:
  assumes step: "select_policy s now (sel, dec) p = Ok st'" and tr: "tracks s now ps (sel, dec)"
  shows "tracks s now (ps @ [p]) st'"
proof (cases "spec_enabled (entry_spec p)")
  case False
  then have "\<not> effective s now p" by (simp add: effective_def)
  from tracks_ineffective [OF tr this, of _ sel "ps_next_transition_ms sel"] False step show ?thesis
    by (auto simp: select_policy_def policy_outcome_def)
next
  case True
  with select_policy_Ok [OF step] obtain t where
    shape: "total_shape p \<or> internet_decision p \<or> (\<exists>k. application_shape k p)"
    and ap: "apply_policy s now p dec (sel\<lparr>ps_next_transition_ms := t\<rparr>) = Ok st'" by blast
  show ?thesis
  proof (cases "effective s now p")
    case False
    with True ap tracks_ineffective [OF tr False _ refl] show ?thesis
      by (auto simp: apply_policy_def effective_def policy_outcome_def split: schedule_state.splits)
  next
    case eff: True
    with ap obtain sel2 dec2 where "try_fold (select_client p) (sel\<lparr>ps_next_transition_ms := t\<rparr>, dec) (clients_of p) = Ok (sel2, dec2)"
      and st': "st' = (push_result (policy_outcome p ResultApplied None None) sel2, dec2)"
      by (auto simp: apply_policy_def effective_def res_simps)
    then obtain ms where keys: "list_all2 (\<lambda>c m. client_key c = Ok m) (clients_of p) ms"
      and st: "foldl (note_client p) (sel\<lparr>ps_next_transition_ms := t\<rparr>, dec) ms = (sel2, dec2)"
      unfolding select_clients_Ok by metis
    from tracks_effective [OF tr eff shape selects_keys [OF keys] _ st] show ?thesis
      by (simp add: st' policy_outcome_def)
  qed
qed

lemma tracks_fold:
  assumes "try_fold (select_policy s now) st qs = Ok st'" and "tracks s now ps st"
  shows "tracks s now (ps @ qs) st'"
  using assms
proof (induction qs arbitrary: st ps)
  case (Cons q qs)
  then obtain st1 where "select_policy s now st q = Ok st1" "try_fold (select_policy s now) st1 qs = Ok st'"
    by (auto simp: res_simps)
  with Cons.IH [of st1 "ps @ [q]"] Cons.prems(2) tracks_step [of s now "fst st" "snd st" q st1 ps]
  show ?case by simp
qed simp

lemma from_snapshot_tracks:
  assumes "from_snapshot env (PolicySnapshot s) gateway now = Ok sel"
  shows "\<exists>st. tracks s now (sort_key selection_key (snap_policies s)) st \<and>
    sel = fst st\<lparr>ps_application_limits := sort_key (\<lambda>a. (ar_mac a, ar_policy_id a)) (ps_application_limits (fst st)),
      ps_results := sort_key res_policy_id (ps_results (fst st))\<rparr> \<and> card (ps_clients sel) \<le> 256 \<and>
    validate_frame env (PolicySnapshot s) = Ok ()"
proof -
  have "tracks s now [] (empty_selection, {})" by (simp add: tracks_def empty_selection_def total_of_def)
  then show ?thesis
    using assms tracks_fold [of s now "(empty_selection, {})" "sort_key selection_key (snap_policies s)" _ "[]"]
    by (fastforce simp: from_snapshot_def res_simps Let_def split_def split: if_splits)
qed

lemma foldl_rate_min:
  "foldl rate_min r us = Some b \<longleftrightarrow> Some b \<in> set (r # us) \<and> (\<forall>b'. Some b' \<in> set (r # us) \<longrightarrow> b \<le> b')"
proof (induction us arbitrary: r)
  case (Cons u us)
  show ?case unfolding foldl_Cons Cons.IH
    by (cases r; cases u) (auto simp: min_def)
qed auto

lemma total_of_rate:
  assumes "total_of ps = Some r"
  shows "tr_upload_bps r = Some b \<longleftrightarrow> (\<exists>p\<in>set ps. act_upload_bps (action_of p) = Some b) \<and>
      (\<forall>q\<in>set ps. \<forall>b'. act_upload_bps (action_of q) = Some b' \<longrightarrow> b \<le> b')"
    and "tr_download_bps r = Some b \<longleftrightarrow> (\<exists>p\<in>set ps. act_download_bps (action_of p) = Some b) \<and>
      (\<forall>q\<in>set ps. \<forall>b'. act_download_bps (action_of q) = Some b' \<longrightarrow> b \<le> b')"
    and "tr_policy_ids r = entry_id ` set ps"
proof -
  have r: "r = \<lparr>tr_upload_bps = foldl rate_min None (map (act_upload_bps \<circ> action_of) ps),
      tr_download_bps = foldl rate_min None (map (act_download_bps \<circ> action_of) ps), tr_policy_ids = entry_id ` set ps\<rparr>"
    using assms by (simp add: total_of_def split: if_splits)
  have im: "Some b \<in> set (None # map (f \<circ> action_of) ps) \<longleftrightarrow> (\<exists>p\<in>set ps. f (action_of p) = Some b)"
    for f and b :: u64 by (auto simp: image_iff eq_commute)
  show "tr_upload_bps r = Some b \<longleftrightarrow> (\<exists>p\<in>set ps. act_upload_bps (action_of p) = Some b) \<and>
      (\<forall>q\<in>set ps. \<forall>b'. act_upload_bps (action_of q) = Some b' \<longrightarrow> b \<le> b')"
    unfolding r total_rates.simps foldl_rate_min im by blast
  show "tr_download_bps r = Some b \<longleftrightarrow> (\<exists>p\<in>set ps. act_download_bps (action_of p) = Some b) \<and>
      (\<forall>q\<in>set ps. \<forall>b'. act_download_bps (action_of q) = Some b' \<longrightarrow> b \<le> b')"
    unfolding r total_rates.simps foldl_rate_min im by blast
  show "tr_policy_ids r = entry_id ` set ps" by (simp add: r)
qed

lemma client_key_canonical:
  assumes "client_key c = Ok m"
  shows "\<exists>mac. mac_from_str c = Ok mac \<and> is_unicast mac \<and> m = mac_to_string mac"
  using assms by (auto simp: client_key_def res_simps)

lemma tracks_clients:
  assumes "tracks s now ps st" and "m \<in> ps_clients (fst st)"
  shows "\<exists>p\<in>set ps. effective s now p \<and> selects p m"
proof -
  from assms consider p where "find (decides s now m) ps = Some p"
    | "\<exists>p\<in>set ps. effective s now p \<and> \<not> internet_decision p \<and> selects p m"
    by (auto simp: tracks_def)
  then show ?thesis by cases (auto simp: decides_def dest!: find_Some_iff_dest)
qed

lemma finite_selected: "finite {m. selects p m}"
proof -
  have "Inr ` {m. selects p m} \<subseteq> client_key ` set (clients_of p)" by (auto simp: selects_def)
  then show ?thesis by (metis List.finite_set finite_imageD finite_imageI finite_subset inj_Inr)
qed

lemma selected_clients:
  assumes "from_snapshot env (PolicySnapshot s) gateway now = Ok sel"
  shows "finite (ps_clients sel)" "card (ps_clients sel) \<le> 256"
    "m \<in> ps_clients sel \<Longrightarrow> \<exists>mac. is_unicast mac \<and> m = mac_to_string mac \<and> (\<exists>c. mac_from_str c = Ok mac)"
proof -
  from from_snapshot_tracks [OF assms] obtain st where tr: "tracks s now (sort_key selection_key (snap_policies s)) st"
    and cl: "ps_clients sel = ps_clients (fst st)" "card (ps_clients sel) \<le> 256" by auto
  have "ps_clients sel \<subseteq> (\<Union>p\<in>set (snap_policies s). {m. selects p m})"
    using tracks_clients [OF tr] cl by fastforce
  then show "finite (ps_clients sel)" using finite_selected by (rule_tac finite_subset) auto
  show "card (ps_clients sel) \<le> 256" by (rule cl)
  assume "m \<in> ps_clients sel"
  with tracks_clients [OF tr] cl obtain p where "selects p m" by auto
  then obtain c where "client_key c = Ok m" by (auto simp: selects_def image_iff)
  from client_key_canonical [OF this]
  show "\<exists>mac. is_unicast mac \<and> m = mac_to_string mac \<and> (\<exists>c. mac_from_str c = Ok mac)" by blast
qed

lemma blocked_macs_iff:
  assumes "from_snapshot env (PolicySnapshot s) gateway now = Ok sel"
  shows "mac \<in> ps_blocked_macs sel \<longleftrightarrow>
    (\<exists>p\<in>set (snap_policies s). decides s now mac p \<and> act_kind (action_of p) = ActionBlock \<and>
       (\<forall>q\<in>set (snap_policies s). decides s now mac q \<longrightarrow> selection_key p \<le> selection_key q))"
proof -
  let ?ps = "sort_key selection_key (snap_policies s)"
  from from_snapshot_tracks [OF assms] have b: "ps_blocked_macs sel =
      {m. \<exists>p. find (decides s now m) ?ps = Some p \<and> act_kind (action_of p) = ActionBlock}"
    and "snapshot_wf env s" by (auto simp: tracks_def validate_frame_def validate_snapshot_wf)
  then have d: "distinct (map entry_id (snap_policies s))" by (rule_tac snapshot_wf_distinct_ids)
  have "find (decides s now mac) ?ps = Some p" if "p \<in> set (snap_policies s)" "decides s now mac p"
    "\<forall>q\<in>set (snap_policies s). decides s now mac q \<longrightarrow> selection_key p \<le> selection_key q" for p
  proof (cases "find (decides s now mac) ?ps")
    case None
    with that show ?thesis by (auto simp: find_None_iff)
  next
    case (Some q)
    from find_sort_key_first [OF this] that have "selection_key p = selection_key q" "q \<in> set (snap_policies s)"
      by (auto intro: antisym)
    with d that(1) have "q = p" by (auto simp: selection_key_def intro: distinct_map_key_eq)
    with Some show ?thesis by simp
  qed
  note first = this
  show ?thesis
  proof
    assume "mac \<in> ps_blocked_macs sel"
    then obtain p where "find (decides s now mac) ?ps = Some p" "act_kind (action_of p) = ActionBlock" by (auto simp: b)
    with find_sort_key_first [OF this(1)] show "\<exists>p\<in>set (snap_policies s). decides s now mac p \<and>
      act_kind (action_of p) = ActionBlock \<and>
      (\<forall>q\<in>set (snap_policies s). decides s now mac q \<longrightarrow> selection_key p \<le> selection_key q)" by blast
  next
    assume "\<exists>p\<in>set (snap_policies s). decides s now mac p \<and> act_kind (action_of p) = ActionBlock \<and>
      (\<forall>q\<in>set (snap_policies s). decides s now mac q \<longrightarrow> selection_key p \<le> selection_key q)"
    with first show "mac \<in> ps_blocked_macs sel" unfolding b by blast
  qed
qed

lemma blocked_selected:
  assumes "from_snapshot env (PolicySnapshot s) gateway now = Ok sel"
  shows "ps_blocked_macs sel \<subseteq> ps_clients sel"
  using from_snapshot_tracks [OF assms] by (auto simp: tracks_def)

section \<open>Properties\<close>

text \<open>C14. A client is blocked exactly when the first policy that decides on it is a block: among the
  client block and allow policies in force that select it, the one with the least priority number and
  then the least identifier.\<close>

theorem priority_blocked_iff:
  assumes "from_snapshot env (PolicySnapshot s) gateway now = Ok sel"
  shows "mac \<in> ps_blocked_macs sel \<longleftrightarrow>
    (\<exists>p\<in>set (snap_policies s). decides s now mac p \<and> act_kind (action_of p) = ActionBlock \<and>
       (\<forall>q\<in>set (snap_policies s). decides s now mac q \<longrightarrow> selection_key p \<le> selection_key q))"
  using assms by (rule blocked_macs_iff)

text \<open>The aggregate budget of a client is the tightest one: a client has a budget exactly when an
  aggregate limit in force selects it, the budget of each direction is the least rate these limits
  set for it, none if they set none, and the budget names exactly these limits.\<close>

theorem priority_totals_tightest:
  assumes "from_snapshot env (PolicySnapshot s) gateway now = Ok sel"
  shows "case map_of (ps_totals sel) mac of
      None \<Rightarrow> total_limits s now mac = {}
    | Some r \<Rightarrow> total_limits s now mac \<noteq> {} \<and> tr_policy_ids r = entry_id ` total_limits s now mac \<and>
        (\<forall>b. tr_upload_bps r = Some b \<longleftrightarrow> (\<exists>p\<in>total_limits s now mac. act_upload_bps (action_of p) = Some b) \<and>
           (\<forall>q\<in>total_limits s now mac. \<forall>b'. act_upload_bps (action_of q) = Some b' \<longrightarrow> b \<le> b')) \<and>
        (\<forall>b. tr_download_bps r = Some b \<longleftrightarrow> (\<exists>p\<in>total_limits s now mac. act_download_bps (action_of p) = Some b) \<and>
           (\<forall>q\<in>total_limits s now mac. \<forall>b'. act_download_bps (action_of q) = Some b' \<longrightarrow> b \<le> b'))"
proof -
  let ?ps = "filter (limits_total s now mac) (sort_key selection_key (snap_policies s))"
  from from_snapshot_tracks [OF assms] have t: "map_of (ps_totals sel) mac = total_of ?ps"
    by (auto simp: tracks_def)
  have l: "set ?ps = total_limits s now mac" by (auto simp: total_limits_def)
  show ?thesis
  proof (cases "map_of (ps_totals sel) mac")
    case None
    with t have "?ps = []" by (simp add: total_of_def split: if_splits)
    with l None show ?thesis by simp
  next
    case (Some r)
    with t have "total_of ?ps = Some r" by simp
    moreover from this have "?ps \<noteq> []" by (simp add: total_of_def split: if_splits)
    ultimately show ?thesis using total_of_rate [of ?ps r] unfolding l Some
      by (simp add: l [symmetric] del: set_filter)
  qed
qed

definition ex_client_block :: policy_snapshot_entry where
  "ex_client_block = \<lparr>entry_id = ''p1'', entry_spec = ex_spec\<lparr>spec_selectors :=
     spec_selectors ex_spec\<lparr>sel_applications := []\<rparr>\<rparr>\<rparr>"

definition ex_client_total :: policy_snapshot_entry where
  "ex_client_total = \<lparr>entry_id = ''p2'', entry_spec = ex_spec\<lparr>
     spec_selectors := spec_selectors ex_spec\<lparr>sel_applications := []\<rparr>,
     spec_network := \<lparr>net_scope = ''agent'', net_direction = ''both''\<rparr>,
     spec_action := \<lparr>act_kind = ActionLimit, act_download_bps = None, act_upload_bps = Some 1000000\<rparr>\<rparr>\<rparr>"

definition ex_priority_snapshot :: policy_snapshot where
  "ex_priority_snapshot = ex_snapshot\<lparr>snap_policies := [ex_client_block, ex_client_total]\<rparr>"

definition ex_selection :: priority_selection where
  "ex_selection = (case from_snapshot ex_env (PolicySnapshot ex_priority_snapshot) ''gw'' None of
     Inr sel \<Rightarrow> sel | Inl _ \<Rightarrow> empty_selection)"

lemma ex_selection_Ok: "from_snapshot ex_env (PolicySnapshot ex_priority_snapshot) ''gw'' None = Ok ex_selection"
  and ex_selection_block: "''02:00:00:00:00:01'' \<in> ps_blocked_macs ex_selection"
  and ex_selection_total: "map_of (ps_totals ex_selection) ''02:00:00:00:00:01'' \<noteq> None"
proof -
  have "case from_snapshot ex_env (PolicySnapshot ex_priority_snapshot) ''gw'' None of
      Inr sel \<Rightarrow> ''02:00:00:00:00:01'' \<in> ps_blocked_macs sel \<and> map_of (ps_totals sel) ''02:00:00:00:00:01'' \<noteq> None
    | Inl _ \<Rightarrow> False" by code_simp
  then show "from_snapshot ex_env (PolicySnapshot ex_priority_snapshot) ''gw'' None = Ok ex_selection"
    "''02:00:00:00:00:01'' \<in> ps_blocked_macs ex_selection"
    "map_of (ps_totals ex_selection) ''02:00:00:00:00:01'' \<noteq> None"
    by (simp_all add: ex_selection_def split: sum.splits)
qed

theorem priority_blocked_iff_witness:
  "\<exists>p\<in>set (snap_policies ex_priority_snapshot). decides ex_priority_snapshot None ''02:00:00:00:00:01'' p"
  using priority_blocked_iff [OF ex_selection_Ok] ex_selection_block by blast

theorem priority_totals_tightest_witness:
  "total_limits ex_priority_snapshot None ''02:00:00:00:00:01'' \<noteq> {}"
  using priority_totals_tightest [OF ex_selection_Ok, of "''02:00:00:00:00:01''"] ex_selection_total by auto

end
