(* ===== verification/Io_Result.thy ===== *)
theory Io_Result
  imports Netqmon_Prelude
begin

text \<open>
  Fallible operations on a state: an operation takes the state and returns the state it leaves behind,
  also when it fails, together with its result. The combinators stand for the question-mark operator,
  for loops with an early return and for handling the error of an operation. The rules at the end
  prove that an operation preserves an invariant from its parts.
\<close>

type_synonym ('s, 'a) io = "'s \<Rightarrow> 's \<times> 'a res"

definition io_ok :: "'a \<Rightarrow> ('s, 'a) io" where
  "io_ok x s = (s, Ok x)"

definition io_err :: "string \<Rightarrow> ('s, 'a) io" where
  "io_err e s = (s, Err e)"

definition io_bind :: "('s, 'a) io \<Rightarrow> ('a \<Rightarrow> ('s, 'b) io) \<Rightarrow> ('s, 'b) io" where
  "io_bind m f s = (let (s', r) = m s in case r of Inl e \<Rightarrow> (s', Err e) | Inr x \<Rightarrow> f x s')"

text \<open>Read the state, with or without the possibility of an error.\<close>

definition io_get :: "('s \<Rightarrow> 'a) \<Rightarrow> ('s, 'a) io" where
  "io_get f s = (s, Ok (f s))"

definition io_read :: "('s \<Rightarrow> 'a res) \<Rightarrow> ('s, 'a) io" where
  "io_read f s = (s, f s)"

definition io_lift :: "'a res \<Rightarrow> ('s, 'a) io" where
  "io_lift r s = (s, r)"

definition io_modify :: "('s \<Rightarrow> 's) \<Rightarrow> ('s, unit) io" where
  "io_modify f s = (f s, Ok ())"

text \<open>Run an operation and hand its result, an error included, to what follows.\<close>

definition io_result :: "('s, 'a) io \<Rightarrow> ('s, 'a res) io" where
  "io_result m s = (let (s', r) = m s in (s', Ok r))"

fun io_each :: "('a \<Rightarrow> ('s, unit) io) \<Rightarrow> 'a list \<Rightarrow> ('s, unit) io" where
  "io_each f [] = io_ok ()"
| "io_each f (x # xs) = io_bind (f x) (\<lambda>_. io_each f xs)"

named_theorems io_simps \<open>what an operation does to a state\<close>

lemma io_ok_run [io_simps]: "io_ok x s = (s, Ok x)"
  by (simp add: io_ok_def)

lemma io_err_run [io_simps]: "io_err e s = (s, Err e)"
  by (simp add: io_err_def)

lemma io_get_run [io_simps]: "io_get f s = (s, Ok (f s))"
  by (simp add: io_get_def)

lemma io_read_run [io_simps]: "io_read f s = (s, f s)"
  by (simp add: io_read_def)

lemma io_lift_run [io_simps]: "io_lift r s = (s, r)"
  by (simp add: io_lift_def)

lemma io_modify_run [io_simps]: "io_modify f s = (f s, Ok ())"
  by (simp add: io_modify_def)

lemma io_result_run [io_simps]: "io_result m s = (fst (m s), Ok (snd (m s)))"
  by (simp add: io_result_def split_def Let_def)

lemma io_bind_run: "io_bind m f s = (case snd (m s) of Inl e \<Rightarrow> (fst (m s), Err e) | Inr x \<Rightarrow> f x (fst (m s)))"
  by (simp add: io_bind_def split_def Let_def)

lemma io_bind_Ok: "io_bind m f s = (s', Ok y) \<longleftrightarrow> (\<exists>t x. m s = (t, Ok x) \<and> f x t = (s', Ok y))"
  by (cases "m s") (auto simp: io_bind_def split: sum.splits)

lemma io_bind_Err:
  "io_bind m f s = (s', Err e) \<longleftrightarrow> m s = (s', Err e) \<or> (\<exists>t x. m s = (t, Ok x) \<and> f x t = (s', Err e))"
  by (cases "m s") (auto simp: io_bind_def split: sum.splits)

section \<open>Invariants\<close>

text \<open>\<open>keeps P m\<close>: started where \<open>P\<close> holds, \<open>m\<close> ends where \<open>P\<close> holds, whether it succeeds or not.\<close>

definition keeps :: "('s \<Rightarrow> bool) \<Rightarrow> ('s, 'a) io \<Rightarrow> bool" where
  "keeps P m \<longleftrightarrow> (\<forall>s. P s \<longrightarrow> P (fst (m s)))"

named_theorems keeps_intros \<open>rules for invariants of operations\<close>

lemma keepsI: "(\<And>s. P s \<Longrightarrow> P (fst (m s))) \<Longrightarrow> keeps P m"
  by (simp add: keeps_def)

lemma keepsD: "keeps P m \<Longrightarrow> P s \<Longrightarrow> P (fst (m s))"
  by (simp add: keeps_def)

lemma keeps_pure [keeps_intros]:
  "keeps P (io_ok x)" "keeps P (io_err e)" "keeps P (io_get f)" "keeps P (io_read g)" "keeps P (io_lift r)"
  by (simp_all add: keeps_def io_simps)

lemma keeps_bind [keeps_intros]: "keeps P m \<Longrightarrow> (\<And>x. keeps P (f x)) \<Longrightarrow> keeps P (io_bind m f)"
  by (auto simp: keeps_def io_bind_run split: sum.splits)

lemma keeps_result [keeps_intros]: "keeps P m \<Longrightarrow> keeps P (io_result m)"
  by (simp add: keeps_def io_simps)

lemma keeps_if [keeps_intros]: "(c \<Longrightarrow> keeps P m) \<Longrightarrow> (\<not> c \<Longrightarrow> keeps P n) \<Longrightarrow> keeps P (if c then m else n)"
  by simp

lemma keeps_option [keeps_intros]:
  "keeps P m \<Longrightarrow> (\<And>x. keeps P (f x)) \<Longrightarrow> keeps P (case opt of None \<Rightarrow> m | Some x \<Rightarrow> f x)"
  by (simp split: option.split)

lemma keeps_sum [keeps_intros]:
  "(\<And>e. keeps P (f e)) \<Longrightarrow> (\<And>x. keeps P (g x)) \<Longrightarrow> keeps P (case r of Inl e \<Rightarrow> f e | Inr x \<Rightarrow> g x)"
  by (simp split: sum.split)

lemma keeps_each [keeps_intros]: "(\<And>x. keeps P (f x)) \<Longrightarrow> keeps P (io_each f xs)"
  by (induction xs) (auto intro: keeps_intros)

end
