(* ===== verification/Byte_Layout.thy ===== *)
theory Byte_Layout
  imports Netqmon_Prelude
begin

text \<open>
  Bytes of the structures that the Agent shares with its BPF programs: the native byte order of the
  supported targets, which is little-endian, the network byte order of packet fields, and reading and
  writing fields of a byte array at fixed offsets.
\<close>

section \<open>Integers as bytes\<close>

fun le_bytes :: "nat \<Rightarrow> nat \<Rightarrow> u8 list" where
  "le_bytes 0 x = []"
| "le_bytes (Suc n) x = of_nat (x mod 256) # le_bytes n (x div 256)"

fun le_value :: "u8 list \<Rightarrow> nat" where
  "le_value [] = 0"
| "le_value (b # bs) = unat b + 256 * le_value bs"

definition u16_ne_bytes :: "u16 \<Rightarrow> u8 list" where
  "u16_ne_bytes x = le_bytes 2 (unat x)"

definition u32_ne_bytes :: "u32 \<Rightarrow> u8 list" where
  "u32_ne_bytes x = le_bytes 4 (unat x)"

definition u64_ne_bytes :: "u64 \<Rightarrow> u8 list" where
  "u64_ne_bytes x = le_bytes 8 (unat x)"

definition u16_from_ne :: "u8 list \<Rightarrow> u16" where
  "u16_from_ne bs = of_nat (le_value bs)"

definition u32_from_ne :: "u8 list \<Rightarrow> u32" where
  "u32_from_ne bs = of_nat (le_value bs)"

definition u64_from_ne :: "u8 list \<Rightarrow> u64" where
  "u64_from_ne bs = of_nat (le_value bs)"

section \<open>Fields of a byte array\<close>

definition slice :: "nat \<Rightarrow> nat \<Rightarrow> 'a list \<Rightarrow> 'a list" where
  "slice off width bs = take width (drop off bs)"

text \<open>\<open>bytes[off..off + n].copy_from_slice(src)\<close> for a slice inside the array.\<close>

definition copy_at :: "nat \<Rightarrow> 'a list \<Rightarrow> 'a list \<Rightarrow> 'a list" where
  "copy_at off src bs = take off bs @ src @ drop (off + length src) bs"

lemma length_le_bytes [simp]: "length (le_bytes n x) = n"
  by (induction n x rule: le_bytes.induct) simp_all

lemma le_value_le_bytes: "le_value (le_bytes n x) = x mod 256 ^ n"
proof (induction n x rule: le_bytes.induct)
  case (2 n x)
  have "unat (of_nat (x mod 256) :: u8) = x mod 256" by (simp add: unat_of_nat)
  with 2 show ?case by (simp add: mod_mult2_eq)
qed simp

lemma le_value_less: "le_value bs < 256 ^ length bs"
proof (induction bs)
  case (Cons b bs)
  have "unat b < 256" using unsigned_less [of b, where ?'a = nat] by simp
  with Cons show ?case by simp
qed simp

lemma length_copy_at [simp]: "off + length src \<le> length bs \<Longrightarrow> length (copy_at off src bs) = length bs"
  by (simp add: copy_at_def)

lemma length_slice: "off + width \<le> length bs \<Longrightarrow> length (slice off width bs) = width"
  by (simp add: slice_def)

lemma slice_copy_at_same:
  assumes "off + length src \<le> length bs" and "width = length src"
  shows "slice off width (copy_at off src bs) = src"
  using assms by (simp add: slice_def copy_at_def)

lemma slice_copy_at_other:
  assumes "off + length src \<le> length bs" and "off' + width \<le> off \<or> off + length src \<le> off'"
  shows "slice off' width (copy_at off src bs) = slice off' width bs"
  using assms
proof (elim disjE)
  assume "off' + width \<le> off"
  then have "take width (drop off' (take off bs @ src @ drop (off + length src) bs)) =
      take width (drop off' (take off bs))"
    using assms(1) by (simp add: take_drop)
  also have "\<dots> = take width (drop off' bs)" using \<open>off' + width \<le> off\<close> by (simp add: take_drop min_def)
  finally show ?thesis by (simp add: slice_def copy_at_def)
next
  assume 1: "off + length src \<le> off'"
  with assms(1) show ?thesis by (simp add: slice_def copy_at_def min_def)
qed

text \<open>
  The interface of an integer that is stored as a field: an encoding of a fixed width that decodes to
  the integer. Writing the field and reading it back gives the integer.
\<close>

locale stored_integer =
  fixes encode :: "'a \<Rightarrow> u8 list" and decode :: "u8 list \<Rightarrow> 'a" and width :: nat
  assumes length_encode: "length (encode x) = width"
    and decode_encode: "decode (encode x) = x"
begin

lemma read_written: "off + width \<le> length bs \<Longrightarrow> decode (slice off width (copy_at off (encode x) bs)) = x"
  by (subst slice_copy_at_same) (simp_all add: length_encode decode_encode)

lemma read_other:
  "off + width \<le> length bs \<Longrightarrow> off' + n \<le> off \<or> off + width \<le> off' \<Longrightarrow>
   slice off' n (copy_at off (encode x) bs) = slice off' n bs"
  by (rule slice_copy_at_other) (simp_all add: length_encode)

lemma length_written: "off + width \<le> length bs \<Longrightarrow> length (copy_at off (encode x) bs) = length bs"
  by (simp add: length_encode)

end

interpretation ne16: stored_integer u16_ne_bytes u16_from_ne 2
proof
  fix x :: u16
  have "unat x < 65536" using unsigned_less [of x, where ?'a = nat] by simp
  then show "u16_from_ne (u16_ne_bytes x) = x"
    by (simp add: u16_from_ne_def u16_ne_bytes_def le_value_le_bytes)
qed (simp add: u16_ne_bytes_def)

interpretation ne32: stored_integer u32_ne_bytes u32_from_ne 4
proof
  fix x :: u32
  have "unat x < 4294967296" using unsigned_less [of x, where ?'a = nat] by simp
  then show "u32_from_ne (u32_ne_bytes x) = x"
    by (simp add: u32_from_ne_def u32_ne_bytes_def le_value_le_bytes)
qed (simp add: u32_ne_bytes_def)

interpretation ne64: stored_integer u64_ne_bytes u64_from_ne 8
proof
  fix x :: u64
  have "unat x < 18446744073709551616" using unsigned_less [of x, where ?'a = nat] by simp
  then show "u64_from_ne (u64_ne_bytes x) = x"
    by (simp add: u64_from_ne_def u64_ne_bytes_def le_value_le_bytes)
qed (simp add: u64_ne_bytes_def)

lemmas stored_field_simps =
  ne16.read_written ne16.read_other ne16.length_written
  ne32.read_written ne32.read_other ne32.length_written
  ne64.read_written ne64.read_other ne64.length_written

end
