(* ===== verification/Class_Id.thy ===== *)
theory Class_Id
  imports Rust_Str
begin

unbundle bit_operations_syntax

text \<open>
  Numeric traffic-class identifiers (\<open>agent/src/policy/classid.rs\<close> with the constants of
  \<open>bpf/include/netqmon_classid.h\<close>), their textual form, and the selection of unused classes that
  the Agent may delete (\<open>agent/src/policy/priority_cleanup.rs\<close>). The JSON class dump of
  \<open>tc\<close> is the list of its entries, each with the three string fields the code reads.
\<close>

section \<open>Class identifiers\<close>

definition download_major :: u32 where "download_major = 0x51"
definition upload_major :: u32 where "upload_major = 0x52"
definition root_minor :: u32 where "root_minor = 1"
definition bypass_minor :: u32 where "bypass_minor = 0xfffe"
definition client_first :: u32 where "client_first = 0x100"
definition client_last :: u32 where "client_last = 0x1ff"
definition default_first :: u32 where "default_first = 0x200"
definition default_last :: u32 where "default_last = 0x2ff"
definition application_first :: u32 where "application_first = 0x1000"
definition application_last :: u32 where "application_last = 0x1fff"
definition applications_per_client :: u32 where "applications_per_client = 0x10"

lemmas class_consts = download_major_def upload_major_def root_minor_def bypass_minor_def
  client_first_def client_last_def default_first_def default_last_def application_first_def
  application_last_def applications_per_client_def

text \<open>\<open>ClassId\<close> wraps its raw number.\<close>

definition class_leaf :: "u32 \<Rightarrow> u32 \<Rightarrow> u32 res" where
  "class_leaf major minor =
     (let allocated_leaf = minor = bypass_minor \<or>
            (default_first \<le> minor \<and> minor \<le> default_last) \<or>
            (application_first \<le> minor \<and> minor \<le> application_last)
      in if \<not> (major = download_major \<or> major = upload_major) \<or> \<not> allocated_leaf
         then Err ''invalid QoS leaf classid''
         else Ok (push_bit 16 major OR minor))"

definition class_to_string :: "u32 \<Rightarrow> string" where
  "class_to_string raw =
     format_hex (unat (drop_bit 16 raw)) @ '':'' @ format_hex (unat (raw AND 0xffff))"

section \<open>Cleanup of unused classes\<close>

record unused_priority_class =
  upc_raw :: u32
  upc_client_parent :: bool

record class_entry =
  ce_handle :: "string option"
  ce_class :: "string option"
  ce_parent :: "string option"

definition hex_u32 :: "string \<Rightarrow> nat option" where
  "hex_u32 value =
     from_str_radix (2 ^ 32) 16 (case strip_prefix ''0x'' value of None \<Rightarrow> value | Some rest \<Rightarrow> rest)"

text \<open>\<open>checked_shl(16)\<close> only checks the shift distance, so it drops the high bits.\<close>

definition parse_classid_text :: "string \<Rightarrow> u32 option" where
  "parse_classid_text value =
     Option.bind (split_once (CHR '':'') value) (\<lambda>(major, minor).
     Option.bind (hex_u32 major) (\<lambda>major.
     Option.bind (hex_u32 minor) (\<lambda>minor.
     checked_add_w (push_bit 16 (of_nat major)) (of_nat minor))))"

definition dynamic_class_parent :: "u32 \<Rightarrow> u32 \<Rightarrow> (u32 \<times> bool) option" where
  "dynamic_class_parent major minor =
     (let root = push_bit 16 major in
      if client_first \<le> minor \<and> minor \<le> client_last then Some (root OR root_minor, True)
      else if default_first \<le> minor \<and> minor \<le> default_last
      then Option.bind (checked_sub_w minor default_first) (\<lambda>slot.
           Option.bind (checked_add_w client_first slot) (\<lambda>parent. Some (root OR parent, False)))
      else if application_first \<le> minor \<and> minor \<le> application_last
      then Option.bind (checked_sub_w minor application_first) (\<lambda>offset.
           Option.bind (checked_add_w client_first (offset div applications_per_client))
             (\<lambda>parent. Some (root OR parent, False)))
      else None)"

text \<open>One entry of the first loop; the state is the list of stale classes.\<close>

definition collect_stale ::
  "u32 \<Rightarrow> u32 set \<Rightarrow> unused_priority_class list \<Rightarrow> class_entry \<Rightarrow> unused_priority_class list res" where
  "collect_stale major desired stale entry =
     (case ce_handle entry of
        None \<Rightarrow> Ok stale
      | Some handle \<Rightarrow>
         (case parse_classid_text handle of
            None \<Rightarrow> Ok stale
          | Some raw \<Rightarrow>
              if drop_bit 16 raw \<noteq> major then Ok stale
              else (case dynamic_class_parent major (raw AND 0xffff) of
                 None \<Rightarrow> Ok stale
               | Some (expected_parent, client_parent) \<Rightarrow>
                   if raw \<in> desired then Ok stale
                   else if ce_class entry \<noteq> Some ''htb''
                   then Err (''priority_class_cleanup_conflict: unexpected class kind for '' @ handle)
                   else and_then (ok_or ''priority_class_cleanup_conflict: missing or invalid parent''
                          (Option.bind (ce_parent entry) parse_classid_text)) (\<lambda>parent.
                   if parent \<noteq> expected_parent
                   then Err (''priority_class_cleanup_conflict: unexpected parent for '' @ handle)
                   else if raw \<in> upc_raw ` set stale
                   then Err (''priority_class_cleanup_conflict: duplicate class '' @ handle)
                   else Ok (stale @ [\<lparr>upc_raw = raw, upc_client_parent = client_parent\<rparr>])))))"

definition check_child ::
  "u32 set \<Rightarrow> unused_priority_class list \<Rightarrow> unused_priority_class \<Rightarrow> class_entry \<Rightarrow> unit res" where
  "check_child desired stale parent child =
     (if Option.bind (ce_parent child) parse_classid_text \<noteq> Some (upc_raw parent) then Ok ()
      else and_then (ok_or ''priority_class_cleanup_conflict: child class has no valid handle''
             (Option.bind (ce_handle child) parse_classid_text)) (\<lambda>child_raw.
      if child_raw \<notin> upc_raw ` set stale \<and> child_raw \<notin> desired
      then Err (''priority_class_cleanup_conflict: unmanaged child of '' @ format_hex (unat (upc_raw parent)))
      else Ok ()))"

definition unused_priority_classes ::
  "class_entry list option \<Rightarrow> u32 \<Rightarrow> u32 set \<Rightarrow> unused_priority_class list res" where
  "unused_priority_classes class_dump major desired =
     and_then (ok_or ''priority class dump not an array'' class_dump) (\<lambda>entries.
     and_then (try_fold (collect_stale major desired) [] entries) (\<lambda>stale.
     and_then (try_each (\<lambda>parent. try_each (check_child desired stale parent) entries)
                 (filter upc_client_parent stale)) (\<lambda>_.
     Ok (sort_key (\<lambda>c. (upc_client_parent c, upc_raw c)) stale))))"

section \<open>Specification\<close>

definition entry_raw :: "class_entry \<Rightarrow> u32 option" where
  "entry_raw entry = Option.bind (ce_handle entry) parse_classid_text"

definition entry_parent :: "class_entry \<Rightarrow> u32 option" where
  "entry_parent entry = Option.bind (ce_parent entry) parse_classid_text"

text \<open>An entry in the Agent's dynamic ranges that the desired set does not contain.\<close>

definition unused_entry :: "u32 \<Rightarrow> u32 set \<Rightarrow> class_entry \<Rightarrow> bool" where
  "unused_entry major desired entry =
     (case entry_raw entry of
        None \<Rightarrow> False
      | Some raw \<Rightarrow> drop_bit 16 raw = major \<and> raw \<notin> desired \<and>
          dynamic_class_parent major (raw AND 0xffff) \<noteq> None)"

text \<open>A class to delete stands for an unused HTB entry with the expected parent.\<close>

definition stands_for :: "u32 \<Rightarrow> class_entry \<Rightarrow> unused_priority_class \<Rightarrow> bool" where
  "stands_for major entry c \<longleftrightarrow>
     entry_raw entry = Some (upc_raw c) \<and> ce_class entry = Some ''htb'' \<and>
     (\<exists>parent. entry_parent entry = Some parent \<and>
        dynamic_class_parent major (upc_raw c AND 0xffff) = Some (parent, upc_client_parent c))"

section \<open>Lemmas\<close>

lemma list_all2_set1: "list_all2 P xs ys \<Longrightarrow> x \<in> set xs \<Longrightarrow> \<exists>y\<in>set ys. P x y"
  by (induction rule: list_all2_induct) auto

lemma list_all2_set2: "list_all2 P xs ys \<Longrightarrow> y \<in> set ys \<Longrightarrow> \<exists>x\<in>set xs. P x y"
  by (induction rule: list_all2_induct) auto

lemma unat_drop_16: "unat (drop_bit 16 (raw :: u32)) = unat raw div 65536"
  by (simp add: drop_bit_eq_div unat_div_distrib)

lemma unat_and_16: "unat ((raw :: u32) AND 0xffff) = unat raw mod 65536"
proof -
  have "(0xffff :: u32) = mask 16" by (simp add: mask_eq_exp_minus_1)
  then show ?thesis
    by (simp only: take_bit_eq_mask [symmetric] unsigned_take_bit_eq) (simp add: take_bit_eq_mod)
qed

lemma is_lower_hex_hex_digit':
  "d < 16 \<Longrightarrow> is_ascii_digit (hex_digit d) \<or> CHR ''a'' \<le> hex_digit d \<and> hex_digit d \<le> CHR ''f''"
  by (auto simp: hex_digit_def is_ascii_digit_def less_eq_char_def)

lemma hex_digits_no: "d < 16 \<Longrightarrow> hex_digit d \<noteq> CHR ''x'' \<and> hex_digit d \<noteq> CHR '':''"
  using is_lower_hex_hex_digit' [of d] by (auto simp: is_ascii_digit_def less_eq_char_def)

lemma set_format_hex: "CHR ''x'' \<notin> set (format_hex n)" "CHR '':'' \<notin> set (format_hex n)"
  using to_radix_set [of 16 n] hex_digits_no by (fastforce simp: format_hex_def)+

lemma hex_u32_format_hex: "n < 2 ^ 32 \<Longrightarrow> hex_u32 (format_hex n) = Some n"
proof -
  have "strip_prefix ''0x'' (format_hex n) = None"
    using set_format_hex(1) [of n] in_set_takeD [of "CHR ''x''" 2 "format_hex n"]
    by (auto simp: strip_prefix_def numeral_2_eq_2)
  then show "n < 2 ^ 32 \<Longrightarrow> hex_u32 (format_hex n) = Some n"
    by (simp add: hex_u32_def from_str_radix_format_hex)
qed

lemma split_once_append: "c \<notin> set a \<Longrightarrow> split_once c (a @ c # b) = Some (a, b)"
  by (induction a) auto

lemma checked_add_parts:
  assumes "d < 65536" "m < 65536"
  shows "checked_add_w (push_bit 16 (of_nat d)) (of_nat m) = Some (of_nat (d * 65536 + m) :: u32)"
proof -
  have "unat (of_nat (d * 65536) :: u32) = d * 65536" "unat (of_nat m :: u32) = m"
    using assms by (simp_all add: unat_of_nat del: of_nat_mult)
  moreover have "push_bit 16 (of_nat d) = (of_nat (d * 65536) :: u32)" by (simp add: push_bit_eq_mult)
  ultimately show ?thesis using assms by (simp add: checked_add_w_def)
qed

lemma parse_class_to_string: "parse_classid_text (class_to_string raw) = Some raw"
proof -
  let ?d = "unat raw div 65536" and ?m = "unat raw mod 65536"
  have lt: "?d < 65536" using unsigned_less [of raw, where ?'a = nat] by (simp add: less_mult_imp_div_less)
  have "class_to_string raw = format_hex ?d @ CHR '':'' # format_hex ?m"
    by (simp add: class_to_string_def unat_drop_16 unat_and_16)
  then have "parse_classid_text (class_to_string raw) = checked_add_w (push_bit 16 (of_nat ?d)) (of_nat ?m)"
    using lt by (simp add: parse_classid_text_def split_once_append set_format_hex hex_u32_format_hex)
  also have "\<dots> = Some (of_nat (?d * 65536 + ?m))" using lt by (intro checked_add_parts) auto
  finally show ?thesis by simp
qed

lemma collect_stale_Ok:
  assumes "collect_stale major desired st e = Ok st'"
  shows "if unused_entry major desired e
    then \<exists>c. st' = st @ [c] \<and> stands_for major e c \<and> upc_raw c \<notin> upc_raw ` set st
    else st' = st"
  using assms
  by (auto simp: collect_stale_def unused_entry_def stands_for_def entry_raw_def entry_parent_def res_simps
      split: option.splits if_splits)

lemma collect_stale_all:
  assumes "try_fold (collect_stale major desired) st es = Ok st'"
  shows "\<exists>new. st' = st @ new \<and>
    list_all2 (stands_for major) (filter (unused_entry major desired) es) new \<and>
    (distinct (map upc_raw st) \<longrightarrow> distinct (map upc_raw st'))"
  using assms
proof (induction es arbitrary: st)
  case (Cons e es)
  then obtain a where a: "collect_stale major desired st e = Ok a"
    "try_fold (collect_stale major desired) a es = Ok st'" by (auto simp: res_simps)
  from Cons.IH [OF a(2)] obtain new where new: "st' = a @ new"
    "list_all2 (stands_for major) (filter (unused_entry major desired) es) new"
    "distinct (map upc_raw a) \<longrightarrow> distinct (map upc_raw st')" by blast
  show ?case
  proof (cases "unused_entry major desired e")
    case True
    with collect_stale_Ok [OF a(1)] obtain c where
      "a = st @ [c]" "stands_for major e c" "upc_raw c \<notin> upc_raw ` set st" by auto
    with new True show ?thesis by (intro exI [of _ "c # new"]) auto
  next
    case False
    with collect_stale_Ok [OF a(1)] new show ?thesis by auto
  qed
qed simp

lemma unused_classes_Ok:
  assumes "unused_priority_classes (Some entries) major desired = Ok rs"
  obtains st where "rs = sort_key (\<lambda>c. (upc_client_parent c, upc_raw c)) st"
    "list_all2 (stands_for major) (filter (unused_entry major desired) entries) st"
    "distinct (map upc_raw st)"
    "\<And>p e. p \<in> set st \<Longrightarrow> upc_client_parent p \<Longrightarrow> e \<in> set entries \<Longrightarrow> entry_parent e = Some (upc_raw p) \<Longrightarrow>
      \<exists>raw. entry_raw e = Some raw \<and> (raw \<in> upc_raw ` set st \<or> raw \<in> desired)"
proof -
  from assms obtain st where e: "try_fold (collect_stale major desired) [] entries = Ok st"
    "rs = sort_key (\<lambda>c. (upc_client_parent c, upc_raw c)) st"
    and children: "\<forall>p\<in>set (filter upc_client_parent st). \<forall>e\<in>set entries. check_child desired st p e = Ok ()"
    by (auto simp: unused_priority_classes_def res_simps)
  show thesis
    using collect_stale_all [OF e(1)] e children
    by (intro that) (auto simp: check_child_def entry_raw_def entry_parent_def res_simps split: if_splits)
qed

text \<open>A class in the client range is never the parent of another client class.\<close>

lemma client_parent_minor:
  assumes "dynamic_class_parent major minor = Some (parent, True)"
  shows "client_first \<le> minor \<and> minor \<le> client_last \<and> parent = push_bit 16 major OR root_minor"
  using assms
  by (auto simp: dynamic_class_parent_def Let_def bind_eq_Some_conv split: if_splits)

lemma mask_16: "(0xffff :: u32) = mask 16"
  by (simp add: mask_eq_exp_minus_1)

lemma low_bits: "(push_bit 16 a OR b) AND 0xffff = (b AND 0xffff :: u32)"
  unfolding mask_16 take_bit_eq_mask [symmetric] take_bit_or
  by (simp only: take_bit_push_bit) simp

lemma root_not_client: "\<not> client_first \<le> ((push_bit 16 major OR root_minor :: u32) AND 0xffff)"
  unfolding low_bits client_first_def root_minor_def by (simp add: word_le_nat_alt)

lemma child_before_parent:
  assumes l2: "list_all2 (stands_for major) (filter (unused_entry major desired) entries) st"
    and "e \<in> set entries" "entry_raw e = Some raw" "entry_parent e = Some (upc_raw p)"
    and p: "p \<in> set st" "upc_client_parent p" and "raw \<in> upc_raw ` set st" "distinct (map upc_raw st)"
  shows "\<exists>c\<in>set st. upc_raw c = raw \<and> \<not> upc_client_parent c"
proof -
  from assms(7) obtain c where c: "c \<in> set st" "upc_raw c = raw" by auto
  with l2 obtain e' where e': "e' \<in> set (filter (unused_entry major desired) entries)" "stands_for major e' c"
    using list_all2_set2 [OF l2] by blast
  then have "unused_entry major desired e"
    using assms(3) c(2) by (auto simp: unused_entry_def stands_for_def)
  with l2 assms(2) obtain c' where c': "c' \<in> set st" "stands_for major e c'"
    using list_all2_set1 [OF l2, of e] by auto
  then have "c' = c"
    using c assms(3,8) by (auto simp: stands_for_def intro: distinct_map_key_eq)
  from p l2 obtain ep where "stands_for major ep p"
    using list_all2_set2 [OF l2] by blast
  with p(2) have minor: "client_first \<le> upc_raw p AND 0xffff"
    by (auto simp: stands_for_def dest: client_parent_minor)
  have "\<not> upc_client_parent c"
  proof
    assume "upc_client_parent c"
    with c' \<open>c' = c\<close> assms(4) have "upc_raw p = push_bit 16 major OR root_minor"
      by (auto simp: stands_for_def dest: client_parent_minor)
    with minor root_not_client show False by simp
  qed
  with c show ?thesis by blast
qed

lemma stands_back:
  assumes "list_all2 (stands_for major) (filter (unused_entry major desired) entries) st" "c \<in> set st"
  shows "\<exists>e\<in>set entries. unused_entry major desired e \<and> stands_for major e c"
  using list_all2_set2 [OF assms] by auto

lemma stands_image:
  assumes "list_all2 (stands_for major) (filter (unused_entry major desired) entries) st"
  shows "upc_raw ` set st = {raw. \<exists>e\<in>set entries. unused_entry major desired e \<and> entry_raw e = Some raw}"
proof -
  have "\<exists>c\<in>set st. stands_for major e c" if "e \<in> set entries" "unused_entry major desired e" for e
    using list_all2_set1 [OF assms, of e] that by auto
  moreover have "entry_raw e = Some (upc_raw c)" if "stands_for major e c" for e c
    using that by (simp add: stands_for_def)
  ultimately show ?thesis using stands_back [OF assms]
    by (intro set_eqI) (simp add: image_iff, metis option.inject)
qed

lemma sorted_split_before:
  assumes "sorted (map f (pre @ p # post))" and "c \<in> set (pre @ p # post)" and "f c < f p"
  shows "c \<in> set pre"
  using assms by (auto simp: sorted_append)

section \<open>Properties\<close>

text \<open>A leaf class identifier is unambiguous: its number determines the hierarchy and the minor it
  was made of, and the text shown to \<open>tc\<close> parses back to the number.\<close>

theorem class_leaf_roundtrip:
  assumes "class_leaf major minor = Ok raw"
  shows "drop_bit 16 raw = major \<and> raw AND 0xffff = minor \<and>
    parse_classid_text (class_to_string raw) = Some raw"
proof -
  have raw: "raw = push_bit 16 major OR minor" and major: "major = 0x51 \<or> major = 0x52"
    and minor: "unat minor < 65536"
    using assms by (auto simp: class_leaf_def Let_def class_consts word_le_nat_alt split: if_splits)
  have "drop_bit 16 minor = 0" "minor AND 0xffff = minor"
    using minor by (simp_all only: word_unat_eq_iff unat_drop_16 unat_and_16) simp_all
  moreover have "drop_bit 16 (push_bit 16 major) = major" using major by auto
  ultimately show ?thesis by (simp add: raw low_bits parse_class_to_string drop_bit_or)
qed

text \<open>Cleanup deletes exactly the unused classes, children first: the classes selected for
  deletion are, each once, the entries of the dump in the dynamic ranges that are not desired, all of
  them HTB classes under their expected parent; and when a client class is deleted, every class of the
  dump below it is still desired or was deleted before.\<close>

theorem cleanup_order:
  assumes "unused_priority_classes (Some entries) major desired = Ok rs"
  shows "distinct (map upc_raw rs) \<and>
    upc_raw ` set rs = {raw. \<exists>e\<in>set entries. unused_entry major desired e \<and> entry_raw e = Some raw} \<and>
    (\<forall>c\<in>set rs. \<exists>e\<in>set entries. stands_for major e c) \<and>
    (\<forall>pre p post e. rs = pre @ p # post \<and> upc_client_parent p \<and> e \<in> set entries \<and>
       entry_parent e = Some (upc_raw p) \<longrightarrow>
       (\<exists>raw. entry_raw e = Some raw \<and> (raw \<in> desired \<or> raw \<in> upc_raw ` set pre)))"
proof -
  from unused_classes_Ok [OF assms] obtain st where
    rs: "rs = sort_key (\<lambda>c. (upc_client_parent c, upc_raw c)) st"
    and l2: "list_all2 (stands_for major) (filter (unused_entry major desired) entries) st"
    and d: "distinct (map upc_raw st)"
    and ch: "\<And>p e. p \<in> set st \<Longrightarrow> upc_client_parent p \<Longrightarrow> e \<in> set entries \<Longrightarrow>
      entry_parent e = Some (upc_raw p) \<Longrightarrow> \<exists>raw. entry_raw e = Some raw \<and> (raw \<in> upc_raw ` set st \<or> raw \<in> desired)"
    by blast
  have "mset (map upc_raw rs) = mset (map upc_raw st)" by (simp only: rs mset_map mset_sort)
  from mset_eq_imp_distinct_iff [OF this] d have 1: "distinct (map upc_raw rs)" by simp
  have 2: "upc_raw ` set rs = {raw. \<exists>e\<in>set entries. unused_entry major desired e \<and> entry_raw e = Some raw}"
    using stands_image [OF l2] by (simp add: rs)
  have 3: "\<forall>c\<in>set rs. \<exists>e\<in>set entries. stands_for major e c"
    using stands_back [OF l2] by (auto simp: rs)
  have "raw \<in> upc_raw ` set pre"
    if "raw \<notin> desired" "rs = pre @ p # post" "upc_client_parent p" "e \<in> set entries" "entry_parent e = Some (upc_raw p)"
      "entry_raw e = Some raw" for pre p post e raw
  proof -
    have p: "p \<in> set st" using that(2) rs by (metis in_set_conv_decomp set_sort)
    with ch that have "raw \<in> upc_raw ` set st" by force
    from child_before_parent [OF l2 that(4,6,5) p that(3) this d] obtain c where
      c: "c \<in> set rs" "upc_raw c = raw" "\<not> upc_client_parent c" by (auto simp: rs)
    have "sorted (map (\<lambda>c. (upc_client_parent c, upc_raw c)) (pre @ p # post))"
      using sorted_sort_key [of _ st] by (simp only: rs [symmetric] that(2) [symmetric]) (simp add: rs)
    then have "c \<in> set pre" by (rule sorted_split_before) (use c that in auto)
    then show "raw \<in> upc_raw ` set pre" using c by blast
  qed
  note before = this
  have "\<exists>raw. entry_raw e = Some raw \<and> (raw \<in> desired \<or> raw \<in> upc_raw ` set pre)"
    if "rs = pre @ p # post" "upc_client_parent p" "e \<in> set entries" "entry_parent e = Some (upc_raw p)"
    for pre p post e
  proof -
    have "p \<in> set st" using that(1) rs by (metis in_set_conv_decomp set_sort)
    with ch that obtain raw where "entry_raw e = Some raw" by blast
    with before [OF _ that] show ?thesis by blast
  qed
  with 1 2 3 show ?thesis by simp
qed

definition ex_classes :: "class_entry list" where
  "ex_classes =
     [\<lparr>ce_handle = Some ''51:100'', ce_class = Some ''htb'', ce_parent = Some ''51:1''\<rparr>,
      \<lparr>ce_handle = Some ''51:200'', ce_class = Some ''htb'', ce_parent = Some ''51:100''\<rparr>]"

definition ex_unused :: "unused_priority_class list" where
  "ex_unused = [\<lparr>upc_raw = 0x510200, upc_client_parent = False\<rparr>, \<lparr>upc_raw = 0x510100, upc_client_parent = True\<rparr>]"

lemma ex_classes_parse: "parse_classid_text ''51:100'' = Some 0x510100"
  "parse_classid_text ''51:200'' = Some 0x510200" "parse_classid_text ''51:1'' = Some 0x510001"
  by code_simp+

lemma ex_classes_parent: "dynamic_class_parent 0x51 0x100 = Some (0x510001, True)"
  "dynamic_class_parent 0x51 0x200 = Some (0x510100, False)"
  by code_simp+

lemma ex_classes_bits: "drop_bit 16 (0x510100 :: u32) = 0x51" "drop_bit 16 (0x510200 :: u32) = 0x51"
  "(0x510100 :: u32) AND 0xffff = 0x100" "(0x510200 :: u32) AND 0xffff = 0x200"
  by simp_all

lemma ex_classes_unused: "unused_priority_classes (Some ex_classes) 0x51 {} = Ok ex_unused"
  by (simp add: unused_priority_classes_def ex_classes_def ex_unused_def collect_stale_def check_child_def
      res_simps ex_classes_parse ex_classes_parent ex_classes_bits insort_key.simps)

theorem cleanup_order_witness:
  "upc_raw ` set ex_unused = {raw. \<exists>e\<in>set ex_classes. unused_entry 0x51 {} e \<and> entry_raw e = Some raw}"
  using cleanup_order [OF ex_classes_unused] by blast

theorem class_leaf_roundtrip_witness:
  "parse_classid_text (class_to_string 0x511000) = Some 0x511000"
proof -
  have "class_leaf 0x51 0x1000 = Ok 0x511000" by code_simp
  from class_leaf_roundtrip [OF this] show ?thesis by simp
qed

end
