(* ===== verification/Priority_Slots.thy ===== *)
theory Priority_Slots
  imports Slot_Allocation Mac_Identity Class_Id
begin

text \<open>
  Client slots of the priority backend (\<open>agent/src/policy/priority_slots.rs\<close>): a lease binds a
  client's canonical MAC address to one of 256 slots, from which the class identifiers of the client
  are computed. A retired client keeps its slot.
\<close>

section \<open>Leases\<close>

definition slot_count :: u32 where
  "slot_count = client_last - client_first + 1"

record client_slot_lease =
  csl_mac :: string
  csl_slot :: u16
  csl_active :: bool

definition canonical_mac :: "string \<Rightarrow> mac_address res" where
  "canonical_mac value =
     and_then (map_err (\<lambda>error. ''priority_identity_invalid: '' @ mac_error_text error) (mac_from_str value))
       (\<lambda>mac. if \<not> is_unicast mac \<or> mac_to_string mac \<noteq> value
          then Err ''priority_identity_invalid: expected a canonical unicast client MAC''
          else Ok mac)"

definition lease_validate :: "client_slot_lease \<Rightarrow> unit res" where
  "lease_validate lease =
     and_then (canonical_mac (csl_mac lease)) (\<lambda>_.
     if slot_count \<le> ucast (csl_slot lease) \<or> default_last < default_first + ucast (csl_slot lease)
     then Err ''priority_classid_invalid: client slot is outside the shared ABI''
     else Ok ())"

definition parent_minor :: "client_slot_lease \<Rightarrow> u32 res" where
  "parent_minor lease = and_then (lease_validate lease) (\<lambda>_. Ok (client_first + ucast (csl_slot lease)))"

definition default_leaf :: "u32 \<Rightarrow> client_slot_lease \<Rightarrow> u32 res" where
  "default_leaf major lease =
     and_then (lease_validate lease) (\<lambda>_. class_leaf major (default_first + ucast (csl_slot lease)))"

section \<open>Allocation\<close>

text \<open>One saved lease; the state holds the occupied slots and the leases.\<close>

definition keep_lease ::
  "string set \<Rightarrow> u16 set \<times> (string, client_slot_lease) btree_map \<Rightarrow> client_slot_lease \<Rightarrow>
    (u16 set \<times> (string, client_slot_lease) btree_map) res" where
  "keep_lease selected state lease =
     (let (occupied, leases) = state in
      and_then (lease_validate lease) (\<lambda>_.
      if csl_slot lease \<in> occupied \<or> map_of leases (csl_mac lease) \<noteq> None
      then Err ''priority_classid_conflict: duplicate client or class lease''
      else Ok (insert (csl_slot lease) occupied,
               (csl_mac lease, lease\<lparr>csl_active := csl_mac lease \<in> selected\<rparr>) # leases)))"

definition slot_candidates :: "string \<Rightarrow> u16 list" where
  "slot_candidates mac = map of_nat [0..<unat slot_count]"

definition new_lease :: "string \<Rightarrow> u16 \<Rightarrow> client_slot_lease" where
  "new_lease mac slot = \<lparr>csl_mac = mac, csl_slot = slot, csl_active = True\<rparr>"

definition allocate :: "string set \<Rightarrow> client_slot_lease list \<Rightarrow> client_slot_lease list res" where
  "allocate selected previous =
     (if card selected > unat slot_count \<or> length previous > unat slot_count
      then Err ''priority_class_slots_exhausted: at most 256 client leases are available''
      else and_then (try_each (\<lambda>mac. and_then (canonical_mac mac) (\<lambda>_. Ok ())) (sorted_list_of_set selected)) (\<lambda>_.
           and_then (try_fold (keep_lease selected) ({}, []) previous) (\<lambda>state.
           and_then (try_fold (assign_step slot_candidates new_lease
               ''priority_class_slots_exhausted: retired client queues require verified drain before reuse'')
               state (sorted_list_of_set selected)) (\<lambda>(occupied, leases).
           Ok (sort_key csl_slot (bt_values leases))))))"

section \<open>Specification\<close>

definition all_slots :: "u16 set" where
  "all_slots = {slot. unat slot < 256}"

section \<open>Lemmas\<close>

lemma slot_count_256: "slot_count = 256"
  by (simp add: slot_count_def class_consts)

lemma all_slots_image: "all_slots = of_nat ` {0..<256}"
proof (intro set_eqI iffI)
  fix s assume "s \<in> all_slots"
  then have "s = of_nat (unat s)" "unat s \<in> {0..<256}" by (simp_all add: all_slots_def)
  then show "s \<in> of_nat ` {0..<256}" by blast
qed (auto simp: all_slots_def unat_of_nat)

lemma card_all_slots: "card all_slots = 256" and finite_all_slots: "finite all_slots"
proof -
  have "inj_on (of_nat :: nat \<Rightarrow> u16) {0..<256}"
  proof (rule inj_onI)
    fix x y :: nat assume "x \<in> {0..<256}" "y \<in> {0..<256}" "(of_nat x :: u16) = of_nat y"
    then have "unat (of_nat x :: u16) = unat (of_nat y :: u16)" "x < 256" "y < 256" by auto
    then show "x = y" by (simp add: unat_of_nat)
  qed
  then show "card all_slots = 256" by (simp add: all_slots_image card_image)
  show "finite all_slots" by (simp add: all_slots_image)
qed

lemma unat_u16_u32: "unat (ucast (x :: u16) :: u32) = unat x"
  using unsigned_less [of x, where ?'a = nat] by (simp add: unsigned_ucast_eq take_bit_eq_mod)

lemma lease_validate_iff:
  "lease_validate lease = Ok () \<longleftrightarrow> is_ok (canonical_mac (csl_mac lease)) \<and> csl_slot lease \<in> all_slots"
proof -
  have "unat (0x200 + ucast (csl_slot lease) :: u32) = 0x200 + unat (csl_slot lease)"
    using unsigned_less [of "csl_slot lease", where ?'a = nat]
    by (subst unat_add_lem [THEN iffD1]) (simp_all add: unat_u16_u32)
  then show ?thesis
    by (auto simp: lease_validate_def res_simps is_ok_iff slot_count_256 class_consts all_slots_def
        word_le_nat_alt word_less_nat_alt unat_u16_u32)
qed

interpretation slots: probe_allocation slot_candidates "\<lambda>_. all_slots" new_lease "\<lambda>_. csl_slot"
  by unfold_locales (auto simp: slot_candidates_def all_slots_image slot_count_256 new_lease_def)

text \<open>The saved leases are kept exactly when they are valid and distinct.\<close>

definition kept :: "string set \<Rightarrow> client_slot_lease \<Rightarrow> string \<times> client_slot_lease" where
  "kept selected lease = (csl_mac lease, lease\<lparr>csl_active := csl_mac lease \<in> selected\<rparr>)"

lemma keep_step:
  "keep_lease selected (occ, m) l = Ok st \<longleftrightarrow> lease_validate l = Ok () \<and> csl_slot l \<notin> occ \<and>
     csl_mac l \<notin> dom (map_of m) \<and> st = (insert (csl_slot l) occ, kept selected l # m)"
  by (auto simp: keep_lease_def res_simps kept_def)

lemma keep_fold:
  "try_fold (keep_lease selected) (occ, m) ls = Ok st \<longleftrightarrow>
     (\<forall>l\<in>set ls. lease_validate l = Ok ()) \<and> distinct (map csl_slot ls) \<and> distinct (map csl_mac ls) \<and>
     csl_slot ` set ls \<inter> occ = {} \<and> csl_mac ` set ls \<inter> dom (map_of m) = {} \<and>
     st = (csl_slot ` set ls \<union> occ, rev (map (kept selected) ls) @ m)"
proof (induction ls arbitrary: occ m)
  case (Cons l ls)
  have "dom (map_of (kept selected l # m)) = insert (csl_mac l) (dom (map_of m))"
    by (auto simp: kept_def)
  then show ?case
    by (simp add: res_simps keep_step Cons.IH del: map_of.simps) (auto simp: image_iff)
qed auto

lemma map_of_kept:
  assumes "distinct (map csl_mac ls)"
  shows "map_of (rev (map (kept selected) ls)) mac = Some l' \<longleftrightarrow>
    (\<exists>l\<in>set ls. csl_mac l = mac \<and> l' = l\<lparr>csl_active := mac \<in> selected\<rparr>)"
proof -
  have "distinct (map fst (rev (map (kept selected) ls)))"
    using assms by (simp add: kept_def o_def rev_map [symmetric])
  then show ?thesis by (auto simp: map_of_eq_Some_iff kept_def)
qed

lemma dom_kept: "dom (map_of (rev (map (kept selected) ls))) = csl_mac ` set ls"
  by (simp add: dom_map_of_conv_image_fst kept_def image_image)

lemma kept_consistent:
  assumes "\<forall>l\<in>set ls. lease_validate l = Ok ()" "distinct (map csl_slot ls)" "distinct (map csl_mac ls)"
  shows "slots.consistent (csl_slot ` set ls, rev (map (kept selected) ls))"
proof -
  let ?m = "map_of (rev (map (kept selected) ls))"
  have slot: "csl_slot (the (?m (csl_mac l))) = csl_slot l" if "l \<in> set ls" for l
  proof -
    have "?m (csl_mac l) = Some (l\<lparr>csl_active := csl_mac l \<in> selected\<rparr>)"
      using that by (auto simp: map_of_kept [OF assms(3)])
    then show ?thesis by simp
  qed
  have "inj_on (\<lambda>k. csl_slot (the (?m k))) (dom ?m)"
    unfolding dom_kept using assms(2) by (auto simp: inj_on_def slot) (metis distinct_map_key_eq)
  moreover have "csl_slot v \<in> all_slots \<and> csl_slot v \<in> csl_slot ` set ls" if "?m k = Some v" for k v
    using that assms(1) by (auto simp: map_of_kept [OF assms(3)] lease_validate_iff)
  ultimately show ?thesis by (simp add: slots.consistent_def)
qed

lemma allocate_Ok:
  assumes "finite selected"
  shows "allocate selected previous = Ok leases \<longleftrightarrow>
    card selected \<le> 256 \<and> length previous \<le> 256 \<and> (\<forall>mac\<in>selected. is_ok (canonical_mac mac)) \<and>
    (\<forall>l\<in>set previous. lease_validate l = Ok ()) \<and> distinct (map csl_slot previous) \<and>
    distinct (map csl_mac previous) \<and>
    (\<exists>occ m. try_fold (assign_step slot_candidates new_lease
       ''priority_class_slots_exhausted: retired client queues require verified drain before reuse'')
       (csl_slot ` set previous, rev (map (kept selected) previous)) (sorted_list_of_set selected) = Ok (occ, m) \<and>
     leases = sort_key csl_slot (bt_values m))"
  using assms
  by (auto simp: allocate_def res_simps keep_fold slot_count_256 is_ok_iff)

text \<open>The lease a map of a successful allocation holds for a client.\<close>

lemma allocated_lease:
  assumes fold: "try_fold (assign_step slot_candidates new_lease err)
       (csl_slot ` set previous, rev (map (kept selected) previous)) (sorted_list_of_set selected) = Ok (occ, m)"
    and "finite selected" "distinct (map csl_mac previous)" and "map_of m mac = Some l"
  shows "csl_mac l = mac \<and> (csl_active l \<longleftrightarrow> mac \<in> selected)"
  using slots.all_new [OF fold, simplified, OF assms(4)] assms(2)
  by (auto simp: map_of_kept [OF assms(3)] new_lease_def)

lemma bt_values_keys:
  assumes "\<And>k v. map_of m k = Some v \<Longrightarrow> f v = k"
  shows "f ` set (bt_values m) = dom (map_of m) \<and> distinct (map f (bt_values m))"
proof -
  have "inj_on (f \<circ> the \<circ> map_of m) (dom (map_of m))" using assms by (auto simp: inj_on_def)
  moreover have "f ` ran (map_of m) = dom (map_of m)" using assms by (force simp: ran_def dom_def)
  ultimately show ?thesis by (auto simp: set_bt_values intro: distinct_bt_values)
qed

lemma allocate_leases:
  assumes "allocate selected previous = Ok leases" and "finite selected"
  shows "sorted_wrt (<) (map csl_slot leases) \<and> distinct (map csl_mac leases) \<and>
    csl_mac ` set leases = selected \<union> csl_mac ` set previous \<and>
    (\<forall>l\<in>set leases. lease_validate l = Ok () \<and> (csl_active l \<longleftrightarrow> csl_mac l \<in> selected)) \<and>
    (\<forall>l\<in>set previous. l\<lparr>csl_active := csl_mac l \<in> selected\<rparr> \<in> set leases)"
proof -
  from assms obtain occ m where canon: "\<forall>mac\<in>selected. is_ok (canonical_mac mac)"
    and valid: "\<forall>l\<in>set previous. lease_validate l = Ok ()"
    and d: "distinct (map csl_slot previous)" "distinct (map csl_mac previous)"
    and fold: "try_fold (assign_step slot_candidates new_lease
       ''priority_class_slots_exhausted: retired client queues require verified drain before reuse'')
       (csl_slot ` set previous, rev (map (kept selected) previous)) (sorted_list_of_set selected) = Ok (occ, m)"
    and leases: "leases = sort_key csl_slot (bt_values m)"
    by (auto simp: allocate_Ok)
  from slots.all_consistent [OF fold kept_consistent [OF valid d]]
  have cons: "slots.consistent (occ, m)" and le: "map_of (rev (map (kept selected) previous)) \<subseteq>\<^sub>m map_of m"
    and dom: "dom (map_of m) = selected \<union> csl_mac ` set previous"
    using assms(2) by (auto simp: dom_kept)
  note lease = allocated_lease [OF fold assms(2) d(2)]
  have keys: "csl_mac ` set leases = dom (map_of m)" "distinct (map csl_mac leases)"
    using bt_values_keys [of m csl_mac] lease by (auto simp: leases mset_eq_imp_distinct_iff [of "map csl_mac (sort_key csl_slot (bt_values m))" "map csl_mac (bt_values m)"])
  have "distinct (map csl_slot (bt_values m))"
    using cons by (intro distinct_bt_values) (simp add: slots.consistent_def o_def)
  then have "sorted_wrt (<) (map csl_slot leases)" by (simp add: leases strict_sorted_sort_key)
  moreover have "lease_validate l = Ok () \<and> (csl_active l \<longleftrightarrow> csl_mac l \<in> selected)" if "l \<in> set leases" for l
  proof -
    from that obtain mac where mac: "map_of m mac = Some l" by (auto simp: leases set_bt_values ran_def)
    with cons have "csl_slot l \<in> all_slots" by (simp add: slots.consistent_def)
    moreover have "is_ok (canonical_mac mac)"
      using mac dom canon valid by (force simp: dom_def lease_validate_iff)
    ultimately show ?thesis using lease [OF mac] by (simp add: lease_validate_iff)
  qed
  moreover have "l\<lparr>csl_active := csl_mac l \<in> selected\<rparr> \<in> set leases" if "l \<in> set previous" for l
  proof -
    have "map_of (rev (map (kept selected) previous)) (csl_mac l) = Some (l\<lparr>csl_active := csl_mac l \<in> selected\<rparr>)"
      using that by (auto simp: map_of_kept [OF d(2)])
    with le have "map_of m (csl_mac l) = Some (l\<lparr>csl_active := csl_mac l \<in> selected\<rparr>)"
      by (metis domI map_le_def)
    then show ?thesis by (simp add: leases set_bt_values ranI)
  qed
  ultimately show ?thesis using keys dom by simp
qed

lemma allocate_total:
  assumes "finite selected"
  shows "is_ok (allocate selected previous) \<longleftrightarrow>
    (\<forall>mac\<in>selected. is_ok (canonical_mac mac)) \<and> (\<forall>l\<in>set previous. lease_validate l = Ok ()) \<and>
    distinct (map csl_slot previous) \<and> distinct (map csl_mac previous) \<and>
    card (selected \<union> csl_mac ` set previous) \<le> 256"
proof -
  let ?err = "''priority_class_slots_exhausted: retired client queues require verified drain before reuse''"
  let ?st = "(csl_slot ` set previous, rev (map (kept selected) previous))"
  let ?all = "selected \<union> csl_mac ` set previous"
  have fin: "finite ?all" using assms by simp
  have fits: "(\<exists>occ m. try_fold (assign_step slot_candidates new_lease ?err) ?st (sorted_list_of_set selected) = Ok (occ, m)) \<longleftrightarrow>
      card ?all \<le> 256" (is "?ok \<longleftrightarrow> _")
    if valid: "\<forall>l\<in>set previous. lease_validate l = Ok ()"
      and d: "distinct (map csl_slot previous)" "distinct (map csl_mac previous)"
  proof
    assume ?ok
    then obtain occ m where fold: "try_fold (assign_step slot_candidates new_lease ?err) ?st
      (sorted_list_of_set selected) = Ok (occ, m)" by blast
    from slots.all_consistent [OF fold kept_consistent [OF valid d]] assms
    have "slots.consistent (occ, m)" "dom (map_of m) = ?all" by (auto simp: dom_kept)
    with slots.consistent_card [of "(occ, m)" all_slots] show "card ?all \<le> 256"
      by (simp add: card_all_slots finite_all_slots)
  next
    assume le: "card ?all \<le> 256"
    have "csl_slot ` set previous \<inter> all_slots = csl_slot ` set previous"
      using valid by (auto simp: lease_validate_iff)
    moreover have "card (csl_slot ` set previous) = card (csl_mac ` set previous)"
      using d by (metis card_distinct distinct_card length_map list.set_map)
    moreover have "card ?all = card (csl_mac ` set previous) + card (selected - csl_mac ` set previous)"
      using assms by (subst card_Un_disjoint [symmetric]) (auto intro: arg_cong [of _ _ card])
    ultimately show ?ok
      using slots.all_total [of "sorted_list_of_set selected" all_slots ?st ?err] assms le
      by (simp add: card_all_slots dom_kept)
  qed
  have len: "length previous \<le> 256 \<and> card selected \<le> 256"
    if "card ?all \<le> 256" "distinct (map csl_mac previous)"
    using that card_mono [OF fin, of selected] card_mono [OF fin, of "csl_mac ` set previous"]
      distinct_card [of "map csl_mac previous"] by auto
  show ?thesis
    using fits len by (auto simp: is_ok_iff allocate_Ok [OF assms])
qed

section \<open>Properties\<close>

text \<open>C18. Slots are stable and never shared: after an allocation every client selected now or leased
  before has exactly one valid lease, the leases are in the order of their distinct slots, a client
  leased before has the slot it had, and a lease is active exactly when its client is selected.\<close>

theorem priority_slots_stable:
  assumes "allocate selected previous = Ok leases" and "finite selected"
  shows "sorted_wrt (<) (map csl_slot leases) \<and> distinct (map csl_mac leases) \<and>
    csl_mac ` set leases = selected \<union> csl_mac ` set previous \<and>
    (\<forall>l\<in>set leases. lease_validate l = Ok () \<and> (csl_active l \<longleftrightarrow> csl_mac l \<in> selected)) \<and>
    (\<forall>l\<in>set previous. l\<lparr>csl_active := csl_mac l \<in> selected\<rparr> \<in> set leases)"
  using assms by (rule allocate_leases)

text \<open>Allocation fails only for cause: it succeeds exactly when the selected clients are canonical
  unicast addresses, the saved leases are valid and distinct, and all clients together fit in the 256
  slots.\<close>

theorem priority_slots_total:
  assumes "finite selected"
  shows "is_ok (allocate selected previous) \<longleftrightarrow>
    (\<forall>mac\<in>selected. is_ok (canonical_mac mac)) \<and> (\<forall>l\<in>set previous. lease_validate l = Ok ()) \<and>
    distinct (map csl_slot previous) \<and> distinct (map csl_mac previous) \<and>
    card (selected \<union> csl_mac ` set previous) \<le> 256"
  using assms by (rule allocate_total)

definition ex_mac :: string where
  "ex_mac = ''02:00:00:00:00:01''"

definition ex_leases :: "client_slot_lease list" where
  "ex_leases = [\<lparr>csl_mac = ''02:00:00:00:00:02'', csl_slot = 0, csl_active = True\<rparr>]"

lemma ex_allocate: "is_ok (allocate {ex_mac} ex_leases)"
  by code_simp

theorem priority_slots_stable_witness:
  "(\<exists>leases. allocate {ex_mac} ex_leases = Ok leases \<and>
     \<lparr>csl_mac = ''02:00:00:00:00:02'', csl_slot = 0, csl_active = False\<rparr> \<in> set leases)"
proof -
  obtain leases where ok: "allocate {ex_mac} ex_leases = Ok leases" using ex_allocate by (auto simp: is_ok_iff)
  from priority_slots_stable [OF ok] have
    "\<forall>l\<in>set ex_leases. l\<lparr>csl_active := csl_mac l \<in> {ex_mac}\<rparr> \<in> set leases" by simp
  then show ?thesis using ok by (auto simp: ex_leases_def ex_mac_def)
qed

theorem priority_slots_total_witness:
  "card ({ex_mac} \<union> csl_mac ` set ex_leases) \<le> 256"
  using priority_slots_total [of "{ex_mac}" ex_leases] ex_allocate by simp

end
