(* ===== verification/Priority_Maps.thy ===== *)
theory Priority_Maps
  imports Io_Result Byte_Layout Priority_Slots
begin

text \<open>
  The client map of the priority backend (\<open>agent/src/linux/qos_priority_maps.rs\<close>): assignments of
  clients to classes, their encoding as the key and the value of a BPF map, and the publication of a
  freshly built map in the outer map that the BPF programs read. The kernel is reached through the
  BPF library; its operations are the parameter \<open>map_kernel\<close>.
\<close>

section \<open>Entries\<close>

record client_map_entry =
  cme_mac :: string
  cme_slot :: u16
  cme_delivery_ifindex :: u32
  cme_flags :: u32
  cme_generation :: u32
  cme_expires_ns :: u64
  cme_upload_classid :: u32
  cme_download_classid :: u32

definition client_map_entry_new ::
  "client_slot_lease \<Rightarrow> u32 \<Rightarrow> bool \<Rightarrow> bool \<Rightarrow> bool \<Rightarrow> u32 \<Rightarrow> u64 \<Rightarrow> client_map_entry res" where
  "client_map_entry_new lease delivery_ifindex upload download blocked generation expires_ns =
     and_then (lease_validate lease) (\<lambda>_.
     if \<not> csl_active lease \<or> generation = 0 \<or> expires_ns = 0 \<or> (download \<and> delivery_ifindex = 0)
     then Err ''priority_map_invalid: inactive, incomplete or expired client assignment''
     else and_then (default_leaf upload_major lease) (\<lambda>upload_classid.
          and_then (default_leaf download_major lease) (\<lambda>download_classid.
          Ok \<lparr>cme_mac = csl_mac lease, cme_slot = csl_slot lease, cme_delivery_ifindex = delivery_ifindex,
              cme_flags = of_bool upload OR push_bit 1 (of_bool download) OR push_bit 2 (of_bool blocked),
              cme_generation = generation, cme_expires_ns = expires_ns,
              cme_upload_classid = upload_classid, cme_download_classid = download_classid\<rparr>)))"

definition inconsistent_entry :: string where
  "inconsistent_entry = ''priority_map_invalid: client assignment is inconsistent with canonical classes''"

definition entry_value :: "client_map_entry \<Rightarrow> u8 list" where
  "entry_value entry =
     copy_at 16 (u64_ne_bytes (cme_expires_ns entry))
       (fold (\<lambda>(offset, field). copy_at offset (u32_ne_bytes field))
         [(0, ucast (cme_slot entry)), (4, cme_delivery_ifindex entry), (8, cme_flags entry),
          (12, cme_generation entry), (24, cme_upload_classid entry), (28, cme_download_classid entry)]
         (replicate 32 0))"

definition entry_bytes :: "client_map_entry \<Rightarrow> (u8 list \<times> u8 list) res" where
  "entry_bytes entry =
     (let lease = \<lparr>csl_mac = cme_mac entry, csl_slot = cme_slot entry, csl_active = True\<rparr> in
      and_then (lease_validate lease) (\<lambda>_.
      if cme_flags entry AND NOT 7 \<noteq> 0 \<or> cme_generation entry = 0 \<or> cme_expires_ns entry = 0 \<or>
         (cme_flags entry AND 2 \<noteq> 0 \<and> cme_delivery_ifindex entry = 0)
      then Err inconsistent_entry
      else and_then (default_leaf upload_major lease) (\<lambda>upload_classid.
      if cme_upload_classid entry \<noteq> upload_classid then Err inconsistent_entry
      else and_then (default_leaf download_major lease) (\<lambda>download_classid.
      if cme_download_classid entry \<noteq> download_classid then Err inconsistent_entry
      else and_then (map_err mac_error_text (mac_from_str (cme_mac entry))) (\<lambda>mac.
      Ok (copy_at 0 mac (replicate 8 0), entry_value entry))))))"

section \<open>The kernel\<close>

text \<open>
  A map handle is a file descriptor of a map; the kernel state is not looked into. Operations that
  change it return the new state, those that only read it a result.
\<close>

datatype map_type = HashMap | ArrayMap | ArrayOfMaps | LpmTrie | OtherMap

record map_shape =
  mh_type :: map_type
  mh_key_size :: u32
  mh_value_size :: u32
  mh_max_entries :: u32

record ('h, 'k) map_kernel =
  mk_monotonic_ns :: "'k \<Rightarrow> u64"
  mk_shape :: "'h \<Rightarrow> map_shape"
  mk_raw_fd :: "'h \<Rightarrow> int"
  mk_id :: "'h \<Rightarrow> 'k \<Rightarrow> u32 res"
  mk_flags :: "'h \<Rightarrow> 'k \<Rightarrow> u32 res"
  mk_btf :: "'h \<Rightarrow> 'k \<Rightarrow> (u32 \<times> u32 \<times> u32) res"
  mk_btf_fd :: "u32 \<Rightarrow> 'k \<Rightarrow> int res"
  mk_clone :: "'h \<Rightarrow> 'k \<Rightarrow> 'h res"
  mk_create :: "u32 \<Rightarrow> u32 \<Rightarrow> u32 \<Rightarrow> 'k \<Rightarrow> 'k \<times> 'h res"
  mk_update :: "'h \<Rightarrow> u8 list \<Rightarrow> u8 list \<Rightarrow> 'k \<Rightarrow> 'k \<times> unit res"
  mk_keys :: "'h \<Rightarrow> 'k \<Rightarrow> nat"
  mk_lookup :: "'h \<Rightarrow> u8 list \<Rightarrow> 'k \<Rightarrow> u8 list option res"
  mk_freeze :: "'h \<Rightarrow> 'k \<Rightarrow> 'k \<times> unit res"
  mk_outer_update :: "u8 list \<Rightarrow> u8 list \<Rightarrow> 'k \<Rightarrow> 'k \<times> unit res"
  mk_outer_lookup :: "u8 list \<Rightarrow> 'k \<Rightarrow> u8 list option res"

text \<open>\<open>u32::try_from\<close> of a descriptor.\<close>

definition u32_of_fd :: "int \<Rightarrow> u32 res" where
  "u32_of_fd fd = (if 0 \<le> fd then Ok (of_int fd) else Err ''out of range integral type conversion attempted'')"

definition bpf_f_rdonly_prog :: u32 where
  "bpf_f_rdonly_prog = 128"

definition client_map_abi :: "('h, 'k) map_kernel \<Rightarrow> 'h \<Rightarrow> 'k \<Rightarrow> bool" where
  "client_map_abi K handle k \<longleftrightarrow>
     mh_type (mk_shape K handle) = HashMap \<and> mh_key_size (mk_shape K handle) = 8 \<and>
     mh_value_size (mk_shape K handle) = 32 \<and> mh_max_entries (mk_shape K handle) = 256 \<and>
     (case mk_flags K handle k of Inl _ \<Rightarrow> False | Inr flags \<Rightarrow> flags AND bpf_f_rdonly_prog \<noteq> 0)"

section \<open>Publication\<close>

record ('h, 'k) priority_maps =
  pm_active :: 'h
  pm_configured_internal_v4 :: bool
  pm_configured_internal_v6 :: bool
  pm_poisoned :: bool
  pm_kernel :: 'k

record 'h prepared_clients =
  pc_map :: 'h
  pc_entries :: "client_map_entry list"

definition client_block_networks_ready :: "('h, 'k) priority_maps \<Rightarrow> bool" where
  "client_block_networks_ready maps \<longleftrightarrow> pm_configured_internal_v4 maps \<and> pm_configured_internal_v6 maps"

definition map_op :: "('k \<Rightarrow> 'k \<times> 'a res) \<Rightarrow> (('h, 'k) priority_maps, 'a) io" where
  "map_op f maps = (let (k, r) = f (pm_kernel maps) in (maps\<lparr>pm_kernel := k\<rparr>, r))"

definition map_read :: "('k \<Rightarrow> 'a res) \<Rightarrow> (('h, 'k) priority_maps, 'a) io" where
  "map_read f = io_read (\<lambda>maps. f (pm_kernel maps))"

definition published_id :: "('h, 'k) map_kernel \<Rightarrow> 'k \<Rightarrow> u32 res" where
  "published_id K k =
     and_then (mk_outer_lookup K (u32_ne_bytes 0) k) (\<lambda>found.
     and_then (ok_or ''active client map missing'' found) (\<lambda>value.
     if length value = 4 then Ok (u32_from_ne value) else Err ''invalid outer map value''))"

definition encode_step ::
  "u64 \<Rightarrow> u32 option \<Rightarrow> string set \<times> u16 set \<times> (u8 list \<times> u8 list) list \<Rightarrow> client_map_entry \<Rightarrow>
    (string set \<times> u16 set \<times> (u8 list \<times> u8 list) list) res" where
  "encode_step now generation state entry =
     (let (macs, slots, encoded) = state in
      if cme_expires_ns entry \<le> now then Err ''priority_map_expired: refusing an inactive budget''
      else if cme_mac entry \<in> macs \<or> cme_slot entry \<in> slots \<or> Some (cme_generation entry) \<noteq> generation
      then Err ''priority_map_invalid: duplicate client or class slot''
      else and_then (entry_bytes entry) (\<lambda>bytes.
        Ok (insert (cme_mac entry) macs, insert (cme_slot entry) slots, encoded @ [bytes])))"

definition encode_entries :: "u64 \<Rightarrow> client_map_entry list \<Rightarrow> (u8 list \<times> u8 list) list res" where
  "encode_entries now entries =
     and_then (try_fold (encode_step now (case entries of [] \<Rightarrow> None | e # _ \<Rightarrow> Some (cme_generation e)))
       ({}, {}, []) entries) (\<lambda>(_, _, encoded). Ok encoded)"

definition read_back ::
  "('h, 'k) map_kernel \<Rightarrow> 'h \<Rightarrow> u8 list \<times> u8 list \<Rightarrow> (('h, 'k) priority_maps, unit) io" where
  "read_back K handle kv =
     io_bind (map_read (mk_lookup K handle (fst kv))) (\<lambda>found.
     if found \<noteq> Some (snd kv) then io_err ''priority_map_readback_failed: client assignment'' else io_ok ())"

definition fill_map ::
  "('h, 'k) map_kernel \<Rightarrow> 'h \<Rightarrow> (u8 list \<times> u8 list) list \<Rightarrow> (('h, 'k) priority_maps, unit) io" where
  "fill_map K handle encoded =
     io_bind (io_each (\<lambda>(key, value). map_op (mk_update K handle key value)) encoded) (\<lambda>_.
     io_bind (io_get (\<lambda>maps. mk_keys K handle (pm_kernel maps))) (\<lambda>count.
     if count \<noteq> length encoded then io_err ''priority_map_readback_failed: entry count''
     else io_bind (io_each (read_back K handle) encoded) (\<lambda>_. map_op (mk_freeze K handle))))"

definition prepare ::
  "('h, 'k) map_kernel \<Rightarrow> client_map_entry list \<Rightarrow> (('h, 'k) priority_maps, 'h prepared_clients) io" where
  "prepare K entries =
     io_bind (io_get pm_poisoned) (\<lambda>poisoned.
     if poisoned \<or> 256 < length entries then io_err ''priority_map_unavailable_or_full''
     else io_bind (io_get (\<lambda>maps. mk_monotonic_ns K (pm_kernel maps))) (\<lambda>now.
     if now = 0 then io_err ''priority_clock_unavailable''
     else io_bind (io_lift (encode_entries now entries)) (\<lambda>encoded.
     io_bind (io_read (\<lambda>maps. mk_btf K (pm_active maps) (pm_kernel maps))) (\<lambda>(btf, key_type, value_type).
     if btf = 0 \<or> key_type = 0 \<or> value_type = 0
     then io_err ''priority_map_abi_mismatch: template BTF is required''
     else io_bind (map_read (mk_btf_fd K btf)) (\<lambda>fd.
     io_bind (io_lift (u32_of_fd fd)) (\<lambda>btf_fd.
     io_bind (map_op (mk_create K btf_fd key_type value_type)) (\<lambda>handle.
     io_bind (fill_map K handle encoded) (\<lambda>_.
     io_ok \<lparr>pc_map = handle, pc_entries = entries\<rparr>))))))))"

definition set_outer :: "('h, 'k) map_kernel \<Rightarrow> 'h \<Rightarrow> (('h, 'k) priority_maps, unit) io" where
  "set_outer K handle =
     io_bind (io_lift (u32_of_fd (mk_raw_fd K handle))) (\<lambda>fd.
     io_bind (map_op (mk_outer_update K (u32_ne_bytes 0) (u32_ne_bytes fd))) (\<lambda>_.
     io_bind (map_read (published_id K)) (\<lambda>published.
     io_bind (map_read (mk_id K handle)) (\<lambda>id.
     if published \<noteq> id then io_err ''priority_map_readback_failed: published map ID'' else io_ok ()))))"

text \<open>The first condition of \<open>publish\<close> and \<open>restore\<close>.\<close>

definition check_ownership :: "('h, 'k) map_kernel \<Rightarrow> string \<Rightarrow> (('h, 'k) priority_maps, unit) io" where
  "check_ownership K message =
     io_bind (io_get pm_poisoned) (\<lambda>poisoned.
     if poisoned then io_err message
     else io_bind (map_read (published_id K)) (\<lambda>published.
     io_bind (io_read (\<lambda>maps. mk_id K (pm_active maps) (pm_kernel maps))) (\<lambda>id.
     if published \<noteq> id then io_err message else io_ok ())))"

definition publish :: "('h, 'k) map_kernel \<Rightarrow> 'h prepared_clients \<Rightarrow> (('h, 'k) priority_maps, 'h) io" where
  "publish K next =
     io_bind (check_ownership K ''priority_map_ownership_changed: refusing publication'') (\<lambda>_.
     io_bind (io_read (\<lambda>maps. mk_clone K (pm_active maps) (pm_kernel maps))) (\<lambda>previous.
     io_bind (map_read (mk_clone K (pc_map next))) (\<lambda>next_handle.
     io_bind (io_result (set_outer K next_handle)) (\<lambda>outcome.
     case outcome of
       Inl error \<Rightarrow>
         io_bind (io_result (set_outer K previous)) (\<lambda>restored.
         case restored of
           Inl rollback \<Rightarrow> io_bind (io_modify (\<lambda>maps. maps\<lparr>pm_poisoned := True\<rparr>)) (\<lambda>_.
             io_err (''priority_map_rollback_failed: '' @ error @ ''; '' @ rollback))
         | Inr _ \<Rightarrow> io_err error)
     | Inr _ \<Rightarrow> io_bind (io_modify (\<lambda>maps. maps\<lparr>pm_active := next_handle\<rparr>)) (\<lambda>_. io_ok previous)))))"

definition restore :: "('h, 'k) map_kernel \<Rightarrow> 'h \<Rightarrow> (('h, 'k) priority_maps, unit) io" where
  "restore K previous =
     io_bind (check_ownership K ''priority_map_ownership_changed: rollback requires verified active ownership'') (\<lambda>_.
     io_bind (io_get (\<lambda>maps. client_map_abi K previous (pm_kernel maps))) (\<lambda>abi.
     if \<not> abi then io_err ''priority_map_abi_mismatch: rollback map''
     else io_bind (map_read (mk_clone K previous)) (\<lambda>retained.
     io_bind (io_result (set_outer K retained)) (\<lambda>outcome.
     case outcome of
       Inl error \<Rightarrow> io_bind (io_modify (\<lambda>maps. maps\<lparr>pm_poisoned := True\<rparr>)) (\<lambda>_.
         io_err ''priority_map_rollback_failed'')
     | Inr _ \<Rightarrow> io_modify (\<lambda>maps. maps\<lparr>pm_active := retained, pm_poisoned := False\<rparr>)))))"

definition publish_empty :: "('h, 'k) map_kernel \<Rightarrow> (('h, 'k) priority_maps, unit) io" where
  "publish_empty K = io_bind (prepare K []) (\<lambda>empty. io_bind (publish K empty) (\<lambda>_. io_ok ()))"

section \<open>Specification\<close>

text \<open>
  What is relied on of the kernel: filling and freezing a new map changes neither the published map
  nor the identity of a map, and a duplicated descriptor refers to the same map.
\<close>

definition same_maps :: "('h, 'k) map_kernel \<Rightarrow> 'k \<Rightarrow> 'k \<Rightarrow> bool" where
  "same_maps K k k' \<longleftrightarrow> mk_outer_lookup K (u32_ne_bytes 0) k' = mk_outer_lookup K (u32_ne_bytes 0) k \<and>
     (\<forall>h. mk_id K h k' = mk_id K h k)"

definition kernel_maps_separate :: "('h, 'k) map_kernel \<Rightarrow> bool" where
  "kernel_maps_separate K \<longleftrightarrow>
     (\<forall>fd a b k. same_maps K k (fst (mk_create K fd a b k))) \<and>
     (\<forall>h key value k. same_maps K k (fst (mk_update K h key value k))) \<and>
     (\<forall>h k. same_maps K k (fst (mk_freeze K h k)))"

definition kernel_clones :: "('h, 'k) map_kernel \<Rightarrow> bool" where
  "kernel_clones K \<longleftrightarrow> (\<forall>h k h'. mk_clone K h k = Ok h' \<longrightarrow> (\<forall>k'. mk_id K h' k' = mk_id K h k'))"

text \<open>The map that the BPF programs read is the one the Agent retains.\<close>

definition publishes :: "('h, 'k) map_kernel \<Rightarrow> 'h \<Rightarrow> 'k \<Rightarrow> bool" where
  "publishes K h k \<longleftrightarrow> (\<exists>id. published_id K k = Ok id \<and> mk_id K h k = Ok id)"

definition maps_consistent :: "('h, 'k) map_kernel \<Rightarrow> ('h, 'k) priority_maps \<Rightarrow> bool" where
  "maps_consistent K maps \<longleftrightarrow> pm_poisoned maps \<or> publishes K (pm_active maps) (pm_kernel maps)"

section \<open>Lemmas\<close>

lemma map_op_run: "map_op f maps = (maps\<lparr>pm_kernel := fst (f (pm_kernel maps))\<rparr>, snd (f (pm_kernel maps)))"
  by (simp add: map_op_def split_def Let_def)

lemma map_read_run: "map_read f maps = (maps, f (pm_kernel maps))"
  by (simp add: map_read_def io_simps)

lemmas maps_run = map_op_run map_read_run io_simps

lemma keeps_map_read [keeps_intros]: "keeps P (map_read f)"
  by (simp add: keeps_def map_read_run)

lemma same_maps_publishes: "same_maps K k k' \<Longrightarrow> publishes K h k' = publishes K h k"
  by (simp add: same_maps_def publishes_def published_id_def)

lemma keeps_separate_op:
  assumes "\<And>k. same_maps K k (fst (f k))"
  shows "keeps (maps_consistent K) (map_op f)"
  using same_maps_publishes [OF assms] by (simp add: keeps_def map_op_run maps_consistent_def)

lemma prepare_keeps:
  assumes "kernel_maps_separate K"
  shows "keeps (maps_consistent K) (prepare K entries)"
proof -
  have ops: "keeps (maps_consistent K) (map_op (mk_create K fd a b))"
    "keeps (maps_consistent K) (map_op (mk_update K h key value))"
    "keeps (maps_consistent K) (map_op (mk_freeze K h))" for fd a b h key "value"
    using assms by (auto intro!: keeps_separate_op simp: kernel_maps_separate_def)
  show ?thesis
    unfolding prepare_def fill_map_def read_back_def
    by (intro keeps_intros ops | simp only: split_def)+
qed

text \<open>What \<open>set_outer\<close> changes, and what its success means.\<close>

lemma set_outer_frame:
  "pm_active (fst (set_outer K h maps)) = pm_active maps \<and> pm_poisoned (fst (set_outer K h maps)) = pm_poisoned maps"
  by (simp add: set_outer_def io_bind_run maps_run split: sum.splits)

lemma set_outer_Ok:
  "snd (set_outer K h maps) = Ok u \<Longrightarrow> publishes K h (pm_kernel (fst (set_outer K h maps)))"
  by (auto simp: set_outer_def io_bind_run maps_run publishes_def split: sum.splits if_splits)

lemma check_ownership_frame: "fst (check_ownership K e maps) = maps"
  by (simp add: check_ownership_def io_bind_run maps_run split: sum.splits)

lemma check_ownership_Ok:
  "snd (check_ownership K e maps) = Ok u \<Longrightarrow> \<not> pm_poisoned maps \<and> publishes K (pm_active maps) (pm_kernel maps)"
  by (auto simp: check_ownership_def io_bind_run maps_run publishes_def split: sum.splits if_splits)

lemma clone_publishes: "kernel_clones K \<Longrightarrow> mk_clone K h k = Ok h' \<Longrightarrow> publishes K h' k' = publishes K h k'"
  by (simp add: kernel_clones_def publishes_def)

lemma publish_outcome:
  assumes "kernel_clones K"
  shows "case snd (publish K next maps) of
      Inl _ \<Rightarrow> fst (publish K next maps) = maps \<or>
        (let maps' = fst (publish K next maps) in pm_active maps' = pm_active maps \<and>
          (pm_poisoned maps' \<or> publishes K (pm_active maps) (pm_kernel maps')))
    | Inr previous \<Rightarrow> (let maps' = fst (publish K next maps) in
        publishes K (pm_active maps') (pm_kernel maps') \<and> publishes K (pc_map next) (pm_kernel maps') \<and>
        (\<forall>k. mk_id K previous k = mk_id K (pm_active maps) k))"
proof (cases "snd (check_ownership K ''priority_map_ownership_changed: refusing publication'' maps)")
  case (Inl e)
  then show ?thesis by (simp add: publish_def io_bind_run check_ownership_frame)
next
  case own: (Inr u)
  show ?thesis
  proof (cases "mk_clone K (pm_active maps) (pm_kernel maps)")
    case (Inl e)
    with own show ?thesis by (simp add: publish_def io_bind_run check_ownership_frame maps_run)
  next
    case prev: (Inr previous)
    show ?thesis
    proof (cases "mk_clone K (pc_map next) (pm_kernel maps)")
      case (Inl e)
      with own prev show ?thesis by (simp add: publish_def io_bind_run check_ownership_frame maps_run)
    next
      case nxt: (Inr next_handle)
      let ?o = "set_outer K next_handle maps"
      let ?b = "set_outer K previous (fst ?o)"
      note frame = set_outer_frame [of K next_handle maps] set_outer_frame [of K previous "fst ?o"]
      note run = publish_def io_bind_run check_ownership_frame maps_run own prev nxt frame Let_def
      show ?thesis
      proof (cases "snd ?o")
        case (Inr v)
        have "\<forall>k. mk_id K previous k = mk_id K (pm_active maps) k"
          using assms prev unfolding kernel_clones_def by blast
        with set_outer_Ok [OF Inr] Inr show ?thesis
          using clone_publishes [OF assms nxt] by (simp add: run)
      next
        case err: (Inl e)
        show ?thesis
        proof (cases "snd ?b")
          case (Inl e')
          with err show ?thesis by (simp add: run)
        next
          case (Inr v)
          from set_outer_Ok [OF this] err Inr show ?thesis
            using clone_publishes [OF assms prev] by (simp add: run)
        qed
      qed
    qed
  qed
qed

lemma publish_keeps:
  assumes "kernel_clones K"
  shows "keeps (maps_consistent K) (publish K next)"
proof (rule keepsI)
  fix maps assume "maps_consistent K maps"
  with publish_outcome [OF assms, of "next" maps] show "maps_consistent K (fst (publish K next maps))"
    by (auto simp: maps_consistent_def Let_def split: sum.splits)
qed

lemma restore_keeps:
  assumes "kernel_clones K"
  shows "keeps (maps_consistent K) (restore K previous)"
proof (rule keepsI)
  fix maps assume c: "maps_consistent K maps"
  let ?o = "\<lambda>h. set_outer K h maps"
  have "publishes K h (pm_kernel (fst (?o h)))" if "snd (?o h) = Ok u" for h u
    using set_outer_Ok [OF that] .
  with c show "maps_consistent K (fst (restore K previous maps))"
    by (auto simp: restore_def io_bind_run check_ownership_frame maps_run maps_consistent_def split: sum.splits)
qed

lemma publish_empty_keeps:
  assumes "kernel_clones K" and "kernel_maps_separate K"
  shows "keeps (maps_consistent K) (publish_empty K)"
  unfolding publish_empty_def by (intro keeps_intros publish_keeps prepare_keeps assms)

text \<open>Entries that are encoded are distinct, and each encoded pair belongs to its entry.\<close>

lemma encode_step_Ok:
  "encode_step now generation (macs, slots, encoded) e = Ok st' \<longleftrightarrow>
     now < cme_expires_ns e \<and> cme_mac e \<notin> macs \<and> cme_slot e \<notin> slots \<and> generation = Some (cme_generation e) \<and>
     (\<exists>kv. entry_bytes e = Ok kv \<and> st' = (insert (cme_mac e) macs, insert (cme_slot e) slots, encoded @ [kv]))"
  by (auto simp: encode_step_def res_simps not_le)

lemma encode_entries_Ok:
  assumes "encode_entries now entries = Ok encoded"
  shows "list_all2 (\<lambda>e kv. entry_bytes e = Ok kv) entries encoded \<and> distinct (map cme_mac entries) \<and>
    distinct (map cme_slot entries) \<and> (\<forall>e\<in>set entries. now < cme_expires_ns e)"
proof -
  from assms obtain macs slots where
    "try_fold (encode_step now (case entries of [] \<Rightarrow> None | e # _ \<Rightarrow> Some (cme_generation e)))
       ({}, {}, []) entries = Ok (macs, slots, encoded)"
    by (auto simp: encode_entries_def res_simps)
  then have "case (macs, slots, encoded) of (macs, slots, encoded) \<Rightarrow>
      macs = cme_mac ` set entries \<and> slots = cme_slot ` set entries \<and>
      list_all2 (\<lambda>e kv. entry_bytes e = Ok kv) entries encoded \<and> distinct (map cme_mac entries) \<and>
      distinct (map cme_slot entries) \<and> (\<forall>e\<in>set entries. now < cme_expires_ns e)"
    by (rule try_fold_prefix_invariant [where P = "\<lambda>es (macs, slots, encoded).
      macs = cme_mac ` set es \<and> slots = cme_slot ` set es \<and>
      list_all2 (\<lambda>e kv. entry_bytes e = Ok kv) es encoded \<and> distinct (map cme_mac es) \<and>
      distinct (map cme_slot es) \<and> (\<forall>e\<in>set es. now < cme_expires_ns e)"])
      (auto simp: encode_step_Ok intro: list_all2_appendI)
  then show ?thesis by simp
qed

text \<open>The value of an entry has each field at its offset.\<close>

lemma entry_value_fields:
  "length (entry_value e) = 32" "u32_from_ne (slice 0 4 (entry_value e)) = ucast (cme_slot e)"
  "u32_from_ne (slice 4 4 (entry_value e)) = cme_delivery_ifindex e"
  "u32_from_ne (slice 8 4 (entry_value e)) = cme_flags e"
  "u32_from_ne (slice 12 4 (entry_value e)) = cme_generation e"
  "u64_from_ne (slice 16 8 (entry_value e)) = cme_expires_ns e"
  "u32_from_ne (slice 24 4 (entry_value e)) = cme_upload_classid e"
  "u32_from_ne (slice 28 4 (entry_value e)) = cme_download_classid e"
  by (simp_all add: entry_value_def stored_field_simps)

section \<open>Claims\<close>

text \<open>C9. Publication is atomic: when a prepared map is published the BPF programs read that map and
  the Agent retains it; when publication fails, the Agent retains the map it had, and either nothing
  changed, or the programs read the retained map again, or the maps are marked as poisoned.\<close>

theorem maps_publish_atomic:
  assumes "kernel_clones K" and "publish K next maps = (maps', result)"
  shows "case result of
      Inl _ \<Rightarrow> pm_active maps' = pm_active maps \<and>
        (maps' = maps \<or> pm_poisoned maps' \<or> publishes K (pm_active maps') (pm_kernel maps'))
    | Inr previous \<Rightarrow> publishes K (pm_active maps') (pm_kernel maps') \<and>
        publishes K (pc_map next) (pm_kernel maps') \<and> (\<forall>k. mk_id K previous k = mk_id K (pm_active maps) k)"
  using publish_outcome [OF assms(1), of "next" maps] assms(2)
  by (auto simp: Let_def split: sum.splits)

text \<open>A kernel with numbered maps; the descriptor of a map is its number, and the second component of
  the state is the published map. The last component of the state, if set, is a map that cannot be published.\<close>

record ex_kernel_state =
  xk_maps :: "(u32 \<times> (u8 list \<times> u8 list) list) list"
  xk_published :: u32
  xk_broken :: "u32 option"

definition ex_map_kernel :: "(u32, ex_kernel_state) map_kernel" where
  "ex_map_kernel = \<lparr>mk_monotonic_ns = \<lambda>_. 1000,
     mk_shape = \<lambda>_. \<lparr>mh_type = HashMap, mh_key_size = 8, mh_value_size = 32, mh_max_entries = 256\<rparr>,
     mk_raw_fd = uint, mk_id = \<lambda>h _. Ok h, mk_flags = \<lambda>_ _. Ok 128, mk_btf = \<lambda>_ _. Ok (1, 2, 3),
     mk_btf_fd = \<lambda>_ _. Ok 9, mk_clone = \<lambda>h _. Ok h,
     mk_create = \<lambda>_ _ _ k. (let h = of_nat (length (xk_maps k)) + 1 in
        (k\<lparr>xk_maps := (h, []) # xk_maps k\<rparr>, Ok h)),
     mk_update = \<lambda>h key value k. (k\<lparr>xk_maps := map (\<lambda>(i, m). (i, if i = h then (key, value) # m else m)) (xk_maps k)\<rparr>, Ok ()),
     mk_keys = \<lambda>h k. (case map_of (xk_maps k) h of None \<Rightarrow> 0 | Some m \<Rightarrow> length m),
     mk_lookup = \<lambda>h key k. Ok (case map_of (xk_maps k) h of None \<Rightarrow> None | Some m \<Rightarrow> map_of m key),
     mk_freeze = \<lambda>_ k. (k, Ok ()),
     mk_outer_update = \<lambda>_ value k. (if xk_broken k = Some (u32_from_ne value) then (k, Err ''E2BIG'')
        else (k\<lparr>xk_published := u32_from_ne value\<rparr>, Ok ())),
     mk_outer_lookup = \<lambda>_ k. Ok (Some (u32_ne_bytes (xk_published k)))\<rparr>"

definition ex_maps :: "u32 option \<Rightarrow> (u32, ex_kernel_state) priority_maps" where
  "ex_maps broken = \<lparr>pm_active = 1, pm_configured_internal_v4 = True, pm_configured_internal_v6 = True, pm_poisoned = False,
     pm_kernel = \<lparr>xk_maps = [(1, [])], xk_published = 1, xk_broken = broken\<rparr>\<rparr>"

lemma ex_map_kernel_laws: "kernel_clones ex_map_kernel" "kernel_maps_separate ex_map_kernel"
  by (simp_all add: kernel_clones_def kernel_maps_separate_def same_maps_def ex_map_kernel_def Let_def)

theorem maps_publish_atomic_witness:
  "(case publish ex_map_kernel \<lparr>pc_map = 2, pc_entries = []\<rparr> (ex_maps (Some 2)) of (maps', result) \<Rightarrow>
     result = Err ''E2BIG'' \<and> pm_active maps' = 1 \<and> publishes ex_map_kernel 1 (pm_kernel maps'))"
proof -
  have run: "publish ex_map_kernel \<lparr>pc_map = 2, pc_entries = []\<rparr> (ex_maps (Some 2)) = (ex_maps (Some 2), Err ''E2BIG'')"
    by (simp add: publish_def check_ownership_def set_outer_def io_bind_run maps_run ex_maps_def ex_map_kernel_def
        published_id_def u32_of_fd_def ne32.decode_encode ne32.length_encode)
  have "publishes ex_map_kernel (pm_active (ex_maps (Some 2))) (pm_kernel (ex_maps (Some 2)))"
    by (simp add: ex_maps_def publishes_def published_id_def ex_map_kernel_def ne32.decode_encode ne32.length_encode)
  with maps_publish_atomic [OF ex_map_kernel_laws(1) run] show ?thesis
    unfolding run by (simp add: ex_maps_def)
qed

end
