(* ===== verification/Bpf_Priority.thy ===== *)
theory Bpf_Priority
  imports Priority_Maps
begin

text \<open>
  The packet classifier of the priority backend in the kernel
  (\<open>bpf/include/netqmon_qos_priority.h\<close>, with the path observer of
  \<open>bpf/include/netqmon_qos_path_probe.h\<close>): which packets of a client are dropped and into which
  traffic class the others go. The state is the socket buffer and the BPF maps; the clock
  \<open>bpf_ktime_get_ns\<close> is an argument, and a lookup in a longest-prefix-match map is a predicate
  of the address.
\<close>

section \<open>Packets\<close>

record sk_buff =
  skb_len :: u32
  skb_mark :: u32
  skb_priority :: u32
  skb_ingress_ifindex :: u32
  skb_ifindex :: u32
  skb_cb0 :: u32
  skb_cb1 :: u32
  skb_data :: "u8 list"

definition tc_act_ok :: int where "tc_act_ok = 0"
definition tc_act_shot :: int where "tc_act_shot = 2"
definition eth_p_ip :: u16 where "eth_p_ip = 0x0800"
definition eth_p_ipv6 :: u16 where "eth_p_ipv6 = 0x86DD"
definition eth_p_8021q :: u16 where "eth_p_8021q = 0x8100"
definition eth_p_8021ad :: u16 where "eth_p_8021ad = 0x88A8"
definition max_vlan_headers :: nat where "max_vlan_headers = 2"
definition hook_egress :: u32 where "hook_egress = 2"
definition hook_qos_egress_pre :: u32 where "hook_qos_egress_pre = 3"

lemmas bpf_consts = tc_act_ok_def tc_act_shot_def eth_p_ip_def eth_p_ipv6_def eth_p_8021q_def
  eth_p_8021ad_def max_vlan_headers_def

text \<open>\<open>netqmon_ntohs\<close> of a field of the packet.\<close>

definition ntohs_at :: "nat \<Rightarrow> u8 list \<Rightarrow> u16" where
  "ntohs_at off bytes = u16_from_ne (rev (slice off 2 bytes))"

definition eth_destination :: "u8 list \<Rightarrow> u8 list" where
  "eth_destination bytes = slice 0 6 bytes"

definition eth_source :: "u8 list \<Rightarrow> u8 list" where
  "eth_source bytes = slice 6 6 bytes"

definition is_vlan :: "u16 \<Rightarrow> bool" where
  "is_vlan protocol \<longleftrightarrow> protocol = eth_p_8021q \<or> protocol = eth_p_8021ad"

section \<open>Maps\<close>

record qos_path_value =
  qpv_packets :: u64
  qpv_bytes :: u64

record qos_path_key =
  qpk_ifindex :: u32
  qpk_hook :: u32
  qpk_priority :: u32
  qpk_mark :: u32
  qpk_skb_iif :: u32
  qpk_ether_type :: u16
  qpk_vlan_depth :: u8
  qpk_source_mac :: "u8 list"
  qpk_destination_mac :: "u8 list"
  qpk_vlan_outer :: u16
  qpk_vlan_inner :: u16

record qos_client_assignment =
  qca_slot :: u32
  qca_delivery_ifindex :: u32
  qca_flags :: u32
  qca_generation :: u32
  qca_expires_ns :: u64
  qca_upload_classid :: u32
  qca_download_classid :: u32

text \<open>The layout of \<open>struct qos_client_assignment\<close> in the value of the map.\<close>

definition read_assignment :: "u8 list \<Rightarrow> qos_client_assignment" where
  "read_assignment bytes =
     \<lparr>qca_slot = u32_from_ne (slice 0 4 bytes), qca_delivery_ifindex = u32_from_ne (slice 4 4 bytes),
      qca_flags = u32_from_ne (slice 8 4 bytes), qca_generation = u32_from_ne (slice 12 4 bytes),
      qca_expires_ns = u64_from_ne (slice 16 8 bytes), qca_upload_classid = u32_from_ne (slice 24 4 bytes),
      qca_download_classid = u32_from_ne (slice 28 4 bytes)\<rparr>"

record qos_maps =
  qm_clients_active :: "(u8 list \<Rightarrow> u8 list option) option"
  qm_priority_ifb :: "u32 option"
  qm_ingress_ports :: "u32 set"
  qm_priority_roots :: "u32 set"
  qm_counters :: "qos_path_value list"
  qm_internal_v4 :: "u8 list \<Rightarrow> bool"
  qm_internal_v6 :: "u8 list \<Rightarrow> bool"
  qm_path_control :: "u32 option"
  qm_path_frames :: "(qos_path_key \<times> qos_path_value) list"
  qm_path_overflow :: "u64 option"

definition add_packet :: "u32 \<Rightarrow> qos_path_value \<Rightarrow> qos_path_value" where
  "add_packet len counter =
     counter\<lparr>qpv_packets := qpv_packets counter + 1, qpv_bytes := qpv_bytes counter + ucast len\<rparr>"

section \<open>The path observer\<close>

definition path_frames_max :: nat where
  "path_frames_max = 4096"

text \<open>The VLAN headers of the observed frame; an incomplete header ends the observation.\<close>

function observe_vlans :: "nat \<Rightarrow> nat \<Rightarrow> u8 list \<Rightarrow> qos_path_key \<Rightarrow> qos_path_key option" where
  "observe_vlans depth i bytes key =
     (if i < depth \<and> is_vlan (qpk_ether_type key) then
        let cursor = 14 + 4 * i in
        if length bytes < cursor + 4 then None
        else let key' = (if i = 0 then key\<lparr>qpk_vlan_outer := ntohs_at cursor bytes\<rparr>
                         else key\<lparr>qpk_vlan_inner := ntohs_at cursor bytes\<rparr>)
             in observe_vlans depth (Suc i) bytes
                  (key'\<lparr>qpk_vlan_depth := qpk_vlan_depth key' + 1, qpk_ether_type := ntohs_at (cursor + 2) bytes\<rparr>)
      else Some key)"
  by pat_completeness auto
termination
  by (relation "measure (\<lambda>(depth, i, _, _). depth - i)") auto

declare observe_vlans.simps [simp del]

definition qos_path_observe_record :: "sk_buff \<Rightarrow> u32 \<Rightarrow> qos_maps \<Rightarrow> qos_maps" where
  "qos_path_observe_record skb hook maps =
     (let bytes = skb_data skb in
      if length bytes < 14 then maps
      else case observe_vlans max_vlan_headers 0 bytes
         \<lparr>qpk_ifindex = skb_ifindex skb, qpk_hook = hook, qpk_priority = skb_priority skb, qpk_mark = skb_mark skb,
          qpk_skb_iif = skb_ingress_ifindex skb, qpk_ether_type = ntohs_at 12 bytes, qpk_vlan_depth = 0,
          qpk_source_mac = eth_source bytes, qpk_destination_mac = eth_destination bytes,
          qpk_vlan_outer = 0, qpk_vlan_inner = 0\<rparr> of
        None \<Rightarrow> maps
      | Some key \<Rightarrow>
          let frames = (if map_of (qm_path_frames maps) key = None \<and> length (qm_path_frames maps) < path_frames_max
                        then (key, \<lparr>qpv_packets = 0, qpv_bytes = 0\<rparr>) # qm_path_frames maps
                        else qm_path_frames maps)
          in if map_of frames key \<noteq> None
             then maps\<lparr>qm_path_frames := map (\<lambda>(k, v). (k, if k = key then add_packet (skb_len skb) v else v)) frames\<rparr>
             else maps\<lparr>qm_path_overflow := map_option (\<lambda>lost. lost + 1) (qm_path_overflow maps)\<rparr>)"

definition qos_path_observe :: "sk_buff \<Rightarrow> u32 \<Rightarrow> qos_maps \<Rightarrow> qos_maps" where
  "qos_path_observe skb hook maps =
     (case qm_path_control maps of
        None \<Rightarrow> maps
      | Some enabled \<Rightarrow> if enabled = 0 then maps else qos_path_observe_record skb hook maps)"

section \<open>The classifier\<close>

definition qos_client_upload :: u32 where "qos_client_upload = 1"
definition qos_client_download :: u32 where "qos_client_download = 2"
definition qos_client_block :: u32 where "qos_client_block = 4"
definition mirred_cb_magic :: u32 where "mirred_cb_magic = 0x4e514d52"

lemmas client_flags = qos_client_upload_def qos_client_download_def qos_client_block_def

definition qos_classid :: "u32 \<Rightarrow> u32 \<Rightarrow> u32" where
  "qos_classid major minor = push_bit 16 major OR minor"

definition qos_priority_count :: "sk_buff \<Rightarrow> nat \<Rightarrow> qos_maps \<Rightarrow> qos_maps" where
  "qos_priority_count skb slot maps =
     (if slot < length (qm_counters maps)
      then maps\<lparr>qm_counters := (qm_counters maps)[slot := add_packet (skb_len skb) (qm_counters maps ! slot)]\<rparr>
      else maps)"

definition qos_priority_client :: "qos_maps \<Rightarrow> sk_buff \<Rightarrow> bool \<Rightarrow> qos_client_assignment option" where
  "qos_priority_client maps skb upload =
     (case qm_clients_active maps of
        None \<Rightarrow> None
      | Some clients \<Rightarrow>
          if length (skb_data skb) < 14 then None
          else map_option read_assignment
            (clients ((if upload then eth_source (skb_data skb) else eth_destination (skb_data skb)) @ [0, 0])))"

definition qos_priority_assignment_valid :: "qos_client_assignment \<Rightarrow> bool" where
  "qos_priority_assignment_valid client \<longleftrightarrow>
     \<not> (qca_slot client > client_last - client_first \<or> qca_generation client = 0 \<or>
        qca_flags client AND NOT (qos_client_upload OR qos_client_download OR qos_client_block) \<noteq> 0) \<and>
     (let minor = default_first + qca_slot client in
      minor \<le> default_last \<and> qca_upload_classid client = qos_classid upload_major minor \<and>
      qca_download_classid client = qos_classid download_major minor \<and>
      (qca_flags client AND qos_client_download = 0 \<or> qca_delivery_ifindex client \<noteq> 0))"

text \<open>Skip up to two VLAN headers: the protocol and the offset after them, or nothing if a header is
  incomplete.\<close>

fun skip_vlans :: "nat \<Rightarrow> u16 \<Rightarrow> nat \<Rightarrow> u8 list \<Rightarrow> (u16 \<times> nat) option" where
  "skip_vlans 0 protocol cursor bytes = Some (protocol, cursor)"
| "skip_vlans (Suc n) protocol cursor bytes =
     (if \<not> is_vlan protocol then Some (protocol, cursor)
      else if length bytes < cursor + 4 then None
      else skip_vlans n (ntohs_at (cursor + 2) bytes) (cursor + 4) bytes)"

definition qos_priority_is_internet_packet :: "qos_maps \<Rightarrow> sk_buff \<Rightarrow> bool \<Rightarrow> bool" where
  "qos_priority_is_internet_packet maps skb source_address =
     (let bytes = skb_data skb in
      if length bytes < 14 then True
      else case skip_vlans max_vlan_headers (ntohs_at 12 bytes) 14 bytes of
        None \<Rightarrow> True
      | Some (protocol, cursor) \<Rightarrow>
          if protocol = eth_p_ip then
            if length bytes < cursor + 20 \<or> drop_bit 4 (bytes ! cursor) \<noteq> 4 then True
            else \<not> qm_internal_v4 maps (slice (cursor + (if source_address then 12 else 16)) 4 bytes)
          else if protocol = eth_p_ipv6 then
            if length bytes < cursor + 40 \<or> drop_bit 4 (bytes ! cursor) \<noteq> 6 then True
            else \<not> qm_internal_v6 maps (slice (cursor + (if source_address then 8 else 24)) 16 bytes)
          else False)"

definition qos_priority_application_classid_valid :: "u32 \<Rightarrow> u32 \<Rightarrow> u32 \<Rightarrow> bool" where
  "qos_priority_application_classid_valid classid major slot =
     (let minor = classid AND 0xffff in
      if drop_bit 16 classid \<noteq> major \<or> minor < application_first \<or> application_last < minor then False
      else (minor - application_first) div applications_per_client = slot)"

definition qos_priority_upload_classid_valid :: "u32 \<Rightarrow> bool" where
  "qos_priority_upload_classid_valid classid =
     (let major = drop_bit 16 classid; minor = classid AND 0xffff in
      major = upload_major \<and>
      ((default_first \<le> minor \<and> minor \<le> default_last) \<or> (application_first \<le> minor \<and> minor \<le> application_last)))"

text \<open>Whether the interface of the upload queue is configured and is not the packet's own.\<close>

definition ifb_usable :: "u32 option \<Rightarrow> u32 \<Rightarrow> bool" where
  "ifb_usable ifb ifindex = (case ifb of None \<Rightarrow> False | Some i \<Rightarrow> i \<noteq> 0 \<and> i \<noteq> ifindex)"

definition mirred_tag :: "sk_buff \<Rightarrow> sk_buff" where
  "mirred_tag skb = skb\<lparr>skb_cb0 := mirred_cb_magic XOR skb_ifindex skb, skb_cb1 := skb_priority skb\<rparr>"

definition qos_priority_ingress :: "u64 \<Rightarrow> qos_maps \<Rightarrow> sk_buff \<Rightarrow> qos_maps \<times> sk_buff \<times> int" where
  "qos_priority_ingress now maps skb =
     (let ifindex = skb_ifindex skb; ifb = qm_priority_ifb maps in
      if ifindex \<notin> qm_ingress_ports maps then (maps, skb, tc_act_ok)
      else case qos_priority_client maps skb True of
        None \<Rightarrow> (maps, skb, tc_act_ok)
      | Some client \<Rightarrow>
          if qca_expires_ns client \<le> now \<or> \<not> qos_priority_assignment_valid client then (maps, skb, tc_act_ok)
          else if qca_flags client AND qos_client_block \<noteq> 0 \<and> qos_priority_is_internet_packet maps skb False
          then (qos_priority_count skb 7 maps, skb, tc_act_shot)
          else if qos_priority_application_classid_valid (skb_priority skb) upload_major (qca_slot client)
          then (qos_priority_count skb 0 maps, if ifb_usable ifb ifindex then mirred_tag skb else skb, -1)
          else if qca_flags client AND qos_client_upload = 0 then (maps, skb, tc_act_ok)
          else if \<not> ifb_usable ifb ifindex then (qos_priority_count skb 4 maps, skb, tc_act_shot)
          else let skb' = mirred_tag (skb\<lparr>skb_priority := qca_upload_classid client\<rparr>)
               in (qos_priority_count skb' 0 maps, skb', -1))"

definition bypass_classid :: u32 where
  "bypass_classid = qos_classid download_major bypass_minor"

text \<open>The part of \<open>qos_priority_egress\<close> after the application classes, from the assignment of the
  bypass class on.\<close>

definition egress_budget ::
  "u64 \<Rightarrow> qos_client_assignment option \<Rightarrow> bool \<Rightarrow> qos_maps \<Rightarrow> sk_buff \<Rightarrow> qos_maps \<times> sk_buff \<times> int" where
  "egress_budget now found uploaded_after_ifb maps skb =
     (let skb = skb\<lparr>skb_priority := bypass_classid\<rparr>;
          bypass = (qos_priority_count skb 3 (if uploaded_after_ifb then qos_priority_count skb 6 maps else maps), skb, tc_act_ok)
      in case found of
        None \<Rightarrow> bypass
      | Some client \<Rightarrow>
          if qca_flags client AND qos_client_download = 0 \<or> qca_expires_ns client \<le> now then bypass
          else if \<not> qos_priority_assignment_valid client then (qos_priority_count skb 4 maps, skb, tc_act_shot)
          else if qca_delivery_ifindex client \<noteq> skb_ifindex skb then (qos_priority_count skb 5 maps, skb, tc_act_shot)
          else let skb' = skb\<lparr>skb_priority := qca_download_classid client\<rparr>
               in (qos_priority_count skb' 2 maps, skb', tc_act_ok))"

definition qos_priority_egress :: "u64 \<Rightarrow> qos_maps \<Rightarrow> sk_buff \<Rightarrow> qos_maps \<times> sk_buff \<times> int" where
  "qos_priority_egress now maps skb =
     (let ifindex = skb_ifindex skb in
      if ifindex \<notin> qm_priority_roots maps then (maps, skb, tc_act_ok)
      else
        let maps = qos_path_observe skb hook_qos_egress_pre maps;
            found = qos_priority_client maps skb False;
            live = (\<lambda>client. now < qca_expires_ns client \<and> qos_priority_assignment_valid client);
            uploaded_after_ifb = qos_priority_upload_classid_valid (skb_priority skb)
        in if (case found of None \<Rightarrow> False | Some client \<Rightarrow> live client \<and> qca_flags client AND qos_client_block \<noteq> 0 \<and>
                 qos_priority_is_internet_packet maps skb True)
           then (qos_priority_count skb 7 maps, skb, tc_act_shot)
           else if \<not> uploaded_after_ifb \<and> drop_bit 16 (skb_priority skb) = download_major \<and>
             (case found of None \<Rightarrow> False | Some client \<Rightarrow> live client \<and> qca_delivery_ifindex client = ifindex \<and>
                qos_priority_application_classid_valid (skb_priority skb) download_major (qca_slot client))
           then (qos_priority_count skb 2 maps, skb, tc_act_ok)
           else egress_budget now found uploaded_after_ifb maps skb)"

definition qos_priority_match :: "u64 \<Rightarrow> qos_maps \<Rightarrow> sk_buff \<Rightarrow> qos_maps \<times> sk_buff \<times> int" where
  "qos_priority_match now maps skb =
     (let ifindex = skb_ifindex skb in
      if skb_cb0 skb = mirred_cb_magic XOR ifindex \<and> skb_cb1 skb = skb_priority skb \<and>
         qos_priority_upload_classid_valid (skb_priority skb)
      then let skb' = skb\<lparr>skb_cb0 := 0, skb_cb1 := 0\<rparr> in (qos_priority_count skb' 1 maps, skb', -1)
      else if \<not> ifb_usable (qm_priority_ifb maps) ifindex \<or> ifindex \<notin> qm_ingress_ports maps then (maps, skb, 0)
      else case qos_priority_client maps skb True of
        None \<Rightarrow> (maps, skb, 0)
      | Some client \<Rightarrow>
          if \<not> qos_priority_assignment_valid client \<or> qca_expires_ns client \<le> now then (maps, skb, 0)
          else if \<not> qos_priority_application_classid_valid (skb_priority skb) upload_major (qca_slot client) \<and>
                  (qca_flags client AND qos_client_upload = 0 \<or> skb_priority skb \<noteq> qca_upload_classid client)
          then (maps, skb, 0)
          else (qos_priority_count skb 1 maps, skb, -1))"

text \<open>The composition of the hooks: a packet the flow policy accepts goes through the classifier.\<close>

definition finish_ingress :: "u64 \<Rightarrow> qos_maps \<Rightarrow> sk_buff \<Rightarrow> int \<Rightarrow> qos_maps \<times> sk_buff \<times> int" where
  "finish_ingress now maps skb action =
     (if action = tc_act_ok
      then let (maps, skb, priority_action) = qos_priority_ingress now maps skb in
           if priority_action \<noteq> tc_act_ok then (maps, skb, priority_action) else (maps, skb, action)
      else (maps, skb, action))"

definition qos_priority_finish_egress :: "u64 \<Rightarrow> qos_maps \<Rightarrow> sk_buff \<Rightarrow> int \<Rightarrow> qos_maps \<times> sk_buff \<times> int" where
  "qos_priority_finish_egress now maps skb action =
     (let (maps, skb, action) = (if action = tc_act_ok then qos_priority_egress now maps skb else (maps, skb, action))
      in (qos_path_observe skb hook_egress maps, skb, action))"

section \<open>Specification\<close>

definition live_assignment :: "u64 \<Rightarrow> qos_client_assignment \<Rightarrow> bool" where
  "live_assignment now client \<longleftrightarrow> now < qca_expires_ns client \<and> qos_priority_assignment_valid client"

text \<open>The leaf classes of a client slot in one hierarchy: its default leaf and its application leaves.\<close>

definition slot_class :: "u32 \<Rightarrow> u32 \<Rightarrow> u32 \<Rightarrow> bool" where
  "slot_class major slot classid \<longleftrightarrow> classid = qos_classid major (default_first + slot) \<or>
     qos_priority_application_classid_valid classid major slot"

section \<open>Lemmas\<close>

lemma count_maps [simp]:
  "qm_clients_active (qos_priority_count skb n maps) = qm_clients_active maps"
  "qm_ingress_ports (qos_priority_count skb n maps) = qm_ingress_ports maps"
  "qm_priority_roots (qos_priority_count skb n maps) = qm_priority_roots maps"
  by (simp_all add: qos_priority_count_def)

lemma observe_maps [simp]:
  "qm_clients_active (qos_path_observe skb hook maps) = qm_clients_active maps"
  "qm_ingress_ports (qos_path_observe skb hook maps) = qm_ingress_ports maps"
  "qm_priority_roots (qos_path_observe skb hook maps) = qm_priority_roots maps"
  "qm_internal_v4 (qos_path_observe skb hook maps) = qm_internal_v4 maps"
  "qm_internal_v6 (qos_path_observe skb hook maps) = qm_internal_v6 maps"
  by (simp_all add: qos_path_observe_def qos_path_observe_record_def Let_def split: option.split)

lemma observe_client [simp]: "qos_priority_client (qos_path_observe skb hook maps) = qos_priority_client maps"
  by (intro ext) (simp add: qos_priority_client_def)

lemma observe_internet [simp]:
  "qos_priority_is_internet_packet (qos_path_observe skb hook maps) = qos_priority_is_internet_packet maps"
  by (intro ext) (simp add: qos_priority_is_internet_packet_def cong: option.case_cong if_cong)

lemma valid_classes:
  assumes "qos_priority_assignment_valid client"
  shows "qca_upload_classid client = qos_classid upload_major (default_first + qca_slot client)"
    "qca_download_classid client = qos_classid download_major (default_first + qca_slot client)"
  using assms by (auto simp: qos_priority_assignment_valid_def Let_def)

lemma ingress_blocked:
  assumes "skb_ifindex skb \<in> qm_ingress_ports maps" "qos_priority_client maps skb True = Some client"
    "live_assignment now client" "qca_flags client AND qos_client_block \<noteq> 0"
    "qos_priority_is_internet_packet maps skb False"
  shows "snd (snd (finish_ingress now maps skb tc_act_ok)) = tc_act_shot"
  using assms
  by (auto simp: finish_ingress_def qos_priority_ingress_def live_assignment_def bpf_consts Let_def)

lemma egress_blocked:
  assumes "skb_ifindex skb \<in> qm_priority_roots maps" "qos_priority_client maps skb False = Some client"
    "live_assignment now client" "qca_flags client AND qos_client_block \<noteq> 0"
    "qos_priority_is_internet_packet maps skb True"
  shows "snd (snd (qos_priority_finish_egress now maps skb tc_act_ok)) = tc_act_shot"
  using assms
  by (auto simp: qos_priority_finish_egress_def qos_priority_egress_def live_assignment_def Let_def)

lemma mirred_tag_priority [simp]: "skb_priority (mirred_tag skb) = skb_priority skb"
  by (simp add: mirred_tag_def)

lemma ingress_class:
  assumes "qos_priority_ingress now maps skb = (maps', skb', -1)"
  shows "\<exists>client. qos_priority_client maps skb True = Some client \<and> live_assignment now client \<and>
    slot_class upload_major (qca_slot client) (skb_priority skb')"
  using assms
  by (auto simp: qos_priority_ingress_def live_assignment_def slot_class_def valid_classes bpf_consts Let_def not_le
      split: if_splits option.splits)

lemma egress_class:
  assumes "qos_priority_egress now maps skb = (maps', skb', tc_act_ok)" "skb_ifindex skb \<in> qm_priority_roots maps"
  shows "skb_priority skb' = bypass_classid \<or>
    (\<exists>client. qos_priority_client maps skb False = Some client \<and> live_assignment now client \<and>
       qca_delivery_ifindex client = skb_ifindex skb \<and> slot_class download_major (qca_slot client) (skb_priority skb'))"
  using assms
  by (auto simp: qos_priority_egress_def egress_budget_def live_assignment_def slot_class_def valid_classes bpf_consts Let_def not_le
      split: if_splits option.splits)

lemma default_leaf_Ok: "default_leaf major lease = Ok raw \<Longrightarrow> raw = qos_classid major (default_first + ucast (csl_slot lease))"
  by (auto simp: default_leaf_def class_leaf_def qos_classid_def res_simps Let_def split: if_splits)

lemma lease_slot_bounds:
  assumes "lease_validate lease = Ok ()"
  shows "ucast (csl_slot lease) \<le> client_last - client_first" "default_first + ucast (csl_slot lease) \<le> default_last"
proof -
  from assms have s: "unat (ucast (csl_slot lease) :: u32) < 256"
    by (simp add: lease_validate_iff all_slots_def unat_u16_u32)
  then show "ucast (csl_slot lease) \<le> client_last - client_first"
    by (simp add: class_consts word_le_nat_alt)
  from s have "unat (0x200 + ucast (csl_slot lease) :: u32) = 0x200 + unat (csl_slot lease)"
    by (subst unat_add_lem [THEN iffD1]) (simp_all add: unat_u16_u32)
  with s show "default_first + ucast (csl_slot lease) \<le> default_last"
    by (simp add: class_consts word_le_nat_alt unat_u16_u32)
qed

lemma canonical_mac_octets: "canonical_mac text = Ok mac \<Longrightarrow> mac_from_str text = Ok mac \<and> length mac = 6"
  by (auto simp: canonical_mac_def mac_from_str_def res_simps split: if_splits)

lemma entry_flags:
  fixes flags :: u32
  assumes "flags = of_bool u OR push_bit 1 (of_bool d) OR push_bit 2 (of_bool b)"
  shows "flags AND NOT 7 = 0" "flags AND 1 \<noteq> 0 \<longleftrightarrow> u" "flags AND 2 \<noteq> 0 \<longleftrightarrow> d" "flags AND 4 \<noteq> 0 \<longleftrightarrow> b"
  using assms by (cases u; cases d; cases b; simp)+

text \<open>What the program reads from the value of an entry.\<close>

lemma read_entry_value:
  "read_assignment (entry_value e) = \<lparr>qca_slot = ucast (cme_slot e), qca_delivery_ifindex = cme_delivery_ifindex e,
     qca_flags = cme_flags e, qca_generation = cme_generation e, qca_expires_ns = cme_expires_ns e,
     qca_upload_classid = cme_upload_classid e, qca_download_classid = cme_download_classid e\<rparr>"
  by (simp add: read_assignment_def entry_value_fields)

lemma entry_new_Ok:
  assumes "client_map_entry_new lease ifindex u d b generation expires = Ok e"
  shows "\<exists>mac. mac_from_str (csl_mac lease) = Ok mac \<and> entry_bytes e = Ok (mac @ [0, 0], entry_value e) \<and>
    qos_priority_assignment_valid (read_assignment (entry_value e)) \<and>
    cme_mac e = csl_mac lease \<and> cme_slot e = csl_slot lease \<and> cme_delivery_ifindex e = ifindex \<and> cme_expires_ns e = expires \<and>
    cme_generation e = generation \<and>
    (cme_flags e AND qos_client_upload \<noteq> 0 \<longleftrightarrow> u) \<and> (cme_flags e AND qos_client_download \<noteq> 0 \<longleftrightarrow> d) \<and>
    (cme_flags e AND qos_client_block \<noteq> 0 \<longleftrightarrow> b)"
proof -
  from assms obtain up down where v: "lease_validate lease = Ok ()"
    and ok: "csl_active lease" "generation \<noteq> 0" "expires \<noteq> 0" "d \<longrightarrow> ifindex \<noteq> 0"
    and up: "default_leaf upload_major lease = Ok up" and down: "default_leaf download_major lease = Ok down"
    and e: "e = \<lparr>cme_mac = csl_mac lease, cme_slot = csl_slot lease, cme_delivery_ifindex = ifindex,
      cme_flags = of_bool u OR push_bit 1 (of_bool d) OR push_bit 2 (of_bool b), cme_generation = generation,
      cme_expires_ns = expires, cme_upload_classid = up, cme_download_classid = down\<rparr>"
    by (auto simp: client_map_entry_new_def res_simps split: if_splits)
  from v obtain mac where mac: "mac_from_str (csl_mac lease) = Ok mac" "length mac = 6"
    by (auto simp: lease_validate_iff is_ok_iff dest: canonical_mac_octets)
  have lease: "\<lparr>csl_mac = csl_mac lease, csl_slot = csl_slot lease, csl_active = True\<rparr> = lease"
    using ok(1) by (cases lease) simp
  have flags: "cme_flags e AND NOT 7 = 0" "cme_flags e AND 1 \<noteq> 0 \<longleftrightarrow> u" "cme_flags e AND 2 \<noteq> 0 \<longleftrightarrow> d"
    "cme_flags e AND 4 \<noteq> 0 \<longleftrightarrow> b" using entry_flags [of "cme_flags e" u d b] by (simp_all add: e)
  have "entry_bytes e = Ok (mac @ [0, 0], entry_value e)"
    using v ok up down mac flags
    by (simp add: entry_bytes_def e lease res_simps copy_at_def) (simp add: numeral_eq_Suc)
  moreover have "qos_priority_assignment_valid (read_assignment (entry_value e))"
    using lease_slot_bounds [OF v] default_leaf_Ok [OF up] default_leaf_Ok [OF down] ok flags
    by (simp add: qos_priority_assignment_valid_def read_entry_value Let_def client_flags) (simp add: e not_less)
  ultimately show ?thesis
    using mac flags by (simp add: client_flags) (simp add: e)
qed

section \<open>Claims\<close>

text \<open>C8. The Agent and the kernel agree on client assignments: every assignment the Agent makes is
  encoded under the client's hardware address, and the classifier reads from the encoded value a valid
  assignment with the slot, the delivery port, the expiry and the flags that the Agent gave it.\<close>

theorem client_entry_roundtrip:
  assumes "client_map_entry_new lease ifindex upload download blocked generation expires = Ok e"
  shows "\<exists>mac bytes client. mac_from_str (csl_mac lease) = Ok mac \<and> entry_bytes e = Ok (mac @ [0, 0], bytes) \<and>
    read_assignment bytes = client \<and> qos_priority_assignment_valid client \<and>
    qca_slot client = ucast (csl_slot lease) \<and> qca_delivery_ifindex client = ifindex \<and> qca_expires_ns client = expires \<and>
    (qca_flags client AND qos_client_upload \<noteq> 0 \<longleftrightarrow> upload) \<and> (qca_flags client AND qos_client_download \<noteq> 0 \<longleftrightarrow> download) \<and>
    (qca_flags client AND qos_client_block \<noteq> 0 \<longleftrightarrow> blocked)"
  using entry_new_Ok [OF assms] by (auto simp: read_entry_value)

text \<open>C7. A packet only ever enters a class of its own client: when the ingress hook hands a packet to
  the upload queue, its class belongs to the slot of a live assignment of its source address; and when
  the egress hook passes a packet on a managed interface, it goes to the bypass class or to a class of
  the slot of a live assignment of its destination address that is delivered at this interface.\<close>

theorem packets_own_class:
  "(finish_ingress now maps skb tc_act_ok = (maps1, skb1, -1) \<longrightarrow>
     (\<exists>client. qos_priority_client maps skb True = Some client \<and> live_assignment now client \<and>
        slot_class upload_major (qca_slot client) (skb_priority skb1))) \<and>
   (qos_priority_finish_egress now maps skb tc_act_ok = (maps2, skb2, tc_act_ok) \<and>
      skb_ifindex skb \<in> qm_priority_roots maps \<longrightarrow>
     skb_priority skb2 = bypass_classid \<or>
     (\<exists>client. qos_priority_client maps skb False = Some client \<and> live_assignment now client \<and>
        qca_delivery_ifindex client = skb_ifindex skb \<and> slot_class download_major (qca_slot client) (skb_priority skb2)))"
proof (intro conjI impI)
  assume "finish_ingress now maps skb tc_act_ok = (maps1, skb1, -1)"
  then have "qos_priority_ingress now maps skb = (maps1, skb1, -1)"
    by (auto simp: finish_ingress_def bpf_consts split: prod.splits if_splits)
  then show "\<exists>client. qos_priority_client maps skb True = Some client \<and> live_assignment now client \<and>
      slot_class upload_major (qca_slot client) (skb_priority skb1)"
    by (rule ingress_class)
next
  assume "qos_priority_finish_egress now maps skb tc_act_ok = (maps2, skb2, tc_act_ok) \<and> skb_ifindex skb \<in> qm_priority_roots maps"
  then obtain maps' where "qos_priority_egress now maps skb = (maps', skb2, tc_act_ok)" "skb_ifindex skb \<in> qm_priority_roots maps"
    by (auto simp: qos_priority_finish_egress_def split: prod.splits)
  then show "skb_priority skb2 = bypass_classid \<or>
     (\<exists>client. qos_priority_client maps skb False = Some client \<and> live_assignment now client \<and>
        qca_delivery_ifindex client = skb_ifindex skb \<and> slot_class download_major (qca_slot client) (skb_priority skb2))"
    by (rule egress_class)
qed

text \<open>A client with an upload budget in slot 5, and a frame it sends.\<close>

definition ex_client_lease :: client_slot_lease where
  "ex_client_lease = \<lparr>csl_mac = ex_mac, csl_slot = 5, csl_active = True\<rparr>"

definition ex_client_entry :: client_map_entry where
  "ex_client_entry = \<lparr>cme_mac = ex_mac, cme_slot = 5, cme_delivery_ifindex = 0, cme_flags = 1, cme_generation = 1,
     cme_expires_ns = 5000, cme_upload_classid = 0x520205, cme_download_classid = 0x510205\<rparr>"

definition ex_qos_maps :: "u8 list \<Rightarrow> qos_maps" where
  "ex_qos_maps mac = \<lparr>qm_clients_active = Some (map_of [(mac @ [0, 0], entry_value ex_client_entry)]), qm_priority_ifb = Some 9,
     qm_ingress_ports = {2}, qm_priority_roots = {2}, qm_counters = replicate 8 \<lparr>qpv_packets = 0, qpv_bytes = 0\<rparr>,
     qm_internal_v4 = \<lambda>_. False, qm_internal_v6 = \<lambda>_. False, qm_path_control = None, qm_path_frames = [],
     qm_path_overflow = Some 0\<rparr>"

definition ex_skb :: "u8 list \<Rightarrow> sk_buff" where
  "ex_skb mac = \<lparr>skb_len = 60, skb_mark = 0, skb_priority = 0, skb_ingress_ifindex = 2, skb_ifindex = 2, skb_cb0 = 0, skb_cb1 = 0,
     skb_data = [2, 0, 0, 0, 0, 1] @ mac @ [8, 6] @ replicate 46 0\<rparr>"

lemma ex_client_lease_valid: "lease_validate ex_client_lease = Ok ()"
  by code_simp

lemma ex_entry_new: "client_map_entry_new ex_client_lease 0 True False False 1 5000 = Ok ex_client_entry"
proof -
  have "default_leaf upload_major ex_client_lease = Ok 0x520205" "default_leaf download_major ex_client_lease = Ok 0x510205"
    by (simp_all add: default_leaf_def ex_client_lease_valid) (simp_all add: class_leaf_def class_consts ex_client_lease_def)
  then show ?thesis
    by (simp add: client_map_entry_new_def ex_client_lease_valid) (simp add: ex_client_lease_def ex_client_entry_def)
qed

theorem client_entry_roundtrip_witness:
  "\<exists>mac bytes client. mac_from_str ex_mac = Ok mac \<and> entry_bytes ex_client_entry = Ok (mac @ [0, 0], bytes) \<and>
    read_assignment bytes = client \<and> qos_priority_assignment_valid client \<and> qca_slot client = 5 \<and>
    qca_flags client AND qos_client_upload \<noteq> 0"
  using client_entry_roundtrip [OF ex_entry_new] by (auto simp: ex_client_lease_def)

lemma ex_client:
  "length mac = 6 \<Longrightarrow> qos_priority_client (ex_qos_maps mac) (ex_skb mac) True =
     Some \<lparr>qca_slot = 5, qca_delivery_ifindex = 0, qca_flags = 1, qca_generation = 1, qca_expires_ns = 5000,
        qca_upload_classid = 0x520205, qca_download_classid = 0x510205\<rparr>"
  by (simp add: qos_priority_client_def ex_qos_maps_def ex_skb_def eth_source_def slice_def read_entry_value)
     (simp add: ex_client_entry_def)

lemma ex_ingress:
  "length mac = 6 \<Longrightarrow> \<exists>maps'. finish_ingress 1000 (ex_qos_maps mac) (ex_skb mac) tc_act_ok =
     (maps', mirred_tag ((ex_skb mac)\<lparr>skb_priority := 0x520205\<rparr>), -1)"
  by (simp add: finish_ingress_def qos_priority_ingress_def ex_client Let_def)
     (simp add: bpf_consts ex_qos_maps_def ex_skb_def ifb_usable_def client_flags qos_priority_assignment_valid_def
        qos_classid_def class_consts qos_priority_application_classid_valid_def)

theorem packets_own_class_witness:
  "\<exists>client. qos_priority_client (ex_qos_maps [2, 0, 0, 0, 0, 7]) (ex_skb [2, 0, 0, 0, 0, 7]) True = Some client \<and>
     live_assignment 1000 client \<and> slot_class upload_major (qca_slot client) 0x520205"
proof -
  let ?m = "[2, 0, 0, 0, 0, 7]"
  obtain maps' where "finish_ingress 1000 (ex_qos_maps ?m) (ex_skb ?m) tc_act_ok =
      (maps', mirred_tag ((ex_skb ?m)\<lparr>skb_priority := 0x520205\<rparr>), -1)"
    using ex_ingress [of ?m] by auto
  with packets_own_class [THEN conjunct1, rule_format, OF this] show ?thesis by simp
qed

end
