(* ===== verification/Priority_Delivery.thy ===== *)
theory Priority_Delivery
  imports Priority_Slots Policy_Evaluator
begin

text \<open>
  Where a client's download is delivered (\<open>agent/src/policy/priority_delivery.rs\<close>): the queue
  ports of the LAN interface and, for a bridge, the one port behind which the forwarding database
  knows the client. The files under \<open>/sys/class/net\<close> and the forwarding database are the
  arguments \<open>sysfs\<close> and \<open>fdb\<close>.
\<close>

record queue_port =
  qp_name :: string
  qp_ifindex :: u32

record delivery_layout =
  dl_capture_interface :: string
  dl_bridge :: bool
  dl_ingress_ports :: "queue_port list"
  dl_egress_ports :: "queue_port list"
  dl_client_delivery :: "(string, queue_port) btree_map"

record bridge_fdb_entry =
  fdb_mac :: mac_address
  fdb_ifindex :: u32

text \<open>What the code reads of the file system: whether the interface has a \<open>bridge\<close> directory,
  the names in its \<open>brif\<close> directory, and the contents of \<open>ifindex\<close> of an interface.\<close>

record sysfs =
  sys_is_bridge :: "string \<Rightarrow> bool"
  sys_brif :: "string \<Rightarrow> (string res) list res"
  sys_read_ifindex :: "string \<Rightarrow> string res"

definition validate_name :: "string \<Rightarrow> unit res" where
  "validate_name name =
     (if name = [] \<or> length name > 15 \<or>
         \<not> list_all (\<lambda>b. is_ascii_alphanumeric b \<or> b \<in> set ''_.-'') name
      then Err ''priority_delivery_unknown: invalid interface name'' else Ok ())"

definition selected_mac :: "string \<Rightarrow> (string \<times> mac_address) res" where
  "selected_mac client =
     and_then (map_err (\<lambda>e. ''priority_identity_invalid: '' @ mac_error_text e) (mac_from_str client)) (\<lambda>mac.
     if \<not> is_unicast mac \<or> mac_to_string mac \<noteq> client
     then Err ''priority_identity_invalid: expected canonical unicast MAC''
     else Ok (client, mac))"

definition port_names :: "sysfs \<Rightarrow> string \<Rightarrow> string list res" where
  "port_names sys lan =
     (if sys_is_bridge sys lan
      then and_then (map_err (\<lambda>e. ''priority_delivery_unknown: cannot read bridge ports: '' @ e) (sys_brif sys lan))
             (\<lambda>entries. and_then (try_map (\<lambda>entry. entry) entries) (\<lambda>names.
               Ok (sorted_list_of_set (set names))))
      else Ok [lan])"

definition read_port :: "sysfs \<Rightarrow> string \<Rightarrow> queue_port res" where
  "read_port sys name =
     and_then (validate_name name) (\<lambda>_.
     and_then (map_err (\<lambda>e. ''priority_delivery_unknown: cannot read '' @ name @ '' index: '' @ e)
       (sys_read_ifindex sys name)) (\<lambda>content.
     and_then (ok_or ''priority_delivery_unknown: invalid interface index'' (parse_u32 (trim content))) (\<lambda>ifindex.
     if ifindex = 0 then Err ''priority_delivery_unknown: zero interface index''
     else Ok \<lparr>qp_name = name, qp_ifindex = of_nat ifindex\<rparr>)))"

definition matching_ports :: "bool \<Rightarrow> queue_port list \<Rightarrow> bridge_fdb_entry list \<Rightarrow> mac_address \<Rightarrow> u32 set" where
  "matching_ports bridge ports bindings mac =
     (if bridge
      then fdb_ifindex ` set (filter (\<lambda>b. fdb_mac b = mac \<and>
             (\<exists>p\<in>set ports. qp_ifindex p = fdb_ifindex b)) bindings)
      else {qp_ifindex (ports ! 0)})"

text \<open>The message with which \<open>unwrap\<close> panics.\<close>

definition panic_unwrap_none :: string where
  "panic_unwrap_none = ''called `Option::unwrap()` on a `None` value''"

definition deliver ::
  "bool \<Rightarrow> queue_port list \<Rightarrow> bridge_fdb_entry list \<Rightarrow> (string, queue_port) btree_map \<Rightarrow> string \<times> mac_address \<Rightarrow>
    (string, queue_port) btree_map res" where
  "deliver bridge ports bindings deliveries client =
     (let (label, mac) = client; matching = matching_ports bridge ports bindings mac in
      if card matching \<noteq> 1
      then Err (''priority_delivery_unknown: client '' @ label @ '' has '' @ format_dec (card matching) @
             '' verified LAN delivery ports'')
      else (case find (\<lambda>p. qp_ifindex p = hd (sorted_list_of_set matching)) ports of
              None \<Rightarrow> Err panic_unwrap_none
            | Some p \<Rightarrow> Ok ((label, p) # deliveries)))"

definition inspect_at ::
  "sysfs \<Rightarrow> string \<Rightarrow> string set \<Rightarrow> bridge_fdb_entry list res \<Rightarrow> delivery_layout res" where
  "inspect_at sys lan selected fdb =
     and_then (validate_name lan) (\<lambda>_.
     if card selected > 256 then Err ''priority_delivery_unknown: too many selected clients''
     else and_then (try_map selected_mac (sorted_list_of_set selected)) (\<lambda>selected.
          and_then (port_names sys lan) (\<lambda>names.
          and_then (try_map (read_port sys) names) (\<lambda>ports.
          if ports = [] \<or> length ports > 32 \<or> card (set (map qp_ifindex ports)) \<noteq> length ports
          then Err ''priority_delivery_unknown: bridge ports are empty, excessive or ambiguous''
          else and_then (if sys_is_bridge sys lan then fdb else Ok []) (\<lambda>bindings.
               and_then (try_fold (deliver (sys_is_bridge sys lan) ports bindings) [] selected) (\<lambda>deliveries.
               Ok \<lparr>dl_capture_interface = lan, dl_bridge = sys_is_bridge sys lan, dl_ingress_ports = ports,
                   dl_egress_ports = ports, dl_client_delivery = deliveries\<rparr>))))))"

section \<open>Lemmas\<close>

text \<open>The port looked up by its index is always there, so the lookup never panics.\<close>

lemma matching_port_listed:
  assumes "ports \<noteq> []" and "i \<in> matching_ports bridge ports bindings mac"
  shows "\<exists>p\<in>set ports. qp_ifindex p = i"
  using assms by (auto simp: matching_ports_def split: if_splits intro!: bexI [of _ "ports ! 0"])

lemma matching_ports_bridge:
  "matching_ports True ports bs mac = fdb_ifindex ` {b \<in> set bs. fdb_mac b = mac} \<inter> qp_ifindex ` set ports"
proof (intro set_eqI)
  fix i show "i \<in> matching_ports True ports bs mac \<longleftrightarrow>
      i \<in> fdb_ifindex ` {b \<in> set bs. fdb_mac b = mac} \<inter> qp_ifindex ` set ports"
    unfolding matching_ports_def by (simp add: image_iff) metis
qed

lemma deliver_Ok:
  assumes "ports \<noteq> []"
  shows "deliver bridge ports bindings ds (label, mac) \<noteq> Err panic_unwrap_none"
    and "deliver bridge ports bindings ds (label, mac) = Ok ds' \<longleftrightarrow>
      (\<exists>p. find (\<lambda>q. qp_ifindex q = qp_ifindex p) ports = Some p \<and>
         matching_ports bridge ports bindings mac = {qp_ifindex p} \<and> ds' = (label, p) # ds)"
proof -
  let ?M = "matching_ports bridge ports bindings mac"
  have one: "\<exists>p. ?M = {qp_ifindex p} \<and> find (\<lambda>q. qp_ifindex q = hd (sorted_list_of_set ?M)) ports = Some p"
    if "card ?M = 1"
  proof -
    from that obtain i where M: "?M = {i}" by (auto simp: card_1_singleton_iff)
    with matching_port_listed [OF assms, of i bridge bindings mac] have "find (\<lambda>q. qp_ifindex q = i) ports \<noteq> None"
      by (auto simp: find_None_iff)
    then obtain p where p: "find (\<lambda>q. qp_ifindex q = i) ports = Some p" by blast
    with find_Some_iff_dest [OF p] M show ?thesis by auto
  qed
  show "deliver bridge ports bindings ds (label, mac) \<noteq> Err panic_unwrap_none"
    using one by (auto simp: deliver_def Let_def panic_unwrap_none_def)
  show "deliver bridge ports bindings ds (label, mac) = Ok ds' \<longleftrightarrow>
      (\<exists>p. find (\<lambda>q. qp_ifindex q = qp_ifindex p) ports = Some p \<and> ?M = {qp_ifindex p} \<and> ds' = (label, p) # ds)"
    using one by (auto simp: deliver_def Let_def split: if_splits)
qed

definition delivered ::
  "bool \<Rightarrow> queue_port list \<Rightarrow> bridge_fdb_entry list \<Rightarrow> (string \<times> mac_address) set \<Rightarrow> string \<times> queue_port \<Rightarrow> bool" where
  "delivered bridge ports bindings clients d \<longleftrightarrow> snd d \<in> set ports \<and>
     (\<exists>mac. (fst d, mac) \<in> clients \<and> matching_ports bridge ports bindings mac = {qp_ifindex (snd d)})"

lemma deliver_fold:
  assumes "try_fold (deliver bridge ports bindings) ds clients = Ok ds'" and "ports \<noteq> []"
  shows "\<exists>new. ds' = new @ ds \<and> fst ` set new = fst ` set clients \<and>
    (\<forall>d\<in>set new. delivered bridge ports bindings (set clients) d)"
  using assms(1)
proof (induction clients arbitrary: ds)
  case (Cons c clients)
  obtain label mac where c: "c = (label, mac)" by (cases c)
  with Cons.prems obtain p where p: "find (\<lambda>q. qp_ifindex q = qp_ifindex p) ports = Some p"
    "matching_ports bridge ports bindings mac = {qp_ifindex p}"
    "try_fold (deliver bridge ports bindings) ((label, p) # ds) clients = Ok ds'"
    by (auto simp: res_simps deliver_Ok(2) [OF assms(2)])
  from Cons.IH [OF p(3)] obtain new where new: "ds' = new @ (label, p) # ds" "fst ` set new = fst ` set clients"
    "\<forall>d\<in>set new. delivered bridge ports bindings (set clients) d" by blast
  have "delivered bridge ports bindings (set (c # clients)) (label, p)"
    using p find_Some_iff_dest [OF p(1)] by (auto simp: delivered_def c)
  moreover have "delivered bridge ports bindings (set (c # clients)) d" if "d \<in> set new" for d
    using new(3) that by (auto simp: delivered_def)
  ultimately show ?case using new(1,2) c by (intro exI [of _ "new @ [(label, p)]"]) auto
qed simp

lemma selected_mac_Ok: "selected_mac client = Ok e \<longleftrightarrow> (\<exists>mac. mac_from_str client = Ok mac \<and> is_unicast mac \<and>
    mac_to_string mac = client \<and> e = (client, mac))"
  by (auto simp: selected_mac_def res_simps)

section \<open>Properties\<close>

text \<open>C39. A client is delivered at its only port: when the layout is found, exactly the selected clients
  have a delivery port, capture and delivery cover the same distinct ports, and on a bridge the port of a
  client is the only one of them behind which the forwarding database has the client's address.\<close>

theorem delivery_unique:
  assumes "inspect_at sys lan selected (Ok bindings) = Ok layout" and "finite selected"
  shows "fst ` set (dl_client_delivery layout) = selected \<and> dl_ingress_ports layout = dl_egress_ports layout \<and>
    distinct (map qp_ifindex (dl_egress_ports layout)) \<and>
    (\<forall>client p. map_of (dl_client_delivery layout) client = Some p \<longrightarrow> p \<in> set (dl_egress_ports layout) \<and>
       (sys_is_bridge sys lan \<longrightarrow> (\<exists>mac. mac_from_str client = Ok mac \<and>
          fdb_ifindex ` {b \<in> set bindings. fdb_mac b = mac} \<inter> qp_ifindex ` set (dl_egress_ports layout) = {qp_ifindex p})))"
proof -
  from assms obtain clients ports bs ds where
    1: "try_map selected_mac (sorted_list_of_set selected) = Ok clients"
    and ports: "ports \<noteq> []" "card (set (map qp_ifindex ports)) = length ports"
    and bs: "sys_is_bridge sys lan \<longrightarrow> bs = bindings"
    and 2: "try_fold (deliver (sys_is_bridge sys lan) ports bs) [] clients = Ok ds"
    and layout: "layout = \<lparr>dl_capture_interface = lan, dl_bridge = sys_is_bridge sys lan, dl_ingress_ports = ports,
                   dl_egress_ports = ports, dl_client_delivery = ds\<rparr>"
    by (auto simp: inspect_at_def res_simps split: if_splits)
  have d: "distinct (map qp_ifindex ports)" using ports(2) by (simp add: card_distinct)
  have l2: "list_all2 (\<lambda>client e. \<exists>mac. mac_from_str client = Ok mac \<and> e = (client, mac)) (sorted_list_of_set selected) clients"
    using 1 unfolding try_map_eq_Inr by (rule list_all2_mono) (auto simp: selected_mac_Ok)
  then have fst: "map fst clients = sorted_list_of_set selected"
    by (induction rule: list_all2_induct) auto
  have mac: "mac_from_str client = Ok mac" if "(client, mac) \<in> set clients" for client mac
    using list_all2_set2 [OF l2 that] by auto
  from deliver_fold [OF 2 ports(1)] have ds: "fst ` set ds = fst ` set clients"
    and each: "\<forall>d\<in>set ds. delivered (sys_is_bridge sys lan) ports bs (set clients) d" by auto
  have "fst ` set clients = selected" using fst assms(2) by (metis list.set_map set_sorted_list_of_set)
  moreover have "p \<in> set ports \<and> (sys_is_bridge sys lan \<longrightarrow> (\<exists>mac. mac_from_str client = Ok mac \<and>
      fdb_ifindex ` {b \<in> set bindings. fdb_mac b = mac} \<inter> qp_ifindex ` set ports = {qp_ifindex p}))"
    if "map_of ds client = Some p" for client p
  proof -
    from each map_of_SomeD [OF that] obtain m where p: "p \<in> set ports" "(client, m) \<in> set clients"
      and m: "matching_ports (sys_is_bridge sys lan) ports bs m = {qp_ifindex p}"
      by (auto simp: delivered_def)
    have "fdb_ifindex ` {b \<in> set bindings. fdb_mac b = m} \<inter> qp_ifindex ` set ports = {qp_ifindex p}" if "sys_is_bridge sys lan"
      using m bs that by (simp add: matching_ports_bridge)
    with p mac show ?thesis by blast
  qed
  ultimately show ?thesis using ds d by (simp add: layout)
qed

definition ex_sysfs :: sysfs where
  "ex_sysfs = \<lparr>sys_is_bridge = (\<lambda>name. name = ''br''), sys_brif = (\<lambda>_. Ok [Ok ''lan1'', Ok ''lan2'']),
     sys_read_ifindex = (\<lambda>name. if name = ''lan1'' then Ok ''2'' else Ok ''3'')\<rparr>"

theorem delivery_unique_witness:
  "\<exists>layout. inspect_at ex_sysfs ''br'' {ex_mac} (Ok [\<lparr>fdb_mac = [2, 0, 0, 0, 0, 1], fdb_ifindex = 2\<rparr>]) = Ok layout \<and>
     fst ` set (dl_client_delivery layout) = {ex_mac}"
proof -
  have "is_ok (inspect_at ex_sysfs ''br'' {ex_mac} (Ok [\<lparr>fdb_mac = [2, 0, 0, 0, 0, 1], fdb_ifindex = 2\<rparr>]))"
    by code_simp
  then obtain layout where
    ok: "inspect_at ex_sysfs ''br'' {ex_mac} (Ok [\<lparr>fdb_mac = [2, 0, 0, 0, 0, 1], fdb_ifindex = 2\<rparr>]) = Ok layout"
    by (auto simp: is_ok_iff)
  from delivery_unique [OF ok] ok show ?thesis by blast
qed

end
