(* ===== verification/Priority_Plan.thy ===== *)
theory Priority_Plan
  imports Priority_Delivery
begin

text \<open>
  Queue layout of the priority backend (\<open>agent/src/policy/priority_plan.rs\<close>): the budgets of the
  clients and of their application policies are placed in one upload tree and one download tree per
  LAN port, and every tree is checked when its classes are listed.
\<close>

section \<open>Data\<close>

definition min_policy_capacity_bps :: u64 where "min_policy_capacity_bps = 64000"
definition max_policy_capacity_bps :: u64 where "max_policy_capacity_bps = max_safe_json_integer"
definition structural_capacity_bps :: u64 where "structural_capacity_bps = 100000000000"

record client_budget =
  cb_lease :: client_slot_lease
  cb_upload_bps :: "u64 option"
  cb_download_bps :: "u64 option"

record budget_class =
  bc_mac :: string
  bc_slot :: u16
  bc_parent_minor :: u32
  bc_default_minor :: u32
  bc_rate_bps :: u64

record application_budget =
  ab_lease :: client_slot_lease
  ab_policy_id :: string
  ab_minor :: u32
  ab_upload_bps :: "u64 option"
  ab_download_bps :: "u64 option"

record application_class =
  ac_mac :: string
  ac_slot :: u16
  ac_policy_id :: string
  ac_minor :: u32
  ac_rate_bps :: u64

record queue_tree =
  qt_port :: queue_port
  qt_major :: u32
  qt_capacity_bps :: u64
  qt_clients :: "budget_class list"
  qt_applications :: "application_class list"

record class_spec =
  cs_classid :: u32
  cs_parent :: u32
  cs_rate_bps :: u64

record priority_plan =
  plan_upload :: queue_tree
  plan_downloads :: "queue_tree list"

definition validate_port :: "queue_port \<Rightarrow> unit res" where
  "validate_port port =
     (if qp_ifindex port = 0 \<or> qp_name port = [] \<or> length (qp_name port) > 15 \<or>
         \<not> list_all (\<lambda>b. is_ascii_alphanumeric b \<or> b \<in> set ''-_.'') (qp_name port)
      then Err ''priority_tree_invalid: queue interface'' else Ok ())"

section \<open>The classes of a tree\<close>

definition client_classes ::
  "queue_tree \<Rightarrow> string set \<times> u16 set \<times> class_spec list \<Rightarrow> budget_class \<Rightarrow>
    (string set \<times> u16 set \<times> class_spec list) res" where
  "client_classes tree state client =
     (let (macs, slots, result) = state; root = push_bit 16 (qt_major tree);
          lease = \<lparr>csl_mac = bc_mac client, csl_slot = bc_slot client, csl_active = True\<rparr>
      in and_then (lease_validate lease) (\<lambda>_.
         and_then (parent_minor lease) (\<lambda>minor.
         if bc_mac client \<in> macs \<or> bc_slot client \<in> slots \<or> bc_parent_minor client \<noteq> minor \<or>
            bc_default_minor client \<noteq> default_first + ucast (bc_slot client) \<or>
            \<not> (min_policy_capacity_bps \<le> bc_rate_bps client \<and> bc_rate_bps client \<le> qt_capacity_bps tree)
         then Err ''priority_tree_invalid: client budget or class ancestry''
         else and_then (class_leaf (qt_major tree) (bc_default_minor client)) (\<lambda>leaf.
           Ok (insert (bc_mac client) macs, insert (bc_slot client) slots,
               result @ [\<lparr>cs_classid = root OR bc_parent_minor client, cs_parent = root OR root_minor,
                           cs_rate_bps = bc_rate_bps client\<rparr>,
                         \<lparr>cs_classid = leaf, cs_parent = root OR bc_parent_minor client,
                           cs_rate_bps = bc_rate_bps client\<rparr>])))))"

definition application_class_spec ::
  "queue_tree \<Rightarrow> u32 set \<times> class_spec list \<Rightarrow> application_class \<Rightarrow> (u32 set \<times> class_spec list) res" where
  "application_class_spec tree state application =
     (let (minors, result) = state in
      and_then (ok_or ''priority_tree_invalid: application class has no client parent''
        (find (\<lambda>client. bc_mac client = ac_mac application \<and> bc_slot client = ac_slot application)
          (qt_clients tree))) (\<lambda>client.
      if \<not> (application_first \<le> ac_minor application \<and> ac_minor application \<le> application_last) \<or>
         ac_minor application \<in> minors \<or>
         \<not> (min_policy_capacity_bps \<le> ac_rate_bps application \<and> ac_rate_bps application \<le> bc_rate_bps client) \<or>
         ac_policy_id application = []
      then Err ''priority_tree_invalid: application leaf or parent rate''
      else and_then (class_leaf (qt_major tree) (ac_minor application)) (\<lambda>leaf.
        Ok (insert (ac_minor application) minors,
            result @ [\<lparr>cs_classid = leaf, cs_parent = push_bit 16 (qt_major tree) OR bc_parent_minor client,
                        cs_rate_bps = ac_rate_bps application\<rparr>]))))"

definition classes :: "queue_tree \<Rightarrow> class_spec list res" where
  "classes tree =
     and_then (validate_port (qt_port tree)) (\<lambda>_.
     if \<not> (qt_major tree = upload_major \<or> qt_major tree = download_major) \<or>
        \<not> (min_policy_capacity_bps \<le> qt_capacity_bps tree \<and> qt_capacity_bps tree \<le> max_policy_capacity_bps) \<or>
        length (qt_clients tree) > 256
     then Err ''priority_tree_invalid: root metadata''
     else (let root = push_bit 16 (qt_major tree) in
       and_then (class_leaf (qt_major tree) bypass_minor) (\<lambda>bypass.
       and_then (try_fold (client_classes tree)
         ({}, {}, [\<lparr>cs_classid = root OR root_minor, cs_parent = root, cs_rate_bps = qt_capacity_bps tree\<rparr>,
                   \<lparr>cs_classid = bypass, cs_parent = root OR root_minor, cs_rate_bps = qt_capacity_bps tree\<rparr>])
         (qt_clients tree)) (\<lambda>(macs, slots, result).
       and_then (try_fold (application_class_spec tree) ({}, result) (qt_applications tree)) (\<lambda>(minors, result).
       Ok result)))))"

section \<open>Building a plan\<close>

type_synonym downloads = "(u32 \<times> queue_tree) list"

definition add_port ::
  "delivery_layout \<Rightarrow> queue_port \<Rightarrow> (u32, u64) btree_map \<Rightarrow> u32 set \<times> string set \<times> downloads \<Rightarrow> queue_port \<Rightarrow>
    (u32 set \<times> string set \<times> downloads) res" where
  "add_port layout ifb capacities state port =
     (let (ids, names, downloads) = state in
      and_then (validate_port port) (\<lambda>_.
      if qp_ifindex port = qp_ifindex ifb \<or> qp_name port = qp_name ifb \<or> qp_ifindex port \<in> ids \<or>
         qp_name port \<in> names \<or> (dl_bridge layout \<and> qp_name port = dl_capture_interface layout)
      then Err ''priority_tree_invalid: duplicated, IFB or bridge-master queue''
      else and_then (ok_or ''priority_capacity_unknown: LAN port capacity is required''
             (map_of capacities (qp_ifindex port))) (\<lambda>capacity.
        Ok (insert (qp_ifindex port) ids, insert (qp_name port) names,
            (qp_ifindex port, \<lparr>qt_port = port, qt_major = download_major, qt_capacity_bps = capacity,
               qt_clients = [], qt_applications = []\<rparr>) # downloads))))"

definition update_tree :: "u32 \<Rightarrow> (queue_tree \<Rightarrow> queue_tree) \<Rightarrow> downloads \<Rightarrow> downloads" where
  "update_tree ifindex f = map (\<lambda>(k, tree). (k, if k = ifindex then f tree else tree))"

definition push_client :: "budget_class \<Rightarrow> queue_tree \<Rightarrow> queue_tree" where
  "push_client client tree = tree\<lparr>qt_clients := qt_clients tree @ [client]\<rparr>"

definition push_application :: "application_class \<Rightarrow> queue_tree \<Rightarrow> queue_tree" where
  "push_application class tree = tree\<lparr>qt_applications := qt_applications tree @ [class]\<rparr>"

definition budget_class_of :: "client_slot_lease \<Rightarrow> u64 \<Rightarrow> budget_class res" where
  "budget_class_of lease rate =
     and_then (parent_minor lease) (\<lambda>minor.
     Ok \<lparr>bc_mac = csl_mac lease, bc_slot = csl_slot lease, bc_parent_minor = minor,
         bc_default_minor = default_first + ucast (csl_slot lease), bc_rate_bps = rate\<rparr>)"

definition place_download ::
  "delivery_layout \<Rightarrow> client_slot_lease \<Rightarrow> u64 \<Rightarrow> downloads \<Rightarrow> downloads res" where
  "place_download layout lease rate downloads =
     and_then (ok_or ''priority_delivery_unknown: selected client has no unique port''
       (map_of (dl_client_delivery layout) (csl_mac lease))) (\<lambda>delivery.
     and_then (ok_or ''priority_delivery_unknown: client port is outside the verified layout''
       (case map_of downloads (qp_ifindex delivery) of
          None \<Rightarrow> None
        | Some tree \<Rightarrow> if qt_port tree = delivery then Some tree else None)) (\<lambda>_.
     and_then (budget_class_of lease rate) (\<lambda>class.
     Ok (update_tree (qp_ifindex delivery) (push_client class) downloads))))"

definition place_budget ::
  "delivery_layout \<Rightarrow> queue_tree \<times> downloads \<times> string set \<times> u16 set \<Rightarrow> client_budget \<Rightarrow>
    (queue_tree \<times> downloads \<times> string set \<times> u16 set) res" where
  "place_budget layout state budget =
     (let (upload, downloads, macs, slots) = state; lease = cb_lease budget in
      and_then (lease_validate lease) (\<lambda>_.
      if \<not> csl_active lease \<or> csl_mac lease \<in> macs \<or> csl_slot lease \<in> slots \<or>
         (cb_upload_bps budget = None \<and> cb_download_bps budget = None)
      then Err ''priority_tree_invalid: inactive or duplicate client assignment''
      else and_then (case cb_upload_bps budget of
             None \<Rightarrow> Ok upload
           | Some rate \<Rightarrow> and_then (budget_class_of lease rate) (\<lambda>class. Ok (push_client class upload))) (\<lambda>upload.
           and_then (case cb_download_bps budget of
             None \<Rightarrow> Ok downloads
           | Some rate \<Rightarrow> place_download layout lease rate downloads) (\<lambda>downloads.
           Ok (upload, downloads, insert (csl_mac lease) macs, insert (csl_slot lease) slots)))))"

definition application_class_of :: "application_budget \<Rightarrow> u64 \<Rightarrow> application_class" where
  "application_class_of application rate =
     \<lparr>ac_mac = csl_mac (ab_lease application), ac_slot = csl_slot (ab_lease application),
      ac_policy_id = ab_policy_id application, ac_minor = ab_minor application, ac_rate_bps = rate\<rparr>"

text \<open>The tree gains the client's class when it has none yet, then the application's class.\<close>

definition add_application ::
  "application_budget \<Rightarrow> u64 \<Rightarrow> u64 \<Rightarrow> queue_tree \<Rightarrow> queue_tree res" where
  "add_application application rate parent_rate tree =
     and_then (if \<exists>client\<in>set (qt_clients tree). bc_mac client = csl_mac (ab_lease application)
               then Ok tree
               else and_then (budget_class_of (ab_lease application) parent_rate)
                      (\<lambda>class. Ok (push_client class tree))) (\<lambda>tree.
     Ok (push_application (application_class_of application (min rate parent_rate)) tree))"

definition download_parent :: "delivery_layout \<Rightarrow> client_budget option \<Rightarrow> downloads \<Rightarrow> string \<Rightarrow> u64" where
  "download_parent layout aggregate downloads mac =
     (case Option.bind aggregate cb_download_bps of
        Some rate \<Rightarrow> rate
      | None \<Rightarrow>
          (case find (\<lambda>(_, tree). is_some_and (map_of (dl_client_delivery layout) mac)
                 (\<lambda>delivery. qp_ifindex delivery = qp_ifindex (qt_port tree))) downloads of
             None \<Rightarrow> structural_capacity_bps
           | Some (_, tree) \<Rightarrow> qt_capacity_bps tree))"

definition place_application ::
  "delivery_layout \<Rightarrow> u64 \<Rightarrow> client_budget list \<Rightarrow> queue_tree \<times> downloads \<times> (string \<times> string) set \<Rightarrow>
    application_budget \<Rightarrow> (queue_tree \<times> downloads \<times> (string \<times> string) set) res" where
  "place_application layout upload_capacity budgets state application =
     (let (upload, downloads, keys) = state; lease = ab_lease application;
          key = (csl_mac lease, ab_policy_id application) in
      and_then (lease_validate lease) (\<lambda>_.
      if \<not> csl_active lease \<or> ab_policy_id application = [] \<or> key \<in> keys \<or>
         \<not> (application_first \<le> ab_minor application \<and> ab_minor application \<le> application_last) \<or>
         (ab_upload_bps application = None \<and> ab_download_bps application = None)
      then Err ''priority_tree_invalid: application assignment''
      else (let aggregate = find (\<lambda>budget. csl_mac (cb_lease budget) = csl_mac lease) budgets;
                upload_parent = (case Option.bind aggregate cb_upload_bps of None \<Rightarrow> upload_capacity | Some rate \<Rightarrow> rate);
                parent_rate = download_parent layout aggregate downloads (csl_mac lease) in
        and_then (case ab_upload_bps application of
            None \<Rightarrow> Ok upload
          | Some rate \<Rightarrow> add_application application rate upload_parent upload) (\<lambda>upload.
        and_then (case ab_download_bps application of
            None \<Rightarrow> Ok downloads
          | Some rate \<Rightarrow>
              and_then (ok_or ''priority_delivery_unknown: app-limited client has no unique port''
                (map_of (dl_client_delivery layout) (csl_mac lease))) (\<lambda>delivery.
              and_then (ok_or ''priority_delivery_unknown: app-limited client port is outside the layout''
                (find (\<lambda>(_, tree). qt_port tree = delivery) downloads)) (\<lambda>(ifindex, tree).
              and_then (add_application application rate parent_rate tree) (\<lambda>tree.
              Ok (update_tree ifindex (\<lambda>_. tree) downloads))))) (\<lambda>downloads.
        Ok (upload, downloads, insert key keys))))))"

definition sort_tree :: "queue_tree \<Rightarrow> queue_tree" where
  "sort_tree tree = tree\<lparr>qt_clients := sort_key bc_slot (qt_clients tree),
     qt_applications := sort_key ac_minor (qt_applications tree)\<rparr>"

definition checked_tree :: "queue_tree \<Rightarrow> queue_tree res" where
  "checked_tree tree = and_then (classes (sort_tree tree)) (\<lambda>_. Ok (sort_tree tree))"

definition port_key :: "queue_port \<Rightarrow> u32 \<times> string" where
  "port_key port = (qp_ifindex port, qp_name port)"

definition build ::
  "delivery_layout \<Rightarrow> queue_port \<Rightarrow> u64 \<Rightarrow> (u32, u64) btree_map \<Rightarrow> client_budget list \<Rightarrow> application_budget list \<Rightarrow>
    priority_plan res" where
  "build layout ifb upload_capacity capacities budgets applications =
     and_then (validate_port ifb) (\<lambda>_.
     if dl_egress_ports layout = [] \<or> length (dl_egress_ports layout) > 32
     then Err ''priority_tree_invalid: no verified LAN delivery queues''
     else and_then (try_fold (add_port layout ifb capacities) ({}, {}, []) (dl_egress_ports layout)) (\<lambda>(ids, names, downloads).
       if fst ` set capacities \<noteq> ids
       then Err ''priority_capacity_unknown: capacity does not match actual LAN ports''
       else (let ingress = port_key ` set (dl_ingress_ports layout); egress = port_key ` set (dl_egress_ports layout) in
         if ingress \<noteq> egress \<or> card ingress \<noteq> length (dl_ingress_ports layout) \<or>
            (\<not> dl_bridge layout \<and>
             (card egress \<noteq> 1 \<or> qp_name (dl_egress_ports layout ! 0) \<noteq> dl_capture_interface layout))
         then Err ''priority_delivery_unknown: upload capture must cover every LAN queue port''
         else and_then (try_fold (place_budget layout)
                (\<lparr>qt_port = ifb, qt_major = upload_major, qt_capacity_bps = upload_capacity, qt_clients = [],
                  qt_applications = []\<rparr>, sort_key fst downloads, {}, {}) budgets) (\<lambda>(upload, downloads, macs, slots).
              and_then (try_fold (place_application layout upload_capacity budgets) (upload, downloads, {}) applications)
                (\<lambda>(upload, downloads, keys).
              and_then (checked_tree upload) (\<lambda>upload.
              and_then (try_map (\<lambda>(_, tree). checked_tree tree) downloads) (\<lambda>downloads.
              Ok \<lparr>plan_upload = upload, plan_downloads = downloads\<rparr>)))))))"

section \<open>Specification\<close>

text \<open>A list of classes in the order of their creation is a tree when the first is the root class and
  every other class comes after its parent and has at most its rate.\<close>

definition has_parent :: "class_spec list \<Rightarrow> class_spec \<Rightarrow> bool" where
  "has_parent cs c \<longleftrightarrow> (\<exists>p\<in>set cs. cs_classid p = cs_parent c \<and> cs_rate_bps c \<le> cs_rate_bps p)"

fun grown_rev :: "class_spec list \<Rightarrow> bool" where
  "grown_rev [] = False"
| "grown_rev [c] = True"
| "grown_rev (c # cs) = (has_parent cs c \<and> grown_rev cs)"

definition class_tree :: "class_spec list \<Rightarrow> bool" where
  "class_tree cs \<longleftrightarrow> grown_rev (rev cs) \<and> distinct (map cs_classid cs)"

text \<open>The number of a class and of its parent are those the cleanup of unused classes expects.\<close>

definition minor_of :: "class_spec \<Rightarrow> u32" where
  "minor_of c = cs_classid c AND 0xffff"

section \<open>Lemmas\<close>

lemma cid_low: "unat m < 65536 \<Longrightarrow> (push_bit 16 major OR m :: u32) AND 0xffff = m"
proof -
  assume "unat m < 65536"
  then have "m AND 0xffff = m" by (simp only: word_unat_eq_iff unat_and_16) simp
  then show ?thesis by (simp only: low_bits)
qed

lemma class_leaf_eq: "class_leaf major m = Ok raw \<Longrightarrow> raw = push_bit 16 major OR m"
  by (simp add: class_leaf_def Let_def split: if_splits)

lemma grown_snoc: "grown_rev (rev (cs @ [c])) \<longleftrightarrow> cs = [] \<or> (has_parent cs c \<and> grown_rev (rev cs))"
  by (cases "rev cs") (auto simp: has_parent_def)

lemma lease_slot_minors:
  assumes "lease_validate l = Ok ()"
  shows "unat (client_first + ucast (csl_slot l)) = 0x100 + unat (csl_slot l)"
    "unat (default_first + ucast (csl_slot l)) = 0x200 + unat (csl_slot l)"
  using assms
  by (auto simp: lease_validate_iff all_slots_def class_consts unat_u16_u32 intro!: unat_add_lem [THEN iffD1, THEN trans])

abbreviation cid :: "queue_tree \<Rightarrow> u32 \<Rightarrow> u32" where
  "cid tree minor \<equiv> push_bit 16 (qt_major tree) OR minor"

definition client_spec :: "queue_tree \<Rightarrow> budget_class \<Rightarrow> class_spec" where
  "client_spec tree client = \<lparr>cs_classid = cid tree (bc_parent_minor client), cs_parent = cid tree root_minor,
     cs_rate_bps = bc_rate_bps client\<rparr>"

definition default_spec :: "queue_tree \<Rightarrow> budget_class \<Rightarrow> class_spec" where
  "default_spec tree client = \<lparr>cs_classid = cid tree (bc_default_minor client),
     cs_parent = cid tree (bc_parent_minor client), cs_rate_bps = bc_rate_bps client\<rparr>"

definition root_spec :: "queue_tree \<Rightarrow> class_spec" where
  "root_spec tree = \<lparr>cs_classid = cid tree root_minor, cs_parent = push_bit 16 (qt_major tree),
     cs_rate_bps = qt_capacity_bps tree\<rparr>"

definition bypass_spec :: "queue_tree \<Rightarrow> class_spec" where
  "bypass_spec tree = \<lparr>cs_classid = cid tree bypass_minor, cs_parent = cid tree root_minor,
     cs_rate_bps = qt_capacity_bps tree\<rparr>"

lemma client_classes_Ok:
  assumes "client_classes tree (macs, slots, cs) client = Ok st"
  shows "bc_slot client \<in> all_slots \<and> bc_slot client \<notin> slots \<and> bc_mac client \<notin> macs \<and>
    unat (bc_parent_minor client) = 0x100 + unat (bc_slot client) \<and>
    unat (bc_default_minor client) = 0x200 + unat (bc_slot client) \<and>
    bc_rate_bps client \<le> qt_capacity_bps tree \<and>
    st = (insert (bc_mac client) macs, insert (bc_slot client) slots,
          cs @ [client_spec tree client, default_spec tree client])"
proof -
  let ?l = "\<lparr>csl_mac = bc_mac client, csl_slot = bc_slot client, csl_active = True\<rparr>"
  have l: "lease_validate ?l = Ok ()" and rest: "bc_parent_minor client = client_first + ucast (bc_slot client)"
    "bc_default_minor client = default_first + ucast (bc_slot client)"
    "bc_slot client \<notin> slots \<and> bc_mac client \<notin> macs \<and> bc_rate_bps client \<le> qt_capacity_bps tree \<and>
     st = (insert (bc_mac client) macs, insert (bc_slot client) slots,
          cs @ [client_spec tree client, default_spec tree client])"
    using assms
    by (auto simp: client_classes_def Let_def res_simps parent_minor_def client_spec_def default_spec_def
        dest!: class_leaf_eq split: if_splits)
  from lease_slot_minors [OF l] l rest show ?thesis by (simp add: lease_validate_iff)
qed

definition client_ok :: "queue_tree \<Rightarrow> budget_class \<Rightarrow> bool" where
  "client_ok tree client \<longleftrightarrow> bc_slot client \<in> all_slots \<and>
     unat (bc_parent_minor client) = 0x100 + unat (bc_slot client) \<and>
     unat (bc_default_minor client) = 0x200 + unat (bc_slot client) \<and>
     bc_rate_bps client \<le> qt_capacity_bps tree"

lemma client_fold:
  assumes "try_fold (client_classes tree) (macs, slots, cs) clients = Ok (macs', slots', cs')"
  shows "list_all (client_ok tree) clients \<and> distinct (map bc_slot clients) \<and> distinct (map bc_mac clients) \<and>
    bc_slot ` set clients \<inter> slots = {} \<and> bc_mac ` set clients \<inter> macs = {} \<and>
    cs' = cs @ concat (map (\<lambda>c. [client_spec tree c, default_spec tree c]) clients)"
  using assms
proof (induction clients arbitrary: macs slots cs)
  case (Cons c clients)
  then obtain st where st: "client_classes tree (macs, slots, cs) c = Ok st"
    "try_fold (client_classes tree) st clients = Ok (macs', slots', cs')" by (auto simp: res_simps)
  note c = client_classes_Ok [OF st(1)]
  with Cons.IH [of "insert (bc_mac c) macs" "insert (bc_slot c) slots"
    "cs @ [client_spec tree c, default_spec tree c]"] st(2) show ?case
    by (auto simp: client_ok_def)
qed simp

definition parent_of :: "queue_tree \<Rightarrow> application_class \<Rightarrow> budget_class option" where
  "parent_of tree a = find (\<lambda>client. bc_mac client = ac_mac a \<and> bc_slot client = ac_slot a) (qt_clients tree)"

definition app_spec :: "queue_tree \<Rightarrow> application_class \<Rightarrow> class_spec" where
  "app_spec tree a = \<lparr>cs_classid = cid tree (ac_minor a),
     cs_parent = cid tree (bc_parent_minor (the (parent_of tree a))), cs_rate_bps = ac_rate_bps a\<rparr>"

definition app_ok :: "queue_tree \<Rightarrow> application_class \<Rightarrow> bool" where
  "app_ok tree a \<longleftrightarrow> 0x1000 \<le> unat (ac_minor a) \<and> unat (ac_minor a) \<le> 0x1fff \<and>
     (case parent_of tree a of None \<Rightarrow> False | Some client \<Rightarrow> ac_rate_bps a \<le> bc_rate_bps client)"

lemma app_step:
  assumes "application_class_spec tree (minors, cs) a = Ok st"
  shows "app_ok tree a \<and> ac_minor a \<notin> minors \<and> st = (insert (ac_minor a) minors, cs @ [app_spec tree a])"
  using assms
  by (auto simp: application_class_spec_def Let_def res_simps app_ok_def app_spec_def parent_of_def class_consts
      word_le_nat_alt dest!: class_leaf_eq split: if_splits)

lemma app_fold:
  assumes "try_fold (application_class_spec tree) (minors, cs) apps = Ok (minors', cs')"
  shows "list_all (app_ok tree) apps \<and> distinct (map ac_minor apps) \<and> ac_minor ` set apps \<inter> minors = {} \<and>
    cs' = cs @ map (app_spec tree) apps"
  using assms
proof (induction apps arbitrary: minors cs)
  case (Cons a apps)
  then obtain st where st: "application_class_spec tree (minors, cs) a = Ok st"
    "try_fold (application_class_spec tree) st apps = Ok (minors', cs')" by (auto simp: res_simps)
  with app_step [OF st(1)] Cons.IH [of "insert (ac_minor a) minors" "cs @ [app_spec tree a]"] show ?case by auto
qed simp

lemma classes_Ok:
  assumes "classes tree = Ok cs"
  shows "list_all (client_ok tree) (qt_clients tree)" "distinct (map bc_slot (qt_clients tree))"
    "distinct (map bc_mac (qt_clients tree))" "list_all (app_ok tree) (qt_applications tree)"
    "distinct (map ac_minor (qt_applications tree))"
    "cs = [root_spec tree, bypass_spec tree] @
       concat (map (\<lambda>c. [client_spec tree c, default_spec tree c]) (qt_clients tree)) @
       map (app_spec tree) (qt_applications tree)"
proof -
  from assms obtain macs slots r minors where
    1: "try_fold (client_classes tree) ({}, {}, [root_spec tree, bypass_spec tree]) (qt_clients tree) = Ok (macs, slots, r)"
    and 2: "try_fold (application_class_spec tree) ({}, r) (qt_applications tree) = Ok (minors, cs)"
    by (auto simp: classes_def Let_def res_simps root_spec_def bypass_spec_def dest!: class_leaf_eq split: if_splits)
  from client_fold [OF 1] app_fold [OF 2] show "list_all (client_ok tree) (qt_clients tree)"
    "distinct (map bc_slot (qt_clients tree))" "distinct (map bc_mac (qt_clients tree))"
    "list_all (app_ok tree) (qt_applications tree)" "distinct (map ac_minor (qt_applications tree))"
    "cs = [root_spec tree, bypass_spec tree] @
       concat (map (\<lambda>c. [client_spec tree c, default_spec tree c]) (qt_clients tree)) @
       map (app_spec tree) (qt_applications tree)" by auto
qed

lemma has_parent_mono: "has_parent xs c \<Longrightarrow> set xs \<subseteq> set ys \<Longrightarrow> has_parent ys c"
  by (auto simp: has_parent_def)

lemma grown_append:
  assumes "grown_rev (rev xs)" and "\<forall>y\<in>set ys. has_parent xs y"
  shows "grown_rev (rev (xs @ ys))"
  using assms(2)
proof (induction ys rule: rev_induct)
  case (snoc y ys)
  then have "grown_rev (rev (xs @ ys))" "has_parent (xs @ ys) y" by (auto intro: has_parent_mono)
  then show ?case by (simp only: append_assoc [symmetric] grown_snoc) simp
qed (simp add: assms(1))

lemma grown_clients:
  assumes "grown_rev (rev cs)" and "root_spec tree \<in> set cs" and "list_all (client_ok tree) clients"
  shows "grown_rev (rev (cs @ concat (map (\<lambda>c. [client_spec tree c, default_spec tree c]) clients)))"
  using assms
proof (induction clients arbitrary: cs)
  case (Cons c clients)
  let ?cs1 = "cs @ [client_spec tree c]"
  have "has_parent cs (client_spec tree c)"
    using Cons.prems by (auto simp: has_parent_def client_spec_def root_spec_def client_ok_def intro!: bexI [of _ "root_spec tree"])
  with Cons.prems(1) have 1: "grown_rev (rev ?cs1)" by (simp only: grown_snoc) simp
  have "has_parent ?cs1 (default_spec tree c)"
    by (auto simp: has_parent_def client_spec_def default_spec_def)
  with 1 have "grown_rev (rev (?cs1 @ [default_spec tree c]))" by (simp only: grown_snoc) simp
  from Cons.IH [OF this] Cons.prems show ?case by simp
qed simp

lemma app_parent:
  assumes "app_ok tree a" and "set (map (client_spec tree) (qt_clients tree)) \<subseteq> set cs"
  shows "has_parent cs (app_spec tree a)"
proof -
  from assms(1) obtain client where c: "parent_of tree a = Some client" "ac_rate_bps a \<le> bc_rate_bps client"
    by (auto simp: app_ok_def split: option.splits)
  then have "client_spec tree client \<in> set cs"
    using assms(2) find_Some_iff_dest [of _ "qt_clients tree" client] by (auto simp: parent_of_def)
  then show ?thesis using c by (auto simp: has_parent_def app_spec_def client_spec_def intro!: bexI [of _ "client_spec tree client"])
qed

text \<open>The minors of a tree are apart: the fixed ones, one client and one default minor per slot, and
  the application minors.\<close>

lemma distinct_client_minors:
  assumes "list_all (client_ok tree) clients" and "distinct (map bc_slot clients)"
  shows "distinct (concat (map (\<lambda>c. [unat (bc_parent_minor c), unat (bc_default_minor c)]) clients)) \<and>
    set (concat (map (\<lambda>c. [unat (bc_parent_minor c), unat (bc_default_minor c)]) clients)) =
      (\<lambda>c. 0x100 + unat (bc_slot c)) ` set clients \<union> (\<lambda>c. 0x200 + unat (bc_slot c)) ` set clients"
  using assms
proof (induction clients)
  case (Cons c clients)
  have lt: "unat (bc_slot d) < 256" if "d \<in> set (c # clients)" for d
    using Cons.prems(1) that by (auto simp: list_all_iff client_ok_def all_slots_def)
  have ne: "unat (bc_slot c) \<noteq> unat (bc_slot d)" if "d \<in> set clients" for d
    using Cons.prems(2) that by (auto simp: word_unat_eq_iff [symmetric] image_iff)
  have "0x100 + unat (bc_slot c) \<noteq> 0x200 + unat (bc_slot d)" "0x200 + unat (bc_slot c) \<noteq> 0x100 + unat (bc_slot d)"
    if "d \<in> set clients" for d using lt [of c] lt [of d] that by auto
  with Cons ne show ?case by (auto simp: client_ok_def)
qed simp

lemma minor_of_cid:
  "cs_classid c = cid tree m \<Longrightarrow> unat m < 65536 \<Longrightarrow> minor_of c = m"
  by (simp add: minor_of_def cid_low)

lemma spec_minors:
  "minor_of (root_spec tree) = 1" "minor_of (bypass_spec tree) = 0xfffe"
  "client_ok tree c \<Longrightarrow> minor_of (client_spec tree c) = bc_parent_minor c"
  "client_ok tree c \<Longrightarrow> minor_of (default_spec tree c) = bc_default_minor c"
  "app_ok tree a \<Longrightarrow> minor_of (app_spec tree a) = ac_minor a"
  by (rule minor_of_cid; auto simp: root_spec_def bypass_spec_def client_spec_def default_spec_def app_spec_def
      class_consts client_ok_def app_ok_def all_slots_def)+

lemma classes_minors:
  assumes "classes tree = Ok cs"
  shows "map (unat \<circ> minor_of) cs = [1, 0xfffe] @
    concat (map (\<lambda>c. [unat (bc_parent_minor c), unat (bc_default_minor c)]) (qt_clients tree)) @
    map (unat \<circ> ac_minor) (qt_applications tree)"
proof -
  note ok = classes_Ok [OF assms]
  have "map (unat \<circ> minor_of) (concat (map (\<lambda>c. [client_spec tree c, default_spec tree c]) cl)) =
    concat (map (\<lambda>c. [unat (bc_parent_minor c), unat (bc_default_minor c)]) cl)" if "list_all (client_ok tree) cl" for cl
    using that by (induction cl) (auto simp: spec_minors)
  moreover have "map (unat \<circ> minor_of \<circ> app_spec tree) (qt_applications tree) = map (unat \<circ> ac_minor) (qt_applications tree)"
    using ok(4) by (auto simp: list_all_iff spec_minors)
  ultimately show ?thesis using ok(1) unfolding ok(6) by (simp add: spec_minors)
qed

lemma classes_distinct:
  assumes "classes tree = Ok cs"
  shows "distinct (map minor_of cs)"
proof -
  note ok = classes_Ok [OF assms]
  note cl = distinct_client_minors [OF ok(1,2)]
  have slots: "unat (bc_slot c) < 256" if "c \<in> set (qt_clients tree)" for c
    using ok(1) that by (auto simp: list_all_iff client_ok_def all_slots_def)
  have apps: "0x1000 \<le> unat (ac_minor a) \<and> unat (ac_minor a) \<le> 0x1fff" if "a \<in> set (qt_applications tree)" for a
    using ok(4) that by (auto simp: list_all_iff app_ok_def)
  have "distinct (map (unat \<circ> ac_minor) (qt_applications tree))"
    using ok(5) by (simp add: distinct_map inj_on_def word_unat_eq_iff)
  then have "distinct (map (unat \<circ> minor_of) cs)"
    unfolding classes_minors [OF assms] using cl slots apps by (fastforce simp: image_iff)
  then show ?thesis by (auto simp: distinct_map intro: inj_on_imageI2)
qed

lemma classes_class_tree:
  assumes "classes tree = Ok cs"
  shows "class_tree cs"
proof -
  note ok = classes_Ok [OF assms]
  let ?base = "[root_spec tree, bypass_spec tree]"
  define mid where "mid = ?base @ concat (map (\<lambda>c. [client_spec tree c, default_spec tree c]) (qt_clients tree))"
  have "grown_rev (rev ?base)" by (simp add: has_parent_def root_spec_def bypass_spec_def)
  from grown_clients [OF this _ ok(1)] have "grown_rev (rev mid)" by (simp add: mid_def)
  moreover have "has_parent mid (app_spec tree a)" if "a \<in> set (qt_applications tree)" for a
    using ok(4) that by (intro app_parent) (auto simp: list_all_iff mid_def)
  ultimately have "grown_rev (rev (mid @ map (app_spec tree) (qt_applications tree)))"
    by (intro grown_append) auto
  then have "grown_rev (rev cs)" by (simp only: ok(6) mid_def append_assoc)
  moreover have "distinct (map cs_classid cs)"
    using classes_distinct [OF assms] by (auto simp: distinct_map minor_of_def inj_on_def)
  ultimately show ?thesis by (simp only: class_tree_def)
qed

section \<open>Placement\<close>

text \<open>The client classes of the download trees, by port.\<close>

definition entries :: "queue_tree list \<Rightarrow> (queue_port \<times> string \<times> u64) set" where
  "entries trees = (\<Union>t\<in>set trees. (\<lambda>c. (qt_port t, bc_mac c, bc_rate_bps c)) ` set (qt_clients t))"

definition keyed :: "downloads \<Rightarrow> bool" where
  "keyed ds \<longleftrightarrow> distinct (map fst ds) \<and> (\<forall>(k, t)\<in>set ds. k = qp_ifindex (qt_port t))"

lemma entries_update:
  assumes "keyed ds" and "(k, t) \<in> set ds" and "qt_port t' = qt_port t"
    and "qt_clients t' = qt_clients t @ new"
  shows "keyed (update_tree k (\<lambda>_. t') ds) \<and> entries (map snd (update_tree k (\<lambda>_. t') ds)) =
    entries (map snd ds) \<union> (\<lambda>c. (qt_port t, bc_mac c, bc_rate_bps c)) ` set new"
proof -
  have other: "t2 = t" if "(k, t2) \<in> set ds" for t2
    using assms(1,2) that by (auto simp: keyed_def dest: eq_key_imp_eq_value)
  have "map fst (update_tree k (\<lambda>_. t') ds) = map fst ds" by (auto simp: update_tree_def)
  moreover have s: "set (update_tree k (\<lambda>_. t') ds) = insert (k, t') {(k2, t2) \<in> set ds. k2 \<noteq> k}"
  proof (intro equalityI subsetI)
    fix x assume "x \<in> set (update_tree k (\<lambda>_. t') ds)"
    then show "x \<in> insert (k, t') {(k2, t2) \<in> set ds. k2 \<noteq> k}" by (auto simp: update_tree_def split: if_splits)
  next
    fix x assume "x \<in> insert (k, t') {(k2, t2) \<in> set ds. k2 \<noteq> k}"
    then consider "x = (k, t')" | k2 t2 where "x = (k2, t2)" "(k2, t2) \<in> set ds" "k2 \<noteq> k" by auto
    then show "x \<in> set (update_tree k (\<lambda>_. t') ds)"
      by cases (use assms(2) in \<open>auto simp: update_tree_def intro!: rev_image_eqI\<close>)
  qed
  ultimately have "keyed (update_tree k (\<lambda>_. t') ds)"
    using assms by (auto simp: keyed_def)
  moreover have ds: "set ds = insert (k, t) {(k2, t2) \<in> set ds. k2 \<noteq> k}"
    using assms(2) by (auto dest: other)
  have "entries (map snd ds) = (\<lambda>c. (qt_port t, bc_mac c, bc_rate_bps c)) ` set (qt_clients t) \<union>
      (\<Union>t\<in>snd ` {(k2, t2) \<in> set ds. k2 \<noteq> k}. (\<lambda>c. (qt_port t, bc_mac c, bc_rate_bps c)) ` set (qt_clients t))"
    unfolding entries_def set_map by (subst ds) (simp only: image_insert Sup_insert snd_conv)
  moreover have "entries (map snd (update_tree k (\<lambda>_. t') ds)) =
      (\<lambda>c. (qt_port t, bc_mac c, bc_rate_bps c)) ` set (qt_clients t @ new) \<union>
      (\<Union>t\<in>snd ` {(k2, t2) \<in> set ds. k2 \<noteq> k}. (\<lambda>c. (qt_port t, bc_mac c, bc_rate_bps c)) ` set (qt_clients t))"
    unfolding entries_def set_map s by (simp only: image_insert Sup_insert snd_conv assms(3,4))
  ultimately show ?thesis by (simp only: set_append image_Un) blast
qed

lemma update_push:
  assumes "keyed ds" and "(k, t) \<in> set ds"
  shows "update_tree k f ds = update_tree k (\<lambda>_. f t) ds"
  using assms by (auto simp: update_tree_def keyed_def dest: eq_key_imp_eq_value)

lemma budget_class_of_Ok:
  "budget_class_of lease rate = Ok c \<Longrightarrow> bc_mac c = csl_mac lease \<and> bc_rate_bps c = rate"
  by (auto simp: budget_class_of_def res_simps)

lemma place_download_Ok:
  assumes "place_download layout lease rate ds = Ok ds'" and "keyed ds"
  shows "\<exists>p. map_of (dl_client_delivery layout) (csl_mac lease) = Some p \<and> keyed ds' \<and>
    entries (map snd ds') = insert (p, csl_mac lease, rate) (entries (map snd ds))"
proof -
  from assms(1) obtain p t c where p: "map_of (dl_client_delivery layout) (csl_mac lease) = Some p"
    and t: "map_of ds (qp_ifindex p) = Some t" "qt_port t = p" and c: "budget_class_of lease rate = Ok c"
    and ds': "ds' = update_tree (qp_ifindex p) (push_client c) ds"
    by (auto simp: place_download_def res_simps split: option.splits if_splits)
  have mem: "(qp_ifindex p, t) \<in> set ds" using t(1) by (rule map_of_SomeD)
  have "ds' = update_tree (qp_ifindex p) (\<lambda>_. push_client c t) ds"
    unfolding ds' by (rule update_push [OF assms(2) mem])
  moreover have "qt_port (push_client c t) = qt_port t" "qt_clients (push_client c t) = qt_clients t @ [c]"
    by (simp_all add: push_client_def)
  ultimately show ?thesis
    using entries_update [OF assms(2) mem, of "push_client c t" "[c]"] p t(2) budget_class_of_Ok [OF c] by simp
qed

lemma place_budget_Ok:
  assumes "place_budget layout (up, ds, macs, slots) b = Ok (up', ds', macs', slots')" and "keyed ds"
  shows "keyed ds' \<and> csl_mac (cb_lease b) \<notin> macs \<and> macs' = insert (csl_mac (cb_lease b)) macs \<and>
    (case cb_download_bps b of
       None \<Rightarrow> entries (map snd ds') = entries (map snd ds)
     | Some rate \<Rightarrow> \<exists>p. map_of (dl_client_delivery layout) (csl_mac (cb_lease b)) = Some p \<and>
         entries (map snd ds') = insert (p, csl_mac (cb_lease b), rate) (entries (map snd ds)))"
proof -
  have "(case cb_download_bps b of None \<Rightarrow> Ok ds | Some rate \<Rightarrow> place_download layout (cb_lease b) rate ds) = Ok ds'"
    and "csl_mac (cb_lease b) \<notin> macs \<and> macs' = insert (csl_mac (cb_lease b)) macs"
    using assms(1) by (auto simp: place_budget_def Let_def res_simps split: if_splits)
  with assms(2) show ?thesis by (auto dest: place_download_Ok split: option.splits)
qed

text \<open>A client with a download budget has one class among the download trees, at its port.\<close>

definition placed :: "delivery_layout \<Rightarrow> (queue_port \<times> string \<times> u64) set \<Rightarrow> client_budget \<Rightarrow> bool" where
  "placed layout es b \<longleftrightarrow> (case cb_download_bps b of None \<Rightarrow> True | Some rate \<Rightarrow>
     (\<exists>p. map_of (dl_client_delivery layout) (csl_mac (cb_lease b)) = Some p \<and>
        {e \<in> es. fst (snd e) = csl_mac (cb_lease b)} = {(p, csl_mac (cb_lease b), rate)}))"

lemma place_budgets_Ok:
  assumes "try_fold (place_budget layout) (up, ds, macs, slots) bs = Ok (up', ds', macs', slots')"
    and "keyed ds" and "\<forall>e\<in>entries (map snd ds). fst (snd e) \<in> macs" and "\<forall>b\<in>set old. placed layout (entries (map snd ds)) b"
    and "\<forall>b\<in>set old. csl_mac (cb_lease b) \<in> macs"
  shows "keyed ds' \<and> (\<forall>b\<in>set (old @ bs). placed layout (entries (map snd ds')) b)"
  using assms
proof (induction bs arbitrary: up ds macs slots old)
  case (Cons b bs)
  then obtain up1 ds1 macs1 slots1 where s1: "place_budget layout (up, ds, macs, slots) b = Ok (up1, ds1, macs1, slots1)"
    and s2: "try_fold (place_budget layout) (up1, ds1, macs1, slots1) bs = Ok (up', ds', macs', slots')"
    by (auto simp: res_simps)
  let ?m = "csl_mac (cb_lease b)"
  note step = place_budget_Ok [OF s1 Cons.prems(2)]
  then have new: "?m \<notin> macs" and macs1: "macs1 = insert ?m macs" and k1: "keyed ds1" by auto
  have e1: "\<forall>e\<in>entries (map snd ds1). fst (snd e) \<in> macs1"
    using step Cons.prems(3) by (auto simp: macs1 split: option.splits)
  have no: "(q, ?m, r) \<notin> entries (map snd ds)" for q r using Cons.prems(3) new by force
  have pb: "placed layout (entries (map snd ds1)) b"
    using step by (auto simp: placed_def no split: option.splits)
  have "placed layout (entries (map snd ds1)) b'" if "b' \<in> set old" for b'
  proof -
    have "csl_mac (cb_lease b') \<noteq> ?m" using that Cons.prems(5) new by auto
    then have "{e \<in> entries (map snd ds1). fst (snd e) = csl_mac (cb_lease b')} =
        {e \<in> entries (map snd ds). fst (snd e) = csl_mac (cb_lease b')}"
      using step by (auto split: option.splits)
    with Cons.prems(4) that show ?thesis by (auto simp: placed_def split: option.splits)
  qed
  with Cons.IH [OF s2 k1 e1, of "old @ [b]"] pb Cons.prems(5) show ?case by (auto simp: macs1)
qed simp

lemma add_application_Ok:
  assumes "add_application a rate pr t = Ok t'"
  shows "\<exists>new. qt_port t' = qt_port t \<and> qt_clients t' = qt_clients t @ new \<and>
    (new = [] \<or> (\<exists>c. new = [c] \<and> bc_mac c = csl_mac (ab_lease a)) \<and> csl_mac (ab_lease a) \<notin> bc_mac ` set (qt_clients t))"
proof (cases "csl_mac (ab_lease a) \<in> bc_mac ` set (qt_clients t)")
  case True
  then have "\<exists>client\<in>set (qt_clients t). bc_mac client = csl_mac (ab_lease a)" by auto
  with assms show ?thesis by (auto simp: add_application_def push_application_def)
next
  case False
  then have "\<not> (\<exists>client\<in>set (qt_clients t). bc_mac client = csl_mac (ab_lease a))" by (auto simp: image_iff)
  with assms False show ?thesis
    by (auto simp: add_application_def push_client_def push_application_def res_simps dest!: budget_class_of_Ok)
qed

lemma place_application_Ok:
  assumes "place_application layout cap bs (up, ds, keys) a = Ok (up', ds', keys')" and "keyed ds"
  shows "keyed ds' \<and> (entries (map snd ds') = entries (map snd ds) \<or>
    (\<exists>p rate. map_of (dl_client_delivery layout) (csl_mac (ab_lease a)) = Some p \<and>
       (\<forall>r. (p, csl_mac (ab_lease a), r) \<notin> entries (map snd ds)) \<and>
       entries (map snd ds') = insert (p, csl_mac (ab_lease a), rate) (entries (map snd ds))))"
proof (cases "ab_download_bps a")
  case None
  with assms show ?thesis by (auto simp: place_application_def Let_def res_simps split: if_splits)
next
  case (Some rate)
  let ?m = "csl_mac (ab_lease a)"
  from assms(1) Some obtain p k t pr t' where p: "map_of (dl_client_delivery layout) ?m = Some p"
    and f: "find (\<lambda>(_, tree). qt_port tree = p) ds = Some (k, t)" and t': "add_application a rate pr t = Ok t'"
    and ds': "ds' = update_tree k (\<lambda>_. t') ds"
    by (auto simp: place_application_def Let_def res_simps split: if_splits)
  from find_Some_iff_dest [OF f] have t: "(k, t) \<in> set ds" "qt_port t = p" by auto
  from add_application_Ok [OF t'] obtain new where new: "qt_port t' = qt_port t" "qt_clients t' = qt_clients t @ new"
    "new = [] \<or> (\<exists>c. new = [c] \<and> bc_mac c = ?m) \<and> ?m \<notin> bc_mac ` set (qt_clients t)" by blast
  have "t2 = t" if "(k2, t2) \<in> set ds" "qt_port t2 = p" for k2 t2
  proof -
    have "k = qp_ifindex p" "k2 = qp_ifindex p" using assms(2) t that by (auto simp: keyed_def)
    with assms(2) t that show ?thesis by (auto simp: keyed_def dest: eq_key_imp_eq_value)
  qed
  then have "(p, ?m, r) \<notin> entries (map snd ds)" if "?m \<notin> bc_mac ` set (qt_clients t)" for r
    using that by (force simp: entries_def)
  with new(3) entries_update [OF assms(2) t(1) new(1,2)] p t(2) show ?thesis by (auto simp: ds')
qed

lemma place_applications_Ok:
  assumes "try_fold (place_application layout cap bs) (up, ds, keys) as = Ok (up', ds', keys')"
    and "keyed ds" and "\<forall>b\<in>set bs'. placed layout (entries (map snd ds)) b"
  shows "keyed ds' \<and> (\<forall>b\<in>set bs'. placed layout (entries (map snd ds')) b)"
  using assms
proof (induction "as" arbitrary: up ds keys)
  case (Cons a "as")
  then obtain up1 ds1 keys1 where s1: "place_application layout cap bs (up, ds, keys) a = Ok (up1, ds1, keys1)"
    and s2: "try_fold (place_application layout cap bs) (up1, ds1, keys1) as = Ok (up', ds', keys')"
    by (auto simp: res_simps)
  note step = place_application_Ok [OF s1 Cons.prems(2)]
  have "placed layout (entries (map snd ds1)) b" if "b \<in> set bs'" for b
  proof (cases "cb_download_bps b")
    case (Some rate)
    let ?m = "csl_mac (cb_lease b)"
    from Cons.prems(3) that have "placed layout (entries (map snd ds)) b" by blast
    with Some obtain p where p: "map_of (dl_client_delivery layout) ?m = Some p"
      "{e \<in> entries (map snd ds). fst (snd e) = ?m} = {(p, ?m, rate)}" by (auto simp: placed_def)
    then have "(p, ?m, rate) \<in> entries (map snd ds)" by blast
    with step p(1) have "entries (map snd ds1) = entries (map snd ds) \<or>
        (\<exists>q r. entries (map snd ds1) = insert (q, csl_mac (ab_lease a), r) (entries (map snd ds)) \<and> csl_mac (ab_lease a) \<noteq> ?m)"
      by (metis option.inject)
    then have "{e \<in> entries (map snd ds1). fst (snd e) = ?m} = {e \<in> entries (map snd ds). fst (snd e) = ?m}"
      by auto
    with p Some show ?thesis by (simp add: placed_def)
  qed (simp add: placed_def)
  with Cons.IH [OF s2] step show ?case by blast
qed simp

lemma add_ports_keyed:
  assumes "try_fold (add_port layout ifb caps) (ids, names, ds) ps = Ok (ids', names', ds')"
    and "keyed ds" "fst ` set ds \<subseteq> ids" "entries (map snd ds) = {}"
  shows "keyed ds' \<and> entries (map snd ds') = {}"
  using assms
proof (induction ps arbitrary: ids names ds)
  case (Cons p ps)
  then obtain st where s1: "add_port layout ifb caps (ids, names, ds) p = Ok st"
    and s2: "try_fold (add_port layout ifb caps) st ps = Ok (ids', names', ds')" by (auto simp: res_simps)
  from s1 obtain t where st: "st = (insert (qp_ifindex p) ids, insert (qp_name p) names, (qp_ifindex p, t) # ds)"
    and t: "qt_port t = p" "qt_clients t = []" "qp_ifindex p \<notin> ids"
    by (auto simp: add_port_def Let_def res_simps split: if_splits)
  show ?case
    using Cons.prems(2-4) t by (intro Cons.IH [OF s2 [unfolded st]]) (auto simp: keyed_def entries_def)
qed simp

lemma checked_tree_Ok:
  "checked_tree t = Ok t' \<Longrightarrow> t' = sort_tree t \<and> (\<exists>cs. classes t' = Ok cs)"
  by (auto simp: checked_tree_def res_simps)

lemma checked_downloads:
  assumes "try_map (\<lambda>(_, tree). checked_tree tree) ds = Ok ts"
  shows "ts = map (sort_tree \<circ> snd) ds \<and> (\<forall>t\<in>set ts. \<exists>cs. classes t = Ok cs)"
proof -
  have l2: "list_all2 (\<lambda>(_, tree) t. checked_tree tree = Ok t) ds ts"
    using assms by (simp add: try_map_eq_Inr split_def)
  then have "list_all2 (\<lambda>d t. t = (sort_tree \<circ> snd) d \<and> (\<exists>cs. classes t = Ok cs)) ds ts"
    by (rule list_all2_mono) (auto dest: checked_tree_Ok)
  then show ?thesis
    by (induction rule: list_all2_induct) auto
qed

lemma entries_sort: "entries (map (sort_tree \<circ> snd) ds) = entries (map snd ds)"
  by (simp add: entries_def sort_tree_def image_image)

lemma build_Ok:
  assumes "build layout ifb cap caps budgets apps = Ok plan"
  shows "\<forall>b\<in>set budgets. placed layout (entries (plan_downloads plan)) b"
    and "\<forall>t\<in>set (plan_upload plan # plan_downloads plan). \<exists>cs. classes t = Ok cs"
proof -
  from assms obtain ids names ds up1 ds1 macs slots up2 ds2 keys up ts where
    1: "try_fold (add_port layout ifb caps) ({}, {}, []) (dl_egress_ports layout) = Ok (ids, names, ds)"
    and 2: "try_fold (place_budget layout) (\<lparr>qt_port = ifb, qt_major = upload_major, qt_capacity_bps = cap,
        qt_clients = [], qt_applications = []\<rparr>, sort_key fst ds, {}, {}) budgets = Ok (up1, ds1, macs, slots)"
    and 3: "try_fold (place_application layout cap budgets) (up1, ds1, {}) apps = Ok (up2, ds2, keys)"
    and 4: "checked_tree up2 = Ok up" and 5: "try_map (\<lambda>(_, tree). checked_tree tree) ds2 = Ok ts"
    and plan: "plan = \<lparr>plan_upload = up, plan_downloads = ts\<rparr>"
    by (auto simp: build_def Let_def res_simps split: if_splits)
  from add_ports_keyed [OF 1] have "keyed ds" "entries (map snd ds) = {}" by (auto simp: keyed_def entries_def)
  then have "keyed (sort_key fst ds)" "entries (map snd (sort_key fst ds)) = {}"
    by (auto simp: keyed_def entries_def mset_eq_imp_distinct_iff [of "map fst (sort_key fst ds)" "map fst ds"])
  from place_budgets_Ok [OF 2 this(1), of "[]"] this(2) have "keyed ds1" "\<forall>b\<in>set budgets. placed layout (entries (map snd ds1)) b"
    by auto
  from place_applications_Ok [OF 3 this] have "\<forall>b\<in>set budgets. placed layout (entries (map snd ds2)) b" by blast
  then show "\<forall>b\<in>set budgets. placed layout (entries (plan_downloads plan)) b"
    using checked_downloads [OF 5] by (simp add: plan entries_sort)
  show "\<forall>t\<in>set (plan_upload plan # plan_downloads plan). \<exists>cs. classes t = Ok cs"
    using checked_downloads [OF 5] checked_tree_Ok [OF 4] by (auto simp: plan)
qed

section \<open>Properties\<close>

text \<open>C15. The classes of every tree of a plan form a tree: they have distinct identifiers, and in the
  order in which they are created each class but the root class comes after its parent and has at most
  the rate of its parent.\<close>

theorem plan_class_trees:
  assumes "build layout ifb cap caps budgets apps = Ok plan"
    and "t \<in> set (plan_upload plan # plan_downloads plan)"
  shows "\<exists>cs. classes t = Ok cs \<and> class_tree cs"
  using build_Ok(2) [OF assms(1)] assms(2) classes_class_tree by blast

text \<open>C40. A download budget is enforced at exactly one place: for every client with a download budget
  exactly one port has a class of the client among the download trees of the plan, it is the port
  behind which the client was found, and the class has the budget as its rate.\<close>

theorem plan_single_delivery:
  assumes "build layout ifb cap caps budgets apps = Ok plan"
    and "b \<in> set budgets" and "cb_download_bps b = Some rate"
  shows "\<exists>p. map_of (dl_client_delivery layout) (csl_mac (cb_lease b)) = Some p \<and>
    {(qt_port t, bc_rate_bps c) | t c. t \<in> set (plan_downloads plan) \<and> c \<in> set (qt_clients t) \<and>
       bc_mac c = csl_mac (cb_lease b)} = {(p, rate)}"
proof -
  let ?m = "csl_mac (cb_lease b)"
  from build_Ok(1) [OF assms(1)] assms(2,3) obtain p where
    p: "map_of (dl_client_delivery layout) ?m = Some p" "{e \<in> entries (plan_downloads plan). fst (snd e) = ?m} = {(p, ?m, rate)}"
    by (auto simp: placed_def split: option.splits)
  have "{(qt_port t, bc_rate_bps c) | t c. t \<in> set (plan_downloads plan) \<and> c \<in> set (qt_clients t) \<and> bc_mac c = ?m} =
    (\<lambda>e. (fst e, snd (snd e))) ` {e \<in> entries (plan_downloads plan). fst (snd e) = ?m}"
    by (force simp: entries_def image_iff)
  with p show ?thesis by simp
qed

definition ex_port :: queue_port where
  "ex_port = \<lparr>qp_name = ''lan'', qp_ifindex = 2\<rparr>"

definition ex_layout :: delivery_layout where
  "ex_layout = \<lparr>dl_capture_interface = ''lan'', dl_bridge = False, dl_ingress_ports = [ex_port],
     dl_egress_ports = [ex_port], dl_client_delivery = [(ex_mac, ex_port)]\<rparr>"

definition ex_budget :: client_budget where
  "ex_budget = \<lparr>cb_lease = \<lparr>csl_mac = ex_mac, csl_slot = 0, csl_active = True\<rparr>, cb_upload_bps = None,
     cb_download_bps = Some 1000000\<rparr>"

definition ex_plan :: "priority_plan res" where
  "ex_plan = build ex_layout \<lparr>qp_name = ''ifb'', qp_ifindex = 3\<rparr> structural_capacity_bps [(2, 1000000000)] [ex_budget] []"

lemma ex_plan_Ok: "\<exists>plan. ex_plan = Ok plan"
proof -
  have "is_ok ex_plan" by code_simp
  then show ?thesis by (simp add: is_ok_iff)
qed

theorem plan_class_trees_witness:
  "\<exists>plan cs. ex_plan = Ok plan \<and> classes (plan_upload plan) = Ok cs \<and> class_tree cs"
proof -
  from ex_plan_Ok obtain plan where plan: "ex_plan = Ok plan" by blast
  from plan_class_trees [OF plan [unfolded ex_plan_def], of "plan_upload plan"] plan show ?thesis by auto
qed

theorem plan_single_delivery_witness:
  "\<exists>plan. ex_plan = Ok plan \<and>
    {(qt_port t, bc_rate_bps c) | t c. t \<in> set (plan_downloads plan) \<and> c \<in> set (qt_clients t) \<and>
       bc_mac c = ex_mac} = {(ex_port, 1000000)}"
proof -
  from ex_plan_Ok obtain plan where plan: "ex_plan = Ok plan" by blast
  from plan_single_delivery [OF plan [unfolded ex_plan_def], of ex_budget 1000000] plan show ?thesis
    by (intro exI [of _ plan]) (simp add: ex_budget_def ex_layout_def)
qed

end
