(* ===== verification/Link_Capacity.thy ===== *)
theory Link_Capacity
  imports Priority_Plan
begin

text \<open>
  The capacity of a LAN interface (\<open>agent/src/policy/capacity.rs\<close>): the speed of the physical link
  below it, found through bridges and lower links, combined with the configured capacity. The files
  under \<open>/sys/class/net\<close>, the neighbour table, the forwarding database and the default routes are
  arguments; the search follows at most eight levels.
\<close>

section \<open>What is read\<close>

record link_sys =
  ls_carrier :: "string \<Rightarrow> string option"
  ls_bridge :: "string \<Rightarrow> bool"
  ls_brif :: "string \<Rightarrow> string list res"
  ls_entries :: "string \<Rightarrow> string list res"
  ls_ifindex :: "string \<Rightarrow> string option"
  ls_device :: "string \<Rightarrow> bool"
  ls_speed :: "string \<Rightarrow> string res"

record neighbor_entry =
  ne_ifindex :: u32
  ne_ip :: ip_addr
  ne_mac :: mac_address

record link_tables =
  lt_neighbors :: "neighbor_entry list"
  lt_fdb :: "bridge_fdb_entry list"
  lt_show_ip :: "ip_addr \<Rightarrow> string"

record capacity =
  cap_bps :: u64
  cap_source :: string
  cap_link_interfaces :: "string list"

definition sys_path :: "string \<Rightarrow> string" where
  "sys_path interface = ''/sys/class/net/'' @ interface"

section \<open>Detection\<close>

definition read_index :: "link_sys \<Rightarrow> string \<Rightarrow> u32 res" where
  "read_index sys interface =
     ok_or (sys_path interface @ '' has no interface index'')
       (case ls_ifindex sys interface of
          None \<Rightarrow> None
        | Some value \<Rightarrow> (case from_str_radix (2 ^ 32) 10 (trim value) of
             None \<Rightarrow> None
           | Some n \<Rightarrow> if (of_nat n :: u32) \<noteq> 0 then Some (of_nat n) else None))"

definition children :: "string \<Rightarrow> string list res \<Rightarrow> string \<Rightarrow> string list res" where
  "children path listing prefix =
     and_then (map_err (\<lambda>error. ''cannot enumerate '' @ path @ '': '' @ error) listing) (\<lambda>found.
     let names = sort (List.map_filter (strip_prefix prefix) found) in
     if 256 < length names then Err ''link topology exceeds the member limit'' else Ok names)"

definition combine :: "capacity list \<Rightarrow> string \<Rightarrow> capacity res" where
  "combine links source =
     (if links = [] then Err ''no physical link capacity''
      else Ok \<lparr>cap_bps = Min (set (map cap_bps links)), cap_source = source,
         cap_link_interfaces = sorted_list_of_set (\<Union> (set (map (\<lambda>link. set (cap_link_interfaces link)) links)))\<rparr>)"

definition invalid_link_name :: "string \<Rightarrow> bool" where
  "invalid_link_name interface \<longleftrightarrow>
     interface = [] \<or> 15 < length interface \<or> CHR ''/'' \<in> set interface \<or> interface = ''.'' \<or> interface = ''..''"

text \<open>The ports of a bridge by interface index; a later name replaces an earlier one.\<close>

definition bridge_ports :: "link_sys \<Rightarrow> string list \<Rightarrow> (u32, string) btree_map res" where
  "bridge_ports sys members =
     and_then (try_map (\<lambda>name. and_then (read_index sys name) (\<lambda>index. Ok (index, name))) members) (\<lambda>ports.
     Ok (rev ports))"

definition gateway_port ::
  "link_tables \<Rightarrow> string \<Rightarrow> u32 \<Rightarrow> (u32, string) btree_map \<Rightarrow> string set \<Rightarrow> ip_addr \<Rightarrow> string set res" where
  "gateway_port tables interface ifindex ports selected gateway =
     and_then (ok_or (interface @ '' gateway '' @ lt_show_ip tables gateway @ '' has no resolved neighbour'')
       (find (\<lambda>entry. ne_ifindex entry = ifindex \<and> ne_ip entry = gateway) (lt_neighbors tables))) (\<lambda>neighbor.
     let matches = remdups (map fdb_ifindex (filter (\<lambda>entry. fdb_mac entry = ne_mac neighbor \<and>
           map_of ports (fdb_ifindex entry) \<noteq> None) (lt_fdb tables))) in
     if length matches \<noteq> 1
     then Err (interface @ '' gateway '' @ lt_show_ip tables gateway @ '' has no unique bridge forwarding port'')
     else Ok (insert (the (map_of ports (hd matches))) selected))"

definition physical_capacity :: "link_sys \<Rightarrow> string \<Rightarrow> capacity res" where
  "physical_capacity sys interface =
     (if \<not> ls_device sys interface then Err (interface @ '' is virtual and has no physical lower link'')
      else and_then (map_err (\<lambda>error. ''cannot read '' @ interface @ '' speed: '' @ error) (ls_speed sys interface)) (\<lambda>speed.
      and_then (ok_or (interface @ '' has no measured link speed'') (from_str_radix (2 ^ 64) 10 (trim speed))) (\<lambda>mbps.
      and_then (ok_or (interface @ '' link speed is outside the safe numeric range'')
        (if mbps * 1000000 < 2 ^ 64 \<and> min_policy_capacity_bps \<le> of_nat (mbps * 1000000) \<and>
            of_nat (mbps * 1000000) \<le> max_policy_capacity_bps
         then Some (of_nat (mbps * 1000000)) else None)) (\<lambda>bps.
      Ok \<lparr>cap_bps = bps, cap_source = ''link'', cap_link_interfaces = [interface]\<rparr>))))"

definition oks :: "'a res list \<Rightarrow> 'a list" where
  "oks rs = List.map_filter (\<lambda>r. case r of Inl _ \<Rightarrow> None | Inr x \<Rightarrow> Some x) rs"

function detect :: "link_sys \<Rightarrow> link_tables \<Rightarrow> string \<Rightarrow> ip_addr list \<Rightarrow> nat \<Rightarrow> capacity res" where
  "detect sys tables interface gateways depth =
     (if 8 \<le> depth \<or> invalid_link_name interface then Err ''invalid or recursive link topology''
      else if (case ls_carrier sys interface of None \<Rightarrow> False | Some value \<Rightarrow> trim value = ''0'')
      then Err (interface @ '' has no active carrier'')
      else if ls_bridge sys interface then
        and_then (children (sys_path interface @ ''/brif'') (ls_brif sys interface) '''') (\<lambda>members.
        if gateways \<noteq> [] then
          and_then (read_index sys interface) (\<lambda>ifindex.
          and_then (bridge_ports sys members) (\<lambda>ports.
          and_then (try_fold (gateway_port tables interface ifindex ports) {} gateways) (\<lambda>selected.
          and_then (try_map (\<lambda>name. detect sys tables name [] (depth + 1)) (sorted_list_of_set selected)) (\<lambda>links.
          combine links ''bridge_gateway''))))
        else
          let links = oks (map (\<lambda>name. detect sys tables name [] (depth + 1)) members) in
          if card (\<Union> (set (map (\<lambda>link. set (cap_link_interfaces link)) links))) \<noteq> 1
          then Err (interface @ '' has no unique physical bridge capacity'')
          else combine links ''bridge_single_link'')
      else
        and_then (children (sys_path interface) (ls_entries sys interface) ''lower_'') (\<lambda>lowers.
        if lowers \<noteq> [] then
          if length lowers \<noteq> 1 then Err (interface @ '' has multiple lower links with unknown aggregate capacity'')
          else and_then (detect sys tables (hd lowers) [] (depth + 1)) (\<lambda>capacity.
               Ok (capacity\<lparr>cap_source := ''lower_link''\<rparr>))
        else physical_capacity sys interface))"
  by pat_completeness auto
termination
  by (relation "measure (\<lambda>(_, _, _, _, depth). 8 - depth)") auto

declare detect.simps [simp del]

section \<open>The effective capacity\<close>

definition resolve_capacity :: "capacity res \<Rightarrow> u64 option \<Rightarrow> capacity res" where
  "resolve_capacity measured configured =
     (if (case configured of None \<Rightarrow> False
          | Some bps \<Rightarrow> \<not> (min_policy_capacity_bps \<le> bps \<and> bps \<le> max_policy_capacity_bps))
      then Err ''unsupported_interface_speed: configured capacity is outside the safe numeric range''
      else case (measured, configured) of
        (Inr link, Some cap) \<Rightarrow> Ok (link\<lparr>cap_bps := min (cap_bps link) cap, cap_source := ''configured_and_link''\<rparr>)
      | (Inr link, None) \<Rightarrow> Ok link
      | (Inl _, Some bps) \<Rightarrow> Ok \<lparr>cap_bps = bps, cap_source = ''configured'', cap_link_interfaces = []\<rparr>
      | (Inl error, None) \<Rightarrow> Err (''unsupported_interface_speed: '' @ error @
          ''; configure policy_interface_capacity_bps to override''))"

text \<open>The tables are read only for a bridge; a failed dump counts as empty.\<close>

definition effective_capacity ::
  "link_sys \<Rightarrow> link_tables \<Rightarrow> ip_addr list \<Rightarrow> string \<Rightarrow> u64 option \<Rightarrow> capacity res" where
  "effective_capacity sys tables gateways interface configured =
     (let tables = (if ls_bridge sys interface then tables else tables\<lparr>lt_neighbors := [], lt_fdb := []\<rparr>)
      in resolve_capacity (detect sys tables interface gateways 0) configured)"

section \<open>Specification\<close>

definition in_capacity_range :: "u64 \<Rightarrow> bool" where
  "in_capacity_range bps \<longleftrightarrow> min_policy_capacity_bps \<le> bps \<and> bps \<le> max_policy_capacity_bps"

text \<open>A measured link: the interface has a device and reports a speed of at least \<open>bps\<close>.\<close>

definition measured_link :: "link_sys \<Rightarrow> u64 \<Rightarrow> string \<Rightarrow> bool" where
  "measured_link sys bps interface \<longleftrightarrow> ls_device sys interface \<and>
     (\<exists>speed mbps. ls_speed sys interface = Ok speed \<and> from_str_radix (2 ^ 64) 10 (trim speed) = Some mbps \<and>
        unat bps \<le> mbps * 1000000)"

definition link_backed :: "link_sys \<Rightarrow> capacity \<Rightarrow> bool" where
  "link_backed sys c \<longleftrightarrow> in_capacity_range (cap_bps c) \<and> cap_link_interfaces c \<noteq> [] \<and>
     (\<forall>i\<in>set (cap_link_interfaces c). measured_link sys (cap_bps c) i)"

section \<open>Lemmas\<close>

lemma measured_link_mono: "measured_link sys bps i \<Longrightarrow> bps' \<le> bps \<Longrightarrow> measured_link sys bps' i"
  by (auto simp: measured_link_def word_le_nat_alt intro: order_trans)

lemma physical_capacity_backed: "physical_capacity sys i = Ok c \<Longrightarrow> link_backed sys c"
  by (auto simp: physical_capacity_def link_backed_def measured_link_def in_capacity_range_def res_simps
      unat_of_nat simp del: of_nat_mult split: if_splits)

lemma combine_backed:
  assumes "combine links source = Ok c" and "\<And>l. l \<in> set links \<Longrightarrow> link_backed sys l"
  shows "link_backed sys c"
proof -
  from assms(1) have c: "links \<noteq> []" "cap_bps c = Min (cap_bps ` set links)"
    "set (cap_link_interfaces c) = (\<Union>l\<in>set links. set (cap_link_interfaces l))"
    by (auto simp: combine_def split: if_splits)
  have "cap_bps c \<in> cap_bps ` set links" unfolding c(2) using c(1) by (intro Min_in) auto
  with assms(2) have range: "in_capacity_range (cap_bps c)" by (auto simp: link_backed_def)
  have le: "cap_bps c \<le> cap_bps l" if "l \<in> set links" for l using that by (simp add: c(2))
  from c(1) obtain l where "l \<in> set links" by (cases links) auto
  with assms(2) have "set (cap_link_interfaces c) \<noteq> {}" by (auto simp: c(3) link_backed_def)
  moreover have "measured_link sys (cap_bps c) i" if "i \<in> set (cap_link_interfaces c)" for i
    using that assms(2) le by (auto simp: c(3) link_backed_def intro: measured_link_mono)
  ultimately show ?thesis using range by (simp add: link_backed_def)
qed

lemma set_oks: "x \<in> set (oks rs) \<longleftrightarrow> Ok x \<in> set rs"
  by (induction rs) (auto simp: oks_def List.map_filter_simps split: sum.splits)

lemma detect_backed: "detect sys tables i gateways depth = Ok c \<Longrightarrow> link_backed sys c"
proof (induction "8 - depth" arbitrary: i gateways depth c rule: less_induct)
  case less
  from less.prems have depth: "depth < 8" by (subst (asm) detect.simps) (auto split: if_splits)
  have below: "link_backed sys l" if "detect sys tables n [] (Suc depth) = Ok l" for n l
    using less.hyps [OF _ that] depth by simp
  have gateway: "link_backed sys c" if "try_map (\<lambda>n. detect sys tables n [] (Suc depth)) ns = Ok ls"
    "combine ls s = Ok c" for ns ls s
    using that(1) below
    by (intro combine_backed [OF that(2)]) (auto simp: try_map_eq_Inr in_set_conv_nth list_all2_conv_all_nth)
  have single: "link_backed sys c" if "combine (oks (map (\<lambda>n. detect sys tables n [] (Suc depth)) ns)) s = Ok c" for ns s
    using below by (intro combine_backed [OF that]) (auto simp: set_oks dest: sym)
  have source: "link_backed sys (l\<lparr>cap_source := s\<rparr>)" if "link_backed sys l" for l s
    using that by (simp add: link_backed_def)
  from less.prems depth show ?case
    by (subst (asm) detect.simps)
       (auto simp: res_simps Let_def dest: gateway single below source physical_capacity_backed split: if_splits)
qed

section \<open>Claims\<close>

text \<open>The capacity of an interface is safe: it is in the supported range and does not exceed the
  configured capacity, it does not exceed the measured speed of any of the links it names, all of them
  physical, and it names at least one unless the capacity is configured.\<close>

theorem effective_capacity_bounds:
  assumes "effective_capacity sys tables gateways interface configured = Ok c"
  shows "in_capacity_range (cap_bps c) \<and> (\<forall>cap. configured = Some cap \<longrightarrow> cap_bps c \<le> cap) \<and>
    (\<forall>i\<in>set (cap_link_interfaces c). measured_link sys (cap_bps c) i) \<and>
    (configured = None \<longrightarrow> cap_link_interfaces c \<noteq> [])"
proof -
  from assms obtain tables' where r: "resolve_capacity (detect sys tables' interface gateways 0) configured = Ok c"
    by (auto simp: effective_capacity_def Let_def)
  show ?thesis
  proof (cases "detect sys tables' interface gateways 0")
    case (Inl e)
    with r show ?thesis
      by (auto simp: resolve_capacity_def in_capacity_range_def split: option.splits if_splits)
  next
    case (Inr link)
    from detect_backed [OF this] have l: "in_capacity_range (cap_bps link)" "cap_link_interfaces link \<noteq> []"
      "\<And>i. i \<in> set (cap_link_interfaces link) \<Longrightarrow> measured_link sys (cap_bps link) i"
      by (auto simp: link_backed_def)
    show ?thesis
    proof (cases configured)
      case None
      with r Inr l show ?thesis by (simp add: resolve_capacity_def)
    next
      case (Some cap)
      with r Inr have "in_capacity_range cap" "c = link\<lparr>cap_bps := min (cap_bps link) cap, cap_source := ''configured_and_link''\<rparr>"
        by (auto simp: resolve_capacity_def in_capacity_range_def split: if_splits)
      moreover have "measured_link sys (min (cap_bps link) cap) i" if "i \<in> set (cap_link_interfaces link)" for i
        using l(3) [OF that] by (rule measured_link_mono) simp
      ultimately show ?thesis using Some l(1,2) by (auto simp: in_capacity_range_def min_le_iff_disj)
    qed
  qed
qed

text \<open>A bridge with one member that has a physical link of one gigabit per second.\<close>

definition ex_link_sys :: link_sys where
  "ex_link_sys = \<lparr>ls_carrier = \<lambda>_. Some ''1'', ls_bridge = \<lambda>i. i = ''br-lan'', ls_brif = \<lambda>_. Ok [''eth1''],
     ls_entries = \<lambda>_. Ok [''speed''], ls_ifindex = \<lambda>_. Some ''2'', ls_device = \<lambda>i. i = ''eth1'',
     ls_speed = \<lambda>_. Ok ''1000''\<rparr>"

definition ex_link_tables :: link_tables where
  "ex_link_tables = \<lparr>lt_neighbors = [], lt_fdb = [], lt_show_ip = \<lambda>_. []\<rparr>"

lemma ex_capacity:
  "effective_capacity ex_link_sys ex_link_tables [] ''br-lan'' (Some 500000000) =
     Ok \<lparr>cap_bps = 500000000, cap_source = ''configured_and_link'', cap_link_interfaces = [''eth1'']\<rparr>"
  by code_simp

theorem effective_capacity_bounds_witness:
  "effective_capacity ex_link_sys ex_link_tables [] ''br-lan'' (Some 500000000) =
     Ok \<lparr>cap_bps = 500000000, cap_source = ''configured_and_link'', cap_link_interfaces = [''eth1'']\<rparr> \<and>
   in_capacity_range 500000000 \<and> measured_link ex_link_sys 500000000 ''eth1''"
  using effective_capacity_bounds [OF ex_capacity] ex_capacity by simp

end
