(* ===== verification/Priority_State.thy ===== *)
theory Priority_State
  imports Priority_Selection Bpf_Priority Link_Capacity "HOL-Library.Option_ord"
begin

text \<open>
  The state of the priority runtime and how the next one is planned
  (\<open>agent/src/linux/qos_priority_runtime.rs\<close>): the saved state and the checks it passes when it is
  loaded, the classes of application limits, the plan of a snapshot, and the queries that flow
  commands are checked against. The effects of applying a plan are in the theory of the runtime.
\<close>

section \<open>State\<close>

record active_application_class =
  aac_policy_id :: string
  aac_mac :: string
  aac_slot :: u16
  aac_minor :: u32
  aac_upload_bps :: "u64 option"
  aac_download_bps :: "u64 option"

record priority_state =
  pst_schema_version :: u32
  pst_gateway_id :: string
  pst_controller_epoch :: string
  pst_config_revision :: u64
  pst_bundle_generation :: u64
  pst_checksum :: string
  pst_snapshot :: policy_wire_frame
  pst_leases :: "client_slot_lease list"
  pst_application_classes :: "active_application_class list"
  pst_generation :: u32
  pst_expires_at_ms :: int

record priority_runtime =
  rt_interface :: string
  rt_capacity_bps :: "(string, u64) btree_map"
  rt_ifb :: string
  rt_layout :: delivery_layout
  rt_ports :: "queue_port list"
  rt_ifb_ifindex :: u32
  rt_owned_roots :: "(string \<times> u32) set"
  rt_active :: "priority_state option"
  rt_active_plan :: "priority_plan option"
  rt_is_one_arm_router :: bool
  rt_force_reapply :: bool
  rt_emergency_disabled :: bool
  rt_shutdown_done :: bool

section \<open>Application classes\<close>

definition application_range_start :: "u16 \<Rightarrow> u32" where
  "application_range_start slot = application_first + ucast slot * applications_per_client"

definition application_minor :: "u16 \<Rightarrow> u32 \<Rightarrow> u32 option" where
  "application_minor slot index =
     Option.bind (checked_add_w application_first (ucast slot * applications_per_client)) (\<lambda>first.
     Option.bind (checked_add_w first index) (\<lambda>minor.
     if minor \<le> application_last then Some minor else None))"

definition allocate_application ::
  "(string \<Rightarrow> client_slot_lease option) \<Rightarrow> (string, u32) btree_map \<times> active_application_class list \<Rightarrow>
    application_rates \<Rightarrow> ((string, u32) btree_map \<times> active_application_class list) res" where
  "allocate_application lease_of state application =
     (let (indices, classes) = state in
      and_then (ok_or ''priority_application_identity_unresolved'' (lease_of (ar_mac application))) (\<lambda>lease.
      let index = (case map_of indices (ar_mac application) of None \<Rightarrow> 0 | Some i \<Rightarrow> i) in
      if applications_per_client \<le> index
      then Err ''priority_application_class_capacity: client exceeds 16 active app policies''
      else and_then (ok_or ''priority_application_class_capacity'' (application_minor (csl_slot lease) index)) (\<lambda>minor.
        Ok ((ar_mac application, index + 1) # indices,
            classes @ [\<lparr>aac_policy_id = ar_policy_id application, aac_mac = ar_mac application,
              aac_slot = csl_slot lease, aac_minor = minor,
              aac_upload_bps = ar_upload_bps application, aac_download_bps = ar_download_bps application\<rparr>]))))"

text \<open>The active leases by client; a later lease of a client replaces an earlier one.\<close>

definition lease_by_mac :: "client_slot_lease list \<Rightarrow> string \<Rightarrow> client_slot_lease option" where
  "lease_by_mac leases = map_of (rev (map (\<lambda>lease. (csl_mac lease, lease)) (filter csl_active leases)))"

definition allocate_application_classes ::
  "priority_selection \<Rightarrow> client_slot_lease list \<Rightarrow> active_application_class list res" where
  "allocate_application_classes selection leases =
     and_then (try_fold (allocate_application (lease_by_mac leases)) ([], []) (ps_application_limits selection))
       (\<lambda>(indices, classes). Ok classes)"

section \<open>Loading a saved state\<close>

definition check_application ::
  "(string \<Rightarrow> client_slot_lease option) \<Rightarrow> (string \<times> string) set \<times> (string \<times> u32) set \<Rightarrow>
    active_application_class \<Rightarrow> ((string \<times> string) set \<times> (string \<times> u32) set) res" where
  "check_application lease_of state application =
     (let (policies, minors) = state; first = application_range_start (aac_slot application) in
      if aac_policy_id application = [] \<or>
         \<not> (case lease_of (aac_mac application) of None \<Rightarrow> False | Some lease \<Rightarrow> csl_slot lease = aac_slot application) \<or>
         aac_minor application < first \<or> first + applications_per_client \<le> aac_minor application \<or>
         (aac_upload_bps application = None \<and> aac_download_bps application = None) \<or>
         (aac_mac application, aac_policy_id application) \<in> policies \<or>
         (aac_mac application, aac_minor application) \<in> minors
      then Err ''priority_state_invalid: application class mapping is inconsistent''
      else Ok (insert (aac_mac application, aac_policy_id application) policies,
               insert (aac_mac application, aac_minor application) minors))"

definition check_state :: "priority_state \<Rightarrow> unit res" where
  "check_state state =
     and_then (ok_or ''priority_state_invalid'' (snapshot_identity (pst_snapshot state)))
       (\<lambda>(gateway, epoch, revision, generation, checksum).
     if pst_schema_version state \<noteq> 1 \<or> gateway \<noteq> pst_gateway_id state \<or> epoch \<noteq> pst_controller_epoch state \<or>
        revision \<noteq> pst_config_revision state \<or> generation \<noteq> pst_bundle_generation state \<or>
        checksum \<noteq> pst_checksum state \<or> pst_generation state = 0 \<or> pst_expires_at_ms state < 0
     then Err ''priority_state_invalid: gateway or snapshot identity mismatch''
     else and_then (try_each lease_validate (pst_leases state)) (\<lambda>_.
          and_then (try_fold (check_application (lease_by_mac (pst_leases state))) ({}, {}) (pst_application_classes state))
            (\<lambda>_. Ok ())))"

section \<open>Planning a snapshot\<close>

definition check_identity :: "priority_state option \<Rightarrow> policy_snapshot \<Rightarrow> unit res" where
  "check_identity old s =
     (case old of
        None \<Rightarrow> Ok ()
      | Some old \<Rightarrow>
          if snap_config_revision s < pst_config_revision old \<or>
             (snap_controller_epoch s = pst_controller_epoch old \<and>
              (snap_config_revision s < pst_config_revision old \<or>
               (snap_config_revision s = pst_config_revision old \<and> snap_bundle_generation s < pst_bundle_generation old)))
          then Err ''priority_stale_snapshot''
          else if snap_controller_epoch s = pst_controller_epoch old \<and> snap_config_revision s = pst_config_revision old \<and>
             snap_bundle_generation s = pst_bundle_generation old \<and> snap_checksum s \<noteq> pst_checksum old
          then Err ''priority_snapshot_identity_conflict''
          else Ok ())"

text \<open>The condition under which an applied snapshot is left as it is.\<close>

definition already_applied :: "priority_state \<Rightarrow> policy_snapshot \<Rightarrow> int \<Rightarrow> bool" where
  "already_applied old s now \<longleftrightarrow>
     pst_controller_epoch old = snap_controller_epoch s \<and> pst_config_revision old = snap_config_revision s \<and>
     pst_bundle_generation old = snap_bundle_generation s \<and> pst_checksum old = snap_checksum s \<and>
     now < pst_expires_at_ms old"

definition application_budget_of :: "active_application_class \<Rightarrow> application_budget" where
  "application_budget_of application =
     \<lparr>ab_lease = \<lparr>csl_mac = aac_mac application, csl_slot = aac_slot application, csl_active = True\<rparr>,
      ab_policy_id = aac_policy_id application, ab_minor = aac_minor application,
      ab_upload_bps = aac_upload_bps application, ab_download_bps = aac_download_bps application\<rparr>"

definition client_budgets :: "(string, total_rates) btree_map \<Rightarrow> client_slot_lease list \<Rightarrow> client_budget list" where
  "client_budgets totals leases = List.map_filter (\<lambda>lease. map_option (\<lambda>rates.
     \<lparr>cb_lease = lease, cb_upload_bps = tr_upload_bps rates, cb_download_bps = tr_download_bps rates\<rparr>)
     (map_of totals (csl_mac lease))) leases"

definition next_generation :: "priority_state option \<Rightarrow> u32 option" where
  "next_generation old =
     Option.bind (checked_add_w (case old of None \<Rightarrow> 0 | Some state \<Rightarrow> pst_generation state) 1)
       (\<lambda>generation. if generation \<noteq> 0 then Some generation else None)"

definition expiry_ms_of :: "priority_selection \<Rightarrow> policy_snapshot \<Rightarrow> int" where
  "expiry_ms_of selection s =
     (case ps_next_transition_ms selection of
        None \<Rightarrow> snap_valid_until_ms s
      | Some transition \<Rightarrow> min transition (snap_valid_until_ms s))"

definition expires_ns_of :: "u64 \<Rightarrow> int \<Rightarrow> int \<Rightarrow> u64 option" where
  "expires_ns_of monotonic_ns now expiry_ms =
     checked_add_w monotonic_ns (saturating_mul_w (of_int (max (saturating_sub_i64 expiry_ms now) 1)) 1000000)"

definition map_entry ::
  "priority_selection \<Rightarrow> active_application_class list \<Rightarrow> delivery_layout \<Rightarrow> u32 \<Rightarrow> u64 \<Rightarrow> client_slot_lease \<Rightarrow>
    client_map_entry res" where
  "map_entry selection apps layout generation expires_ns lease =
     (let rates = map_of (ps_totals selection) (csl_mac lease);
          download = (case rates of None \<Rightarrow> False | Some r \<Rightarrow> tr_download_bps r \<noteq> None);
          upload = (case rates of None \<Rightarrow> False | Some r \<Rightarrow> tr_upload_bps r \<noteq> None);
          application_download = (\<exists>a\<in>set apps. aac_mac a = csl_mac lease \<and> aac_download_bps a \<noteq> None)
      in and_then (if download \<or> application_download
           then and_then (ok_or ''priority_delivery_unknown: missing client port''
             (map_of (dl_client_delivery layout) (csl_mac lease))) (\<lambda>port. Ok (qp_ifindex port))
           else Ok 0) (\<lambda>delivery_ifindex.
         client_map_entry_new lease delivery_ifindex upload download (csl_mac lease \<in> ps_blocked_macs selection)
           generation expires_ns))"

definition next_state ::
  "policy_snapshot \<Rightarrow> client_slot_lease list \<Rightarrow> active_application_class list \<Rightarrow> u32 \<Rightarrow> int \<Rightarrow> priority_state" where
  "next_state s leases apps generation expiry_ms =
     \<lparr>pst_schema_version = 1, pst_gateway_id = snap_gateway_id s, pst_controller_epoch = snap_controller_epoch s,
      pst_config_revision = snap_config_revision s, pst_bundle_generation = snap_bundle_generation s,
      pst_checksum = snap_checksum s, pst_snapshot = PolicySnapshot s, pst_leases = leases,
      pst_application_classes = apps, pst_generation = generation, pst_expires_at_ms = expiry_ms\<rparr>"

text \<open>The capacities of the owned ports.\<close>

definition port_capacities :: "(string \<Rightarrow> capacity res) \<Rightarrow> queue_port list \<Rightarrow> (u32, u64) btree_map res" where
  "port_capacities capacity_of ports =
     and_then (try_map (\<lambda>port.
       and_then (map_err (\<lambda>reason. ''priority_capacity_unknown: '' @ qp_name port @ '': '' @ reason)
         (capacity_of (qp_name port))) (\<lambda>capacity. Ok (qp_ifindex port, cap_bps capacity))) ports) (\<lambda>capacities.
     Ok (rev capacities))"

record planned =
  pl_layout :: delivery_layout
  pl_plan :: priority_plan
  pl_entries :: "client_map_entry list"
  pl_state :: priority_state

definition plan_next ::
  "'z priority_runtime_scheme \<Rightarrow> (string \<Rightarrow> capacity res) \<Rightarrow> delivery_layout res \<Rightarrow> u64 \<Rightarrow> int \<Rightarrow>
    policy_snapshot \<Rightarrow> priority_state option \<Rightarrow> priority_selection \<Rightarrow> planned res" where
  "plan_next rt capacity_of inspected monotonic_ns now s old selection =
     and_then (allocate (ps_clients selection) (case old of None \<Rightarrow> [] | Some state \<Rightarrow> pst_leases state)) (\<lambda>leases.
     let active_leases = filter csl_active leases in
     and_then (allocate_application_classes selection active_leases) (\<lambda>classes.
     and_then inspected (\<lambda>layout.
     if dl_egress_ports layout \<noteq> dl_egress_ports (rt_layout rt) \<or> dl_ingress_ports layout \<noteq> dl_ingress_ports (rt_layout rt)
     then Err ''priority_delivery_unknown: LAN membership changed while QoS is active''
     else and_then (port_capacities capacity_of (rt_ports rt)) (\<lambda>capacities.
     and_then (build layout \<lparr>qp_name = rt_ifb rt, qp_ifindex = rt_ifb_ifindex rt\<rparr> structural_capacity_bps capacities
       (client_budgets (ps_totals selection) active_leases) (map application_budget_of classes)) (\<lambda>plan.
     and_then (ok_or ''priority_generation_exhausted'' (next_generation old)) (\<lambda>generation.
     and_then (ok_or ''priority_expiry_overflow''
       (expires_ns_of monotonic_ns now (expiry_ms_of selection s))) (\<lambda>expires_ns.
     and_then (try_map (map_entry selection classes layout generation expires_ns) active_leases) (\<lambda>map_entries.
     Ok \<lparr>pl_layout = layout, pl_plan = plan, pl_entries = map_entries,
         pl_state = next_state s leases classes generation (expiry_ms_of selection s)\<rparr>))))))))"

section \<open>Queries\<close>

definition should_handle :: "'z priority_runtime_scheme \<Rightarrow> policy_wire_frame \<Rightarrow> bool" where
  "should_handle rt snapshot \<longleftrightarrow>
     rt_active rt \<noteq> None \<or> (case snapshot of PolicySnapshot _ \<Rightarrow> True | _ \<Rightarrow> False)"

definition has_enabled_application_flow_policy :: "'z priority_runtime_scheme \<Rightarrow> bool" where
  "has_enabled_application_flow_policy rt =
     (case rt_active rt of None \<Rightarrow> False
      | Some state \<Rightarrow> snapshot_has_enabled_application_verdicts (pst_snapshot state))"

text \<open>The only port of a LAN that is not a bridge.\<close>

definition single_port :: "delivery_layout \<Rightarrow> queue_port option" where
  "single_port layout =
     (if \<not> dl_bridge layout \<and> length (dl_egress_ports layout) = 1 then Some (hd (dl_egress_ports layout)) else None)"

definition client_delivery_ifindex :: "'z priority_runtime_scheme \<Rightarrow> string \<Rightarrow> u32 option" where
  "client_delivery_ifindex rt client_mac =
     (case map_of (dl_client_delivery (rt_layout rt)) (to_ascii_lowercase client_mac) of
        Some port \<Rightarrow> Some (qp_ifindex port)
      | None \<Rightarrow> map_option qp_ifindex (single_port (rt_layout rt)))"

text \<open>With the indices as signed 32-bit integers.\<close>

definition client_delivery_map :: "'z priority_runtime_scheme \<Rightarrow> (string, int) btree_map \<times> int option" where
  "client_delivery_map rt =
     (map (\<lambda>(mac, port). (mac, sint (qp_ifindex port))) (dl_client_delivery (rt_layout rt)),
      map_option (\<lambda>port. sint (qp_ifindex port)) (single_port (rt_layout rt)))"

definition client_block_capability :: "'z priority_runtime_scheme \<Rightarrow> policy_capability" where
  "client_block_capability rt =
     (if \<not> rt_is_one_arm_router rt \<and> dl_ingress_ports (rt_layout rt) \<noteq> [] \<and>
         dl_ingress_ports (rt_layout rt) = dl_egress_ports (rt_layout rt)
      then CapSupported else CapDegraded)"

definition controls_flow_hook :: "'z priority_runtime_scheme \<Rightarrow> u8 \<Rightarrow> u32 \<Rightarrow> bool" where
  "controls_flow_hook rt hook ifindex =
     (if ifindex = 0 then False
      else if hook = 1 then ifindex \<in> qp_ifindex ` set (dl_ingress_ports (rt_layout rt))
      else if hook = 2 then ifindex \<in> qp_ifindex ` set (dl_egress_ports (rt_layout rt))
      else False)"

definition direction_rate :: "bool \<Rightarrow> active_application_class \<Rightarrow> u64 option" where
  "direction_rate upload application = (if upload then aac_upload_bps application else aac_download_bps application)"

definition on_shaping_hook :: "'z priority_runtime_scheme \<Rightarrow> string \<Rightarrow> bool \<Rightarrow> u32 \<Rightarrow> bool" where
  "on_shaping_hook rt client_mac upload ifindex =
     (if upload then ifindex \<in> qp_ifindex ` set (dl_ingress_ports (rt_layout rt))
      else (case map_of (dl_client_delivery (rt_layout rt)) (to_ascii_lowercase client_mac) of
              None \<Rightarrow> False | Some port \<Rightarrow> qp_ifindex port = ifindex))"

text \<open>The first of the applicable classes with the least rate and then the least policy.\<close>

definition application_classid ::
  "'z priority_runtime_scheme \<Rightarrow> string list \<Rightarrow> string \<Rightarrow> bool \<Rightarrow> u32 \<Rightarrow> u32 option" where
  "application_classid rt policy_ids client_mac upload ifindex =
     (case rt_active rt of
        None \<Rightarrow> None
      | Some active \<Rightarrow>
          if rt_emergency_disabled rt \<or> \<not> on_shaping_hook rt client_mac upload ifindex then None
          else (case sort_key (\<lambda>a. (direction_rate upload a, aac_policy_id a))
                  (filter (\<lambda>a. eq_ignore_ascii_case (aac_mac a) client_mac \<and> aac_policy_id a \<in> set policy_ids \<and>
                     direction_rate upload a \<noteq> None) (pst_application_classes active)) of
                  [] \<Rightarrow> None
                | a # _ \<Rightarrow> (case class_leaf (if upload then upload_major else download_major) (aac_minor a) of
                     Inl _ \<Rightarrow> None | Inr raw \<Rightarrow> Some raw)))"

definition verdict_fits ::
  "priority_state \<Rightarrow> string \<Rightarrow> flow_verdict \<Rightarrow> policy_snapshot_entry \<Rightarrow> bool" where
  "verdict_fits active client_mac verdict policy =
     (case verdict of
        VerdictShape \<Rightarrow> act_kind (action_of policy) = ActionLimit \<and>
          (\<exists>a\<in>set (pst_application_classes active). aac_policy_id a = entry_id policy \<and>
             eq_ignore_ascii_case (aac_mac a) client_mac)
      | VerdictBlock \<Rightarrow> act_kind (action_of policy) = ActionBlock
      | VerdictAllow \<Rightarrow> act_kind (action_of policy) = ActionAllow)"

definition application_policy_references_valid ::
  "'z priority_runtime_scheme \<Rightarrow> int option \<Rightarrow> string \<Rightarrow> u64 \<Rightarrow> string list \<Rightarrow> string \<Rightarrow> flow_verdict \<Rightarrow> int \<Rightarrow> int \<Rightarrow> bool" where
  "application_policy_references_valid rt now_ms controller_epoch config_revision policy_ids client_mac verdict
     issued_at_ms command_expires_ms =
     (case rt_active rt of
        None \<Rightarrow> False
      | Some active \<Rightarrow>
          (case pst_snapshot active of
             PolicySnapshot s \<Rightarrow>
               \<not> rt_emergency_disabled rt \<and> snap_gateway_id s = pst_gateway_id active \<and>
               snap_controller_epoch s = controller_epoch \<and> snap_config_revision s = config_revision \<and>
               issued_at_ms < command_expires_ms \<and> command_expires_ms \<le> pst_expires_at_ms active \<and>
               command_expires_ms \<le> snap_valid_until_ms s \<and> policy_ids \<noteq> [] \<and>
               list_all (\<lambda>policy_id. list_ex (\<lambda>policy.
                 entry_id policy = policy_id \<and> spec_enabled (entry_spec policy) \<and> is_application_policy policy \<and>
                 list_ex (\<lambda>mac. eq_ignore_ascii_case mac client_mac) (clients_of policy) \<and>
                 evaluate policy (snap_schedule_intervals s) now_ms (snap_valid_until_ms s) = Active \<and>
                 verdict_fits active client_mac verdict policy) (snap_policies s)) policy_ids
           | _ \<Rightarrow> False))"

definition endpoint_block_expiry ::
  "'z priority_runtime_scheme \<Rightarrow> string list \<Rightarrow> string \<Rightarrow> int \<Rightarrow> int \<Rightarrow> int option" where
  "endpoint_block_expiry rt policy_ids client_mac issued_at_ms now_ms =
     (case rt_active rt of
        None \<Rightarrow> None
      | Some active \<Rightarrow>
          if rt_emergency_disabled rt then None
          else Option.bind (expires_at_ms (pst_snapshot active) policy_ids client_mac issued_at_ms now_ms) (\<lambda>expiry.
            if now_ms < min expiry (pst_expires_at_ms active) then Some (min expiry (pst_expires_at_ms active)) else None))"

definition flow_revision_matches :: "'z priority_runtime_scheme \<Rightarrow> string \<Rightarrow> u64 \<Rightarrow> bool" where
  "flow_revision_matches rt controller_epoch revision =
     (case Option.bind (rt_active rt) (\<lambda>state. snapshot_identity (pst_snapshot state)) of
        None \<Rightarrow> False
      | Some (_, epoch, current_revision, _, _) \<Rightarrow>
          \<not> rt_emergency_disabled rt \<and> epoch = controller_epoch \<and> current_revision = revision)"

section \<open>Lemmas\<close>

subsection \<open>Application classes\<close>

lemma unat_range_start: "slot \<in> all_slots \<Longrightarrow> unat (application_range_start slot) = 0x1000 + 16 * unat slot"
proof -
  assume "slot \<in> all_slots"
  then have s: "unat slot < 256" by (simp add: all_slots_def)
  have "unat (ucast slot * 0x10 :: u32) = 16 * unat slot"
    using s by (subst unat_mult_lem [THEN iffD1]) (simp_all add: unat_u16_u32)
  then show ?thesis
    using s by (simp add: application_range_start_def class_consts)
      (subst unat_add_lem [THEN iffD1]; simp)
qed

lemma application_minor_Some:
  assumes "application_minor slot index = Some minor" and "slot \<in> all_slots"
  shows "unat minor = 0x1000 + 16 * unat slot + unat index"
proof -
  let ?f = "application_first + ucast slot * applications_per_client"
  from assms have f: "unat ?f = 0x1000 + 16 * unat slot"
    using unat_range_start by (simp add: application_range_start_def)
  from assms(1) have "minor = ?f + index" "unat ?f + unat index < 2 ^ 32"
    by (auto simp: application_minor_def checked_add_w_def bind_eq_Some_conv split: if_splits)
  then show ?thesis using f by (simp add: unat_add_lem [THEN iffD1])
qed

text \<open>What an allocated class has in common with its limit.\<close>

definition class_of_limit ::
  "(string \<Rightarrow> client_slot_lease option) \<Rightarrow> application_rates \<Rightarrow> active_application_class \<Rightarrow> bool" where
  "class_of_limit lease_of limit c \<longleftrightarrow> aac_mac c = ar_mac limit \<and> aac_policy_id c = ar_policy_id limit \<and>
     aac_upload_bps c = ar_upload_bps limit \<and> aac_download_bps c = ar_download_bps limit \<and>
     (\<exists>lease. lease_of (ar_mac limit) = Some lease \<and> aac_slot c = csl_slot lease) \<and>
     (\<exists>k<16. unat (aac_minor c) = 0x1000 + 16 * unat (aac_slot c) + k)"

definition minors_below :: "(string, u32) btree_map \<Rightarrow> active_application_class list \<Rightarrow> bool" where
  "minors_below indices cs \<longleftrightarrow> (\<forall>c\<in>set cs. \<exists>i. map_of indices (aac_mac c) = Some i \<and>
     unat (aac_minor c) < 0x1000 + 16 * unat (aac_slot c) + unat i)"

lemma allocate_application_Ok:
  assumes "allocate_application lease_of (indices, cs) a = Ok (indices', cs')"
    and "\<forall>mac lease. lease_of mac = Some lease \<longrightarrow> csl_slot lease \<in> all_slots"
  shows "\<exists>c lease i. cs' = cs @ [c] \<and> class_of_limit lease_of a c \<and> lease_of (ar_mac a) = Some lease \<and>
    unat (aac_minor c) = 0x1000 + 16 * unat (csl_slot lease) + unat i \<and> i < 16 \<and>
    i = (case map_of indices (ar_mac a) of None \<Rightarrow> 0 | Some i \<Rightarrow> i) \<and> indices' = (ar_mac a, i + 1) # indices"
proof -
  let ?i = "case map_of indices (ar_mac a) of None \<Rightarrow> 0 | Some i \<Rightarrow> i"
  from assms(1) obtain lease minor where l: "lease_of (ar_mac a) = Some lease" and i: "?i < 16"
    and m: "application_minor (csl_slot lease) ?i = Some minor"
    and eq: "indices' = (ar_mac a, ?i + 1) # indices"
      "cs' = cs @ [\<lparr>aac_policy_id = ar_policy_id a, aac_mac = ar_mac a, aac_slot = csl_slot lease, aac_minor = minor,
         aac_upload_bps = ar_upload_bps a, aac_download_bps = ar_download_bps a\<rparr>]"
    by (auto simp: allocate_application_def res_simps Let_def class_consts not_le split: if_splits)
  from i have "unat ?i < 16" by (simp add: word_less_nat_alt)
  with application_minor_Some [OF m assms(2) [rule_format, OF l]] l eq i show ?thesis
    by (auto simp: class_of_limit_def)
qed

lemma allocate_applications_fold:
  assumes "try_fold (allocate_application lease_of) ([], []) limits = Ok (indices, cs)"
    and slots: "\<forall>mac lease. lease_of mac = Some lease \<longrightarrow> csl_slot lease \<in> all_slots"
  shows "list_all2 (class_of_limit lease_of) limits cs \<and> distinct (map (\<lambda>c. (aac_mac c, aac_minor c)) cs)"
proof -
  have "case (indices, cs) of (indices, cs) \<Rightarrow> list_all2 (class_of_limit lease_of) limits cs \<and>
      minors_below indices cs \<and> distinct (map (\<lambda>c. (aac_mac c, aac_minor c)) cs)"
  proof (rule try_fold_prefix_invariant [OF assms(1)], simp add: minors_below_def, clarify)
    fix seen a is1 cs1 is2 cs2
    assume l2: "list_all2 (class_of_limit lease_of) seen cs1" and below: "minors_below is1 cs1"
      and d: "distinct (map (\<lambda>c. (aac_mac c, aac_minor c)) cs1)"
      and step: "allocate_application lease_of (is1, cs1) a = Ok (is2, cs2)"
    from allocate_application_Ok [OF step slots] obtain c lease i where
      c: "cs2 = cs1 @ [c]" "class_of_limit lease_of a c" "lease_of (ar_mac a) = Some lease"
        "unat (aac_minor c) = 0x1000 + 16 * unat (csl_slot lease) + unat i" "i < 16"
        "i = (case map_of is1 (ar_mac a) of None \<Rightarrow> 0 | Some i \<Rightarrow> i)" "is2 = (ar_mac a, i + 1) # is1"
      by blast
    have slot: "aac_slot c = csl_slot lease" "aac_mac c = ar_mac a"
      using c(2,3) by (auto simp: class_of_limit_def)
    have "unat (i + 1) = unat i + 1" using c(5) by (subst unat_add_lem [THEN iffD1]) (simp_all add: word_less_nat_alt)
    note facts = c(4,6,7) slot this
    have same: "aac_slot c' = aac_slot c" if "c' \<in> set cs1" "aac_mac c' = aac_mac c" for c'
      using that l2 c(2) by (fastforce simp: class_of_limit_def dest: list_all2_set2)
    have new: "(aac_mac c, aac_minor c) \<noteq> (aac_mac c', aac_minor c')" if "c' \<in> set cs1" for c'
      using that below facts same [OF that] by (force simp: minors_below_def)
    have "minors_below is2 cs2"
      using below facts same by (force simp: minors_below_def c(1))
    with l2 c(1,2) d new show "list_all2 (class_of_limit lease_of) (seen @ [a]) cs2 \<and> minors_below is2 cs2 \<and>
        distinct (map (\<lambda>c. (aac_mac c, aac_minor c)) cs2)"
      by (auto simp: list_all2_appendI)
  qed
  then show ?thesis by simp
qed

subsection \<open>Loading what was planned\<close>

lemma lease_by_mac_iff:
  assumes "distinct (map csl_mac leases)"
  shows "lease_by_mac leases mac = Some l \<longleftrightarrow> l \<in> set leases \<and> csl_active l \<and> csl_mac l = mac"
proof -
  have "distinct (map fst (rev (map (\<lambda>l. (csl_mac l, l)) (filter csl_active leases))))"
    using assms by (auto simp: rev_map distinct_map o_def intro: inj_on_subset)
  then show ?thesis by (auto simp: lease_by_mac_def map_of_eq_Some_iff)
qed

lemma lease_by_mac_active: "lease_by_mac (filter csl_active leases) = lease_by_mac leases"
  by (simp add: lease_by_mac_def)

definition application_consistent :: "(string \<Rightarrow> client_slot_lease option) \<Rightarrow> active_application_class \<Rightarrow> bool" where
  "application_consistent lease_of c \<longleftrightarrow> aac_policy_id c \<noteq> [] \<and>
     (\<exists>lease. lease_of (aac_mac c) = Some lease \<and> csl_slot lease = aac_slot c) \<and>
     application_range_start (aac_slot c) \<le> aac_minor c \<and>
     aac_minor c < application_range_start (aac_slot c) + applications_per_client \<and>
     (aac_upload_bps c \<noteq> None \<or> aac_download_bps c \<noteq> None)"

lemma check_application_Ok:
  "check_application lease_of (policies, minors) c = Ok st' \<longleftrightarrow> application_consistent lease_of c \<and>
     (aac_mac c, aac_policy_id c) \<notin> policies \<and> (aac_mac c, aac_minor c) \<notin> minors \<and>
     st' = (insert (aac_mac c, aac_policy_id c) policies, insert (aac_mac c, aac_minor c) minors)"
  by (auto simp: check_application_def application_consistent_def Let_def not_le not_less split: option.splits)

lemma check_applications_Ok:
  "(\<exists>st. try_fold (check_application lease_of) (policies, minors) cs = Ok st) \<longleftrightarrow>
     (\<forall>c\<in>set cs. application_consistent lease_of c) \<and>
     distinct (map (\<lambda>c. (aac_mac c, aac_policy_id c)) cs) \<and> distinct (map (\<lambda>c. (aac_mac c, aac_minor c)) cs) \<and>
     (\<forall>c\<in>set cs. (aac_mac c, aac_policy_id c) \<notin> policies \<and> (aac_mac c, aac_minor c) \<notin> minors)"
  by (induction cs arbitrary: policies minors) (auto simp: res_simps check_application_Ok image_iff)

text \<open>What \<open>check_state\<close> accepts.\<close>

definition state_wf :: "priority_state \<Rightarrow> bool" where
  "state_wf st \<longleftrightarrow>
     snapshot_identity (pst_snapshot st) = Some (pst_gateway_id st, pst_controller_epoch st, pst_config_revision st,
       pst_bundle_generation st, pst_checksum st) \<and> pst_schema_version st = 1 \<and> pst_generation st \<noteq> 0 \<and>
     0 \<le> pst_expires_at_ms st \<and> (\<forall>l\<in>set (pst_leases st). lease_validate l = Ok ()) \<and>
     (\<forall>c\<in>set (pst_application_classes st). application_consistent (lease_by_mac (pst_leases st)) c) \<and>
     distinct (map (\<lambda>c. (aac_mac c, aac_policy_id c)) (pst_application_classes st)) \<and>
     distinct (map (\<lambda>c. (aac_mac c, aac_minor c)) (pst_application_classes st))"

lemma check_state_iff: "check_state st = Ok () \<longleftrightarrow> state_wf st"
  using check_applications_Ok [of "lease_by_mac (pst_leases st)" "{}" "{}" "pst_application_classes st"]
  by (auto simp: check_state_def state_wf_def res_simps not_less)

lemma next_transition_Cons:
  "next_transition t0 (u # ts) = next_transition (Some (case t0 of None \<Rightarrow> u | Some t \<Rightarrow> min t u)) ts"
  by (simp add: next_transition_def)

lemma next_transition_bounds:
  "next_transition t0 ts = Some t \<Longrightarrow>
     (t0 = Some t \<or> t \<in> set ts) \<and> (\<forall>u\<in>set ts. t \<le> u) \<and> (\<forall>u. t0 = Some u \<longrightarrow> t \<le> u)"
proof (induction ts arbitrary: t0)
  case Nil
  then show ?case by (simp add: next_transition_def)
next
  case (Cons u ts)
  show ?case
  proof (cases t0)
    case None
    with Cons.IH [of "Some u"] Cons.prems show ?thesis by (auto simp: next_transition_Cons)
  next
    case (Some v)
    with Cons.IH [of "Some (min v u)"] Cons.prems have
      "min v u = t \<or> t \<in> set ts" "\<forall>u\<in>set ts. t \<le> u" "t \<le> min v u" by (auto simp: next_transition_Cons)
    with Some show ?thesis by (auto simp: min_def split: if_splits)
  qed
qed

text \<open>A planned transition lies in the future of a valid clock.\<close>

definition future_transition :: "int option \<Rightarrow> int option \<Rightarrow> bool" where
  "future_transition now_ms t \<longleftrightarrow> (\<forall>u. t = Some u \<longrightarrow> (\<exists>now. now_ms = Some now \<and> min_valid_clock_ms \<le> now \<and> now < u))"

lemma select_clients_transition:
  "try_fold (select_client p) (sel, dec) cs = Ok (sel', dec') \<Longrightarrow> ps_next_transition_ms sel' = ps_next_transition_ms sel"
  by (rule try_fold_invariant [where P = "\<lambda>(s, _). ps_next_transition_ms s = ps_next_transition_ms sel",
        of _ "(sel, dec)" _ "(sel', dec')", simplified])
     (auto simp: select_client_def note_client_def res_simps Let_def split: if_splits)

lemma note_transitions_cases:
  assumes "note_transitions s now_ms sel p = Ok sel'"
  shows "sel' = sel \<or> (\<exists>now ts. now_ms = Some now \<and> min_valid_clock_ms \<le> now \<and>
    ps_next_transition_ms sel' = next_transition (ps_next_transition_ms sel) (filter (\<lambda>t. now < t) ts))"
proof (cases "spec_schedule (entry_spec p) = None \<or> now_ms = None")
  case True
  with assms show ?thesis by (auto simp: note_transitions_def res_simps split: if_splits)
next
  case False
  then obtain now where now: "now_ms = Some now" by auto
  with assms False obtain ts where "min_valid_clock_ms \<le> now"
    "sel' = sel\<lparr>ps_next_transition_ms := next_transition (ps_next_transition_ms sel) (filter (\<lambda>t. now < t) ts)\<rparr>"
    by (auto simp: note_transitions_def res_simps simp del: filter_append split: if_splits)
  with now show ?thesis by auto
qed

lemma note_transitions_future:
  assumes "note_transitions s now_ms sel p = Ok sel'" and "future_transition now_ms (ps_next_transition_ms sel)"
  shows "future_transition now_ms (ps_next_transition_ms sel')"
  using note_transitions_cases [OF assms(1)]
proof
  assume "\<exists>now ts. now_ms = Some now \<and> min_valid_clock_ms \<le> now \<and>
    ps_next_transition_ms sel' = next_transition (ps_next_transition_ms sel) (filter (\<lambda>t. now < t) ts)"
  then obtain now ts where now: "now_ms = Some now" "min_valid_clock_ms \<le> now"
    "ps_next_transition_ms sel' = next_transition (ps_next_transition_ms sel) (filter (\<lambda>t. now < t) ts)" by blast
  with assms(2) show ?thesis
    unfolding future_transition_def by (auto dest: next_transition_bounds)
qed (simp add: assms(2))

lemma apply_policy_transition:
  assumes "apply_policy s now_ms p dec sel = Ok (sel', dec')"
  shows "ps_next_transition_ms sel' = ps_next_transition_ms sel"
proof (cases "evaluate p (snap_schedule_intervals s) now_ms (snap_valid_until_ms s)")
  case Active
  with assms show ?thesis
    by (auto simp: apply_policy_def res_simps split_def dest: select_clients_transition)
qed (use assms in \<open>auto simp: apply_policy_def\<close>)

lemma select_policy_future:
  assumes "select_policy s now_ms (sel, dec) p = Ok (sel', dec')" and "future_transition now_ms (ps_next_transition_ms sel)"
  shows "future_transition now_ms (ps_next_transition_ms sel')"
proof (cases "spec_enabled (entry_spec p)")
  case False
  with assms show ?thesis by (auto simp: select_policy_def)
next
  case True
  with assms(1) obtain sel1 where 1: "note_transitions s now_ms sel p = Ok sel1" "apply_policy s now_ms p dec sel1 = Ok (sel', dec')"
    by (auto simp: select_policy_def res_simps split: if_splits)
  show ?thesis
    using note_transitions_future [OF 1(1) assms(2)] apply_policy_transition [OF 1(2)] by simp
qed

lemma from_snapshot_future:
  assumes "from_snapshot env (PolicySnapshot s) gateway now_ms = Ok sel"
  shows "future_transition now_ms (ps_next_transition_ms sel)"
proof -
  from assms obtain st where fold: "try_fold (select_policy s now_ms) (empty_selection, {}) (sort_key selection_key (snap_policies s)) = Ok st"
    and sel: "ps_next_transition_ms sel = ps_next_transition_ms (fst st)"
    by (auto simp: from_snapshot_def res_simps Let_def split_def split: if_splits)
  have "future_transition now_ms (ps_next_transition_ms (fst st))"
    by (rule try_fold_invariant [OF fold, where P = "\<lambda>st. future_transition now_ms (ps_next_transition_ms (fst st))"])
       (auto simp: empty_selection_def future_transition_def [of _ None] dest: select_policy_future)
  then show ?thesis by (simp add: sel)
qed

definition budget_key :: "application_budget \<Rightarrow> string \<times> string" where
  "budget_key a = (csl_mac (ab_lease a), ab_policy_id a)"

lemma place_application_key:
  "place_application layout cap bs (up, ds, keys) a = Ok (up', ds', keys') \<Longrightarrow>
     ab_policy_id a \<noteq> [] \<and> (ab_upload_bps a \<noteq> None \<or> ab_download_bps a \<noteq> None) \<and> budget_key a \<notin> keys \<and>
     keys' = insert (budget_key a) keys"
  by (auto simp: place_application_def budget_key_def Let_def res_simps split: if_splits)

lemma build_applications:
  assumes "build layout ifb cap caps budgets apps = Ok plan"
  shows "(\<forall>a\<in>set apps. ab_policy_id a \<noteq> [] \<and> (ab_upload_bps a \<noteq> None \<or> ab_download_bps a \<noteq> None)) \<and>
    distinct (map budget_key apps)"
proof -
  from assms obtain up ds up' ds' keys where
    "try_fold (place_application layout cap budgets) (up, ds, {}) apps = Ok (up', ds', keys)"
    by (auto simp: build_def Let_def res_simps split: if_splits)
  then have "case (up', ds', keys) of (up, ds, keys) \<Rightarrow> keys = budget_key ` set apps \<and>
      (\<forall>a\<in>set apps. ab_policy_id a \<noteq> [] \<and> (ab_upload_bps a \<noteq> None \<or> ab_download_bps a \<noteq> None)) \<and> distinct (map budget_key apps)"
    by (rule try_fold_prefix_invariant [where P = "\<lambda>apps (up, ds, keys). keys = budget_key ` set apps \<and>
      (\<forall>a\<in>set apps. ab_policy_id a \<noteq> [] \<and> (ab_upload_bps a \<noteq> None \<or> ab_download_bps a \<noteq> None)) \<and> distinct (map budget_key apps)"])
      (auto dest!: place_application_key)
  then show ?thesis by simp
qed

text \<open>The parts of a successful plan.\<close>

lemma plan_next_Ok:
  assumes "plan_next rt capacity_of inspected clock now s old sel = Ok p"
  obtains leases cs caps plan gen ns where
    "allocate (ps_clients sel) (case old of None \<Rightarrow> [] | Some state \<Rightarrow> pst_leases state) = Ok leases"
    "allocate_application_classes sel (filter csl_active leases) = Ok cs" "inspected = Ok (pl_layout p)"
    "dl_egress_ports (pl_layout p) = dl_egress_ports (rt_layout rt)" "dl_ingress_ports (pl_layout p) = dl_ingress_ports (rt_layout rt)"
    "port_capacities capacity_of (rt_ports rt) = Ok caps"
    "build (pl_layout p) \<lparr>qp_name = rt_ifb rt, qp_ifindex = rt_ifb_ifindex rt\<rparr> structural_capacity_bps caps
       (client_budgets (ps_totals sel) (filter csl_active leases)) (map application_budget_of cs) = Ok (pl_plan p)"
    "next_generation old = Some gen" "expires_ns_of clock now (expiry_ms_of sel s) = Some ns"
    "try_map (map_entry sel cs (pl_layout p) gen ns) (filter csl_active leases) = Ok (pl_entries p)"
    "pl_state p = next_state s leases cs gen (expiry_ms_of sel s)"
  using assms that by (auto simp: plan_next_def res_simps Let_def split: if_splits)

lemma expiry_ms_nonneg:
  assumes "from_snapshot env (PolicySnapshot s) gateway now_ms = Ok sel"
  shows "0 \<le> expiry_ms_of sel s"
proof -
  from from_snapshot_tracks [OF assms] have "snapshot_wf env s" by (auto simp: validate_frame_def validate_snapshot_wf)
  then have "0 \<le> snap_valid_until_ms s" by (auto simp: snapshot_wf_def snapshot_content_wf_def)
  with from_snapshot_future [OF assms] show ?thesis
    by (auto simp: expiry_ms_of_def future_transition_def min_valid_clock_ms_def split: option.splits)
qed

lemma planned_state_wf:
  assumes sel: "from_snapshot env (PolicySnapshot s) gateway now_ms = Ok sel"
    and plan: "plan_next rt capacity_of inspected clock now s old sel = Ok p"
  shows "state_wf (pl_state p)"
  using plan
proof (rule plan_next_Ok)
  fix leases cs caps gen ns
  let ?prev = "case old of None \<Rightarrow> [] | Some state \<Rightarrow> pst_leases state"
  assume al: "allocate (ps_clients sel) ?prev = Ok leases"
    and cs: "allocate_application_classes sel (filter csl_active leases) = Ok cs"
    and b: "build (pl_layout p) \<lparr>qp_name = rt_ifb rt, qp_ifindex = rt_ifb_ifindex rt\<rparr> structural_capacity_bps caps
       (client_budgets (ps_totals sel) (filter csl_active leases)) (map application_budget_of cs) = Ok (pl_plan p)"
    and gen: "next_generation old = Some gen" and st: "pl_state p = next_state s leases cs gen (expiry_ms_of sel s)"
  from allocate_leases [OF al selected_clients(1) [OF sel]] have d: "distinct (map csl_mac leases)"
    and valid: "\<forall>l\<in>set leases. lease_validate l = Ok ()" by auto
  have slots: "\<forall>mac l. lease_by_mac leases mac = Some l \<longrightarrow> csl_slot l \<in> all_slots"
    using valid by (auto simp: lease_by_mac_iff [OF d] lease_validate_iff)
  from cs obtain is1 where "try_fold (allocate_application (lease_by_mac leases)) ([], []) (ps_application_limits sel) = Ok (is1, cs)"
    by (auto simp: allocate_application_classes_def lease_by_mac_active res_simps)
  from allocate_applications_fold [OF this slots] have
    l2: "list_all2 (class_of_limit (lease_by_mac leases)) (ps_application_limits sel) cs"
    and dm: "distinct (map (\<lambda>c. (aac_mac c, aac_minor c)) cs)" by auto
  from build_applications [OF b] have ap: "\<forall>c\<in>set cs. aac_policy_id c \<noteq> [] \<and> (aac_upload_bps c \<noteq> None \<or> aac_download_bps c \<noteq> None)"
    "distinct (map (\<lambda>c. (aac_mac c, aac_policy_id c)) cs)"
    by (auto simp: application_budget_of_def budget_key_def o_def)
  have "application_consistent (lease_by_mac leases) c" if "c \<in> set cs" for c
  proof -
    from list_all2_set2 [OF l2 that] obtain lim lease k where c: "lease_by_mac leases (aac_mac c) = Some lease"
      "aac_slot c = csl_slot lease" "k < 16" "unat (aac_minor c) = 0x1000 + 16 * unat (aac_slot c) + k"
      by (auto simp: class_of_limit_def)
    with slots have s: "aac_slot c \<in> all_slots" by simp
    then have "unat (application_range_start (aac_slot c) + applications_per_client) = 0x1000 + 16 * unat (aac_slot c) + 16"
      using unat_range_start [OF s] by (subst unat_add_lem [THEN iffD1]) (auto simp: class_consts all_slots_def)
    with c unat_range_start [OF s] ap(1) that show ?thesis
      by (auto simp: application_consistent_def word_le_nat_alt word_less_nat_alt)
  qed
  moreover have "gen \<noteq> 0" using gen by (auto simp: next_generation_def bind_eq_Some_conv split: if_splits)
  ultimately show ?thesis
    using valid ap dm expiry_ms_nonneg [OF sel]
    by (simp add: state_wf_def st next_state_def snapshot_identity_def)
qed

subsection \<open>Application classes in the kernel\<close>

lemma application_leaf_valid:
  assumes leaf: "class_leaf major minor = Ok raw"
    and minor: "unat minor = 0x1000 + 16 * unat slot + k" "k < 16" and slot: "slot \<in> all_slots"
  shows "qos_priority_application_classid_valid raw major (ucast slot)"
proof -
  have s: "unat slot < 256" using slot by (simp add: all_slots_def)
  with minor have m: "unat minor < 65536" "application_first \<le> minor" "minor \<le> application_last"
    by (auto simp: class_consts word_le_nat_alt)
  from class_leaf_eq [OF leaf] have raw: "raw = push_bit 16 major OR minor" .
  from leaf have "major = 0x51 \<or> major = 0x52"
    by (auto simp: class_leaf_def Let_def class_consts split: if_splits)
  moreover have "drop_bit 16 minor = 0" using m(1) by (simp only: word_unat_eq_iff unat_drop_16) simp
  ultimately have "drop_bit 16 raw = major" by (auto simp: raw drop_bit_or)
  moreover have "(minor - application_first) div applications_per_client = ucast slot"
    using m minor by (simp add: word_unat_eq_iff unat_div unat_sub class_consts unat_u16_u32)
  ultimately show ?thesis
    using m by (simp add: qos_priority_application_classid_valid_def raw cid_low Let_def not_less)
qed

section \<open>Claims\<close>

text \<open>C27. A planned state can be loaded again: the state that a plan leads to passes every check that is
  made of a saved state, so its identity is that of its snapshot, its leases are valid and its
  application classes are distinct and in the range of their client's slot.\<close>

theorem planned_state_loads:
  assumes "from_snapshot env (PolicySnapshot s) gateway now_ms = Ok selection"
    and "plan_next rt capacity_of inspected monotonic_ns now s old selection = Ok planned"
  shows "check_state (pl_state planned) = Ok ()"
  using planned_state_wf [OF assms] by (simp add: check_state_iff)

text \<open>C28. The class of an application limit is one the kernel accepts for the client: when the runtime
  with a loadable state gives a flow of a client a class, that class is a leaf of the right hierarchy
  which the classifier accepts for the slot of an active lease of this client.\<close>

theorem application_class_accepted:
  assumes "rt_active rt = Some active" and "check_state active = Ok ()"
    and "application_classid rt policy_ids client_mac upload ifindex = Some raw"
  shows "\<exists>lease\<in>set (pst_leases active). csl_active lease \<and> eq_ignore_ascii_case (csl_mac lease) client_mac \<and>
    qos_priority_application_classid_valid raw (if upload then upload_major else download_major) (ucast (csl_slot lease)) \<and>
    on_shaping_hook rt client_mac upload ifindex \<and> \<not> rt_emergency_disabled rt"
proof -
  from assms(1,3) obtain a rest where
    sorted: "sort_key (\<lambda>a. (direction_rate upload a, aac_policy_id a))
      (filter (\<lambda>a. eq_ignore_ascii_case (aac_mac a) client_mac \<and> aac_policy_id a \<in> set policy_ids \<and>
         direction_rate upload a \<noteq> None) (pst_application_classes active)) = a # rest"
    and leaf: "class_leaf (if upload then upload_major else download_major) (aac_minor a) = Ok raw"
    and hook: "on_shaping_hook rt client_mac upload ifindex" "\<not> rt_emergency_disabled rt"
    by (auto simp: application_classid_def split: if_splits list.splits sum.splits)
  from sorted have "a \<in> set (sort_key (\<lambda>a. (direction_rate upload a, aac_policy_id a))
      (filter (\<lambda>a. eq_ignore_ascii_case (aac_mac a) client_mac \<and> aac_policy_id a \<in> set policy_ids \<and>
         direction_rate upload a \<noteq> None) (pst_application_classes active)))" by simp
  then have a: "a \<in> set (pst_application_classes active)" "eq_ignore_ascii_case (aac_mac a) client_mac" by auto
  from assms(2) have wf: "state_wf active" by (simp add: check_state_iff)
  with a obtain lease where lease: "lease_by_mac (pst_leases active) (aac_mac a) = Some lease" "csl_slot lease = aac_slot a"
    and range: "application_range_start (aac_slot a) \<le> aac_minor a"
      "aac_minor a < application_range_start (aac_slot a) + applications_per_client"
    by (auto simp: state_wf_def application_consistent_def)
  from map_of_SomeD [OF lease(1) [unfolded lease_by_mac_def]] have l: "lease \<in> set (pst_leases active)" "csl_active lease"
    "csl_mac lease = aac_mac a" by auto
  with wf lease(2) have slot: "aac_slot a \<in> all_slots" by (auto simp: state_wf_def lease_validate_iff)
  then have top: "unat (application_range_start (aac_slot a) + applications_per_client) = 0x1000 + 16 * unat (aac_slot a) + 16"
    using unat_range_start [OF slot] by (subst unat_add_lem [THEN iffD1]) (auto simp: class_consts all_slots_def)
  have "\<exists>k<16. unat (aac_minor a) = 0x1000 + 16 * unat (aac_slot a) + k"
    using range top unat_range_start [OF slot]
    by (intro exI [of _ "unat (aac_minor a) - (0x1000 + 16 * unat (aac_slot a))"]) (auto simp: word_le_nat_alt word_less_nat_alt)
  with application_leaf_valid [OF leaf _ _ slot] l lease(2) a(2) hook show ?thesis by (intro bexI [of _ lease]) auto
qed

text \<open>A runtime with one port, on which a snapshot blocks a client.\<close>

definition ex_runtime :: priority_runtime where
  "ex_runtime = \<lparr>rt_interface = ''lan'', rt_capacity_bps = [(''lan'', 1000000000)], rt_ifb = ''ifb'', rt_layout = ex_layout,
     rt_ports = [ex_port], rt_ifb_ifindex = 3, rt_owned_roots = {}, rt_active = None, rt_active_plan = None,
     rt_is_one_arm_router = False, rt_force_reapply = False, rt_emergency_disabled = False, rt_shutdown_done = False\<rparr>"

definition ex_block_snapshot :: policy_snapshot where
  "ex_block_snapshot = ex_snapshot\<lparr>snap_policies := [ex_client_block]\<rparr>"

definition ex_block_selection :: priority_selection where
  "ex_block_selection = \<lparr>ps_totals = [], ps_application_limits = [], ps_clients = {''02:00:00:00:00:01''},
     ps_blocked_macs = {''02:00:00:00:00:01''}, ps_results = [policy_outcome ex_client_block ResultApplied None None],
     ps_next_transition_ms = None\<rparr>"

lemma ex_block_selected:
  "from_snapshot ex_env (PolicySnapshot ex_block_snapshot) ''gw'' (Some 1600000000000) = Ok ex_block_selection"
  by code_simp

definition ex_planned :: "planned res" where
  "ex_planned = plan_next ex_runtime (\<lambda>_. Ok \<lparr>cap_bps = 1000000000, cap_source = ''link'', cap_link_interfaces = [''lan'']\<rparr>)
     (Ok ex_layout) 1000 1600000000000 ex_block_snapshot None ex_block_selection"

lemma ex_planned_Ok: "is_ok ex_planned"
  by code_simp

theorem planned_state_loads_witness: "\<exists>p. ex_planned = Ok p \<and> check_state (pl_state p) = Ok ()"
  using ex_planned_Ok planned_state_loads [OF ex_block_selected] unfolding ex_planned_def
  by (auto simp: is_ok_def split: sum.splits)

text \<open>A loadable state with one application class.\<close>

definition ex_state :: priority_state where
  "ex_state = next_state ex_block_snapshot [ex_client_lease]
     [\<lparr>aac_policy_id = ''p3'', aac_mac = csl_mac ex_client_lease, aac_slot = csl_slot ex_client_lease,
       aac_minor = 0x1050, aac_upload_bps = Some 500000, aac_download_bps = None\<rparr>] 1 1700000000000"

lemma ex_state_loads: "check_state ex_state = Ok ()"
  by code_simp

lemma ex_state_class:
  "application_classid (ex_runtime\<lparr>rt_active := Some ex_state\<rparr>) [''p3''] (csl_mac ex_client_lease) True 2 = Some 0x521050"
  by code_simp

theorem application_class_accepted_witness:
  "\<exists>lease\<in>set (pst_leases ex_state). csl_active lease \<and>
     qos_priority_application_classid_valid 0x521050 upload_major (ucast (csl_slot lease))"
  using application_class_accepted [OF _ ex_state_loads ex_state_class] by auto

end
