(* ===== verification/Tc_Output.thy ===== *)
theory Tc_Output
  imports Class_Id
begin

text \<open>
  What the Agent reads from the traffic-control tool: JSON values and the classic text tables
  (\<open>linux/qos_priority_runtime.rs\<close>), and the lines and fields of the Rust string library they are
  read with. A JSON number is its value as an unsigned 64-bit integer when it is one, which is all the
  sources ask of it; the parser of JSON text is an argument.
\<close>

section \<open>Lines and fields\<close>

definition strip_cr :: "string \<Rightarrow> string" where
  "strip_cr line = (if line \<noteq> [] \<and> last line = CHR 0x0D then butlast line else line)"

text \<open>\<open>str::lines\<close>: a final line is kept when it is not empty, and only a line feed ends a line.\<close>

definition str_lines :: "string \<Rightarrow> string list" where
  "str_lines text =
     (let pieces = split_on (CHR 0x0A) text
      in map strip_cr (butlast pieces) @ (if last pieces = [] then [] else [last pieces]))"

fun take_field :: "string \<Rightarrow> string \<times> string" where
  "take_field [] = ([], [])"
| "take_field (c # cs) =
     (if ws_head is_ws2 is_ws3 (c # cs) \<noteq> 0 then ([], c # cs)
      else (let (field, rest) = take_field cs in (c # field, rest)))"

lemma length_take_field: "length (snd (take_field s)) \<le> length s"
  by (induction s) (auto simp: split_def Let_def)

lemma length_trim_start: "length (trim_start s) \<le> length s"
  using trim_start_suffix [of s] by (metis length_append le_add2)

lemma ws_head_trim_start: "ws_head is_ws2 is_ws3 (trim_start s) = 0"
  by (simp add: trim_start_def)

text \<open>\<open>str::split_whitespace\<close>.\<close>

function split_whitespace :: "string \<Rightarrow> string list" where
  "split_whitespace s =
     (if trim_start s = [] then []
      else fst (take_field (trim_start s)) # split_whitespace (snd (take_field (trim_start s))))"
  by pat_completeness auto
termination
proof (relation "measure length")
  fix s :: string
  assume "trim_start s \<noteq> []"
  then obtain c cs where s: "trim_start s = c # cs" by (cases "trim_start s") auto
  with ws_head_trim_start [of s] have "length (snd (take_field (trim_start s))) \<le> length cs"
    using length_take_field [of cs] by (simp add: split_def Let_def)
  moreover have "length cs < length s" using length_trim_start [of s] by (simp add: s)
  ultimately show "(snd (take_field (trim_start s)), s) \<in> measure length" by simp
qed simp

declare split_whitespace.simps [simp del]

definition nth_opt :: "nat \<Rightarrow> 'a list \<Rightarrow> 'a option" where
  "nth_opt i xs = (if i < length xs then Some (xs ! i) else None)"

definition range_opt :: "nat \<Rightarrow> nat \<Rightarrow> 'a list \<Rightarrow> 'a list option" where
  "range_opt i j xs = (if i \<le> j \<and> j \<le> length xs then Some (take (j - i) (drop i xs)) else None)"

definition trim_end_matches :: "char \<Rightarrow> string \<Rightarrow> string" where
  "trim_end_matches c s = rev (dropWhile (\<lambda>d. d = c) (rev s))"

section \<open>JSON values\<close>

datatype json =
    JNull
  | JBool bool
  | JNumber "u64 option"
  | JString string
  | JArray "json list"
  | JObject "(string \<times> json) list"

fun json_get :: "string \<Rightarrow> json \<Rightarrow> json option" where
  "json_get key (JObject members) = map_of members key"
| "json_get key _ = None"

fun as_str :: "json \<Rightarrow> string option" where
  "as_str (JString s) = Some s"
| "as_str _ = None"

fun as_bool :: "json \<Rightarrow> bool option" where
  "as_bool (JBool b) = Some b"
| "as_bool _ = None"

fun as_u64 :: "json \<Rightarrow> u64 option" where
  "as_u64 (JNumber n) = n"
| "as_u64 _ = None"

fun as_array :: "json \<Rightarrow> json list option" where
  "as_array (JArray xs) = Some xs"
| "as_array _ = None"

abbreviation get_str :: "string \<Rightarrow> json \<Rightarrow> string option" where
  "get_str key v \<equiv> Option.bind (json_get key v) as_str"

abbreviation get_bool :: "string \<Rightarrow> json \<Rightarrow> bool option" where
  "get_bool key v \<equiv> Option.bind (json_get key v) as_bool"

definition u32_try_from :: "u64 \<Rightarrow> u32 option" where
  "u32_try_from raw = (if unat raw < 2 ^ 32 then Some (ucast raw) else None)"

section \<open>Reading the dumps\<close>

definition parse_json :: "(string \<Rightarrow> json option) \<Rightarrow> string \<Rightarrow> string \<Rightarrow> json res" where
  "parse_json from_str text what = ok_or (what @ '' returned invalid JSON'') (from_str text)"

definition class_line :: "string list \<Rightarrow> json option" where
  "class_line words =
     (if range_opt 0 2 words \<noteq> Some [''class'', ''htb''] then None
      else Option.bind (nth_opt 2 words) (\<lambda>handle.
        Some (JObject ([(''class'', JString ''htb''), (''handle'', JString handle)] @
          (case nth_opt 3 words of
             None \<Rightarrow> []
           | Some word \<Rightarrow>
               if word = ''root'' then [(''root'', JBool True)]
               else if word = ''parent''
               then (case nth_opt 4 words of None \<Rightarrow> [] | Some parent \<Rightarrow> [(''parent'', JString parent)])
               else [])))))"

definition parse_class_dump :: "(string \<Rightarrow> json option) \<Rightarrow> string \<Rightarrow> string \<Rightarrow> json res" where
  "parse_class_dump from_str text what =
     (let trimmed = trim text in
      if trimmed = [] then Ok (JArray [])
      else if starts_with ''['' trimmed \<or> starts_with ''{'' trimmed then parse_json from_str trimmed what
      else (let rows = map split_whitespace (str_lines trimmed) in
        if \<not> (\<exists>words\<in>set rows. nth_opt 0 words = Some ''class'') then parse_json from_str trimmed what
        else Ok (JArray (List.map_filter class_line rows))))"

definition class_edge :: "string \<Rightarrow> string \<Rightarrow> string option \<Rightarrow> bool" where
  "class_edge dump classid parent \<longleftrightarrow>
     (\<exists>line\<in>set (str_lines dump). let words = split_whitespace line in
        range_opt 0 3 words = Some [''class'', ''htb'', classid] \<and>
        (case parent of
           Some parent \<Rightarrow> range_opt 3 5 words = Some [''parent'', parent]
         | None \<Rightarrow> nth_opt 3 words = Some ''root''))"

definition classid_text :: "u32 \<Rightarrow> string" where
  "classid_text raw = format_hex (unat (drop_bit 16 raw)) @ '':'' @ format_hex (unat (raw AND 0xffff))"

definition has_clsact :: "json \<Rightarrow> bool" where
  "has_clsact qdiscs \<longleftrightarrow>
     (case as_array qdiscs of
        None \<Rightarrow> False
      | Some entries \<Rightarrow> \<exists>entry\<in>set entries. get_str ''kind'' entry = Some ''clsact'')"

definition class_entry_of :: "json \<Rightarrow> class_entry" where
  "class_entry_of entry =
     \<lparr>ce_handle = get_str ''handle'' entry, ce_class = get_str ''class'' entry, ce_parent = get_str ''parent'' entry\<rparr>"

text \<open>The amount in a textual backlog, such as \<open>0b\<close>.\<close>

definition zero_amount :: "string \<Rightarrow> bool" where
  "zero_amount field \<longleftrightarrow> from_str_radix (2 ^ 64) 10 (trim_end_matches (CHR ''b'') field) = Some 0"

definition backlog_empty :: "json \<Rightarrow> bool" where
  "backlog_empty qdisc =
     (case json_get ''backlog'' qdisc of
        Some (JNumber n) \<Rightarrow> n = Some 0
      | Some (JString value) \<Rightarrow>
          (case split_whitespace value of [] \<Rightarrow> False | field # _ \<Rightarrow> zero_amount field)
      | Some (JObject members) \<Rightarrow>
          (\<forall>(_, value)\<in>set members. as_u64 value = Some 0 \<or>
             (case as_str value of None \<Rightarrow> False | Some field \<Rightarrow> zero_amount field))
      | _ \<Rightarrow> False)"

text \<open>A handle \<open>major:minor\<close>, with missing parts standing for zero.\<close>

definition handle_part :: "string \<Rightarrow> u32 option" where
  "handle_part part = (if part = [] then Some 0 else map_option of_nat (from_str_radix (2 ^ 32) 16 part))"

definition parse_tc_handle :: "string \<Rightarrow> (u32 \<times> u32) option" where
  "parse_tc_handle text =
     Option.bind (split_once (CHR '':'') (trim text)) (\<lambda>(major, minor).
     if CHR '':'' \<in> set major \<or> CHR '':'' \<in> set minor then None
     else Option.bind (handle_part major) (\<lambda>major.
          Option.bind (handle_part minor) (\<lambda>minor. Some (major, minor))))"

fun value_handle :: "json \<Rightarrow> (u32 \<times> u32) option" where
  "value_handle (JString text) = parse_tc_handle text"
| "value_handle (JNumber n) =
     map_option (\<lambda>raw. (drop_bit 16 raw, raw AND 0xffff)) (Option.bind n u32_try_from)"
| "value_handle _ = None"

abbreviation get_handle :: "string \<Rightarrow> json \<Rightarrow> (u32 \<times> u32) option" where
  "get_handle key v \<equiv> Option.bind (json_get key v) value_handle"

definition tc_handle :: "u32 \<Rightarrow> u32 \<Rightarrow> string" where
  "tc_handle major minor = format_hex (unat major) @ '':'' @ format_hex (unat minor)"

section \<open>Lemmas\<close>

lemma handle_part_format_hex: "handle_part (format_hex (unat w)) = Some w"
  using unsigned_less [of w, where ?'a = nat]
  by (simp add: handle_part_def format_hex_def from_str_radix_format_hex [unfolded format_hex_def])

lemma hex_digit_visible: "d < 16 \<Longrightarrow> \<not> is_ws1 (byte_val (hex_digit d)) \<and> byte_val (hex_digit d) < 128"
  by (auto simp: hex_digit_def byte_val_def is_ws1_def)

lemma format_hex_visible: "c \<in> set (format_hex n) \<Longrightarrow> \<not> is_ws1 (byte_val c) \<and> byte_val c < 128"
  using to_radix_set [of 16 n] hex_digit_visible by (auto simp: format_hex_def)

lemma trim_handle_text: "trim (format_hex a @ CHR '':'' # format_hex b) = format_hex a @ CHR '':'' # format_hex b"
proof -
  obtain c r where a: "format_hex a = c # r" by (cases "format_hex a") (auto simp: format_hex_def)
  obtain r' z where b: "format_hex b = r' @ [z]" by (cases "format_hex b" rule: rev_cases) (auto simp: format_hex_def)
  show ?thesis
    using format_hex_visible [of c a] format_hex_visible [of z b] a b
    by (intro trim_nonspace [where a = c and z = z and r = "r @ CHR '':'' # r'"]) auto
qed

lemma parse_tc_handle_text: "parse_tc_handle (tc_handle major minor) = Some (major, minor)"
  by (simp add: parse_tc_handle_def tc_handle_def trim_handle_text split_once_append set_format_hex handle_part_format_hex)

lemma classid_text_handle: "classid_text raw = tc_handle (drop_bit 16 raw) (raw AND 0xffff)"
  by (simp add: classid_text_def tc_handle_def)

end
