(* ===== verification/Priority_Ownership.thy ===== *)
theory Priority_Ownership
  imports Tc_Output Priority_Plan
begin

text \<open>
  Which queues and filters a starting Agent may take for its own after a crash
  (\<open>linux/qos_priority_runtime.rs\<close>): the classification of a device's root qdisc, the exact class
  skeleton it must have, the classification of BPF filters by handle and program, and the plan that
  names what recovery removes. The development shows that the classification is exact and that every
  tree the Agent installs, completely or in part, is recognised.
\<close>

section \<open>Queue trees\<close>

definition canonical_class_parent :: "u32 \<Rightarrow> (u32 \<times> u32) option \<Rightarrow> u32 \<Rightarrow> bool" where
  "canonical_class_parent minor parent major =
     (if minor = 0x0001 then parent = None
      else if minor = 0xfffe then parent = Some (major, 0x0001)
      else if 0x0100 \<le> minor \<and> minor \<le> 0x01ff then parent = Some (major, 0x0001)
      else if (0x0200 \<le> minor \<and> minor \<le> 0x02ff) \<or> (0x1000 \<le> minor \<and> minor \<le> 0x1fff)
      then (case parent of
              None \<Rightarrow> False
            | Some (pmajor, pminor) \<Rightarrow>
                pmajor = major \<and> 0x0100 \<le> pminor \<and> pminor \<le> 0x01ff)
      else False)"

text \<open>One entry of the class dump; the state is the set of classes seen.\<close>

definition check_htb_class :: "u32 \<Rightarrow> (u32 \<times> u32) set \<Rightarrow> json \<Rightarrow> (u32 \<times> u32) set res" where
  "check_htb_class major seen entry =
     (if get_str ''class'' entry \<noteq> Some ''htb'' then Ok seen
      else and_then (ok_or ''priority_qdisc_ownership_unknown: class handle is missing or invalid''
             (get_handle ''handle'' entry)) (\<lambda>classid.
        if fst classid \<noteq> major \<or> classid \<in> seen
        then Err (''priority_qdisc_ownership_unknown: unexpected or duplicate class '' @ tc_handle (fst classid) (snd classid))
        else (let parent = get_handle ''parent'' entry; root = (get_bool ''root'' entry = Some True) in
          if snd classid = 0x0001
          then if \<not> root \<or> parent \<noteq> None
               then Err ''priority_qdisc_ownership_unknown: root class is not canonical''
               else Ok (insert classid seen)
          else if root \<or> \<not> canonical_class_parent (snd classid) parent major
          then Err (''priority_qdisc_ownership_unknown: class '' @ tc_handle (fst classid) (snd classid) @
                    '' has an unexpected parent'')
          else Ok (insert classid seen))))"

text \<open>One entry of the qdisc dump; the state is the set of classes with a leaf qdisc.\<close>

definition check_leaf_qdisc ::
  "u32 \<Rightarrow> (u32 \<times> u32) set \<Rightarrow> (u32 \<times> u32) set \<Rightarrow> json \<Rightarrow> (u32 \<times> u32) set res" where
  "check_leaf_qdisc major seen leaf_parents entry =
     (let kind = get_str ''kind'' entry; handle = get_handle ''handle'' entry; parent = get_handle ''parent'' entry;
          root = (get_bool ''root'' entry = Some True) in
      if kind = Some ''clsact'' then Ok leaf_parents
      else if root
      then if kind \<noteq> Some ''htb'' \<or> handle \<noteq> Some (major, 0)
           then Err ''priority_qdisc_ownership_unknown: root qdisc changed during verification''
           else Ok leaf_parents
      else (case parent of
          Some parent \<Rightarrow>
            if fst parent \<noteq> major then Ok leaf_parents
            else if kind \<noteq> Some ''fq_codel'' \<or> parent \<notin> seen
            then Err (''priority_qdisc_ownership_unknown: unexpected qdisc under '' @ tc_handle (fst parent) (snd parent))
            else if parent \<in> leaf_parents
            then Err (''priority_qdisc_ownership_unknown: duplicate leaf qdisc under '' @ tc_handle (fst parent) (snd parent))
            else Ok (insert parent leaf_parents)
        | None \<Rightarrow>
            if (case handle of None \<Rightarrow> False | Some (handle_major, _) \<Rightarrow> handle_major = major)
            then Err ''priority_qdisc_ownership_unknown: qdisc without a parent''
            else Ok leaf_parents))"

definition verify_owned_htb_layout :: "json \<Rightarrow> json \<Rightarrow> u32 \<Rightarrow> unit res" where
  "verify_owned_htb_layout qdiscs class_dump major =
     and_then (ok_or ''priority_qdisc_ownership_unknown: class dump is not an array'' (as_array class_dump)) (\<lambda>class_entries.
     and_then (try_fold (check_htb_class major) {} class_entries) (\<lambda>seen.
     if (major, 0x0001) \<notin> seen \<or> (major, 0xfffe) \<notin> seen
     then Err (''priority_qdisc_ownership_unknown: class '' @ format_dec (unat major) @ '':1 or '' @
               format_dec (unat major) @ '':fffe is missing'')
     else and_then (ok_or ''priority_qdisc_ownership_unknown: qdisc dump is not an array'' (as_array qdiscs)) (\<lambda>qdisc_entries.
       and_then (try_fold (check_leaf_qdisc major seen) {} qdisc_entries) (\<lambda>leaf_parents.
       if (major, 0xfffe) \<notin> leaf_parents
       then Err (''priority_qdisc_ownership_unknown: missing fq_codel leaf under '' @ format_dec (unat major) @ '':fffe'')
       else Ok ()))))"

datatype qdisc_ownership = Absent | Foreign | Owned

definition owned_root_entry :: "u32 \<Rightarrow> json \<Rightarrow> bool" where
  "owned_root_entry major entry \<longleftrightarrow> get_str ''kind'' entry = Some ''htb'' \<and> get_handle ''handle'' entry = Some (major, 0)"

definition classify_owned_root :: "json \<Rightarrow> json \<Rightarrow> u32 \<Rightarrow> qdisc_ownership res" where
  "classify_owned_root qdiscs class_dump major =
     and_then (ok_or ''priority_qdisc_ownership_unknown: qdisc dump is not an array'' (as_array qdiscs)) (\<lambda>entries.
     (case filter (\<lambda>entry. get_bool ''root'' entry = Some True) entries of
        [] \<Rightarrow> Ok Absent
      | [entry] \<Rightarrow>
          if \<not> owned_root_entry major entry then Ok Foreign
          else and_then (verify_owned_htb_layout qdiscs class_dump major) (\<lambda>_. Ok Owned)
      | roots \<Rightarrow>
          if \<exists>entry\<in>set roots. owned_root_entry major entry
          then Err (''priority_qdisc_ownership_unknown: multiple root qdiscs include '' @ format_hex (unat major) @ '':'')
          else Ok Foreign))"

definition classify_ifb_root :: "json \<Rightarrow> json \<Rightarrow> u32 \<Rightarrow> unit res" where
  "classify_ifb_root qdiscs class_dump major =
     and_then (classify_owned_root qdiscs class_dump major) (\<lambda>ownership.
     if ownership = Owned then Ok ()
     else Err (''priority_ifb_ownership_unknown: IFB root is not the owned '' @ format_hex (unat major) @ '': tree''))"

section \<open>Filters\<close>

definition filter_handle :: "json \<Rightarrow> u32 option" where
  "filter_handle entry =
     Option.bind (case Option.bind (json_get ''options'' entry) (json_get ''handle'') of
                    Some value \<Rightarrow> Some value | None \<Rightarrow> json_get ''handle'' entry) (\<lambda>value.
     (case Option.bind (as_u64 value) u32_try_from of
        Some handle \<Rightarrow> Some handle
      | None \<Rightarrow> Option.bind (as_str value) (\<lambda>text.
          let text = trim text in
          (case (case strip_prefix ''0x'' text of Some hex \<Rightarrow> Some hex | None \<Rightarrow> strip_prefix ''0X'' text) of
             Some hex \<Rightarrow> map_option of_nat (from_str_radix (2 ^ 32) 16 hex)
           | None \<Rightarrow> (case from_str_radix (2 ^ 32) 10 text of
                Some n \<Rightarrow> Some (of_nat n)
              | None \<Rightarrow> map_option (\<lambda>(major, minor). push_bit 16 major OR minor) (value_handle value))))))"

definition filter_preference :: "json \<Rightarrow> u32 option" where
  "filter_preference entry =
     Option.bind (json_get ''pref'' entry) (\<lambda>value.
     (case Option.bind (as_u64 value) u32_try_from of
        Some pref \<Rightarrow> Some pref
      | None \<Rightarrow> Option.bind (as_str value) (\<lambda>text. map_option of_nat (from_str_radix (2 ^ 32) 10 (trim text)))))"

definition filter_program :: "json \<Rightarrow> json option" where
  "filter_program entry =
     (case Option.bind (json_get ''options'' entry) (json_get ''prog'') of
        Some prog \<Rightarrow> Some prog | None \<Rightarrow> json_get ''prog'' entry)"

definition filter_program_name :: "json \<Rightarrow> string option" where
  "filter_program_name entry =
     Option.bind (case Option.bind (filter_program entry) (json_get ''name'') of
         Some name \<Rightarrow> Some name
       | None \<Rightarrow> (case Option.bind (json_get ''options'' entry) (json_get ''bpf_name'') of
            Some name \<Rightarrow> Some name | None \<Rightarrow> json_get ''bpf_name'' entry)) as_str"

definition filter_program_id :: "json \<Rightarrow> u32 option" where
  "filter_program_id entry =
     Option.bind (Option.bind (Option.bind (filter_program entry) (json_get ''id'')) as_u64) u32_try_from"

definition program_name_matches :: "string \<Rightarrow> string \<Rightarrow> bool" where
  "program_name_matches actual expected \<longleftrightarrow> actual = expected \<or> actual = take (min (length expected) 15) expected"

datatype owned_filter_state = FilterAbsent | FilterOwned u32

definition unknown_filter :: "u32 \<Rightarrow> string \<Rightarrow> string" where
  "unknown_filter handle reason = ''priority_filter_ownership_unknown: handle 0x'' @ format_hex (unat handle) @ reason"

definition match_filter :: "u32 \<Rightarrow> string \<Rightarrow> u32 option \<Rightarrow> u32 list \<Rightarrow> json \<Rightarrow> u32 list res" where
  "match_filter handle expected_program expected_program_id matched entry =
     (if filter_handle entry \<noteq> Some handle then Ok matched
      else if get_str ''kind'' entry \<noteq> Some ''bpf'' then Err (unknown_filter handle '' is not a BPF filter'')
      else and_then (ok_or (unknown_filter handle '' has no program name'') (filter_program_name entry)) (\<lambda>name.
        if \<not> program_name_matches name expected_program
        then Err (unknown_filter handle ('' runs foreign program '' @ name))
        else and_then (case expected_program_id of
            None \<Rightarrow> Ok ()
          | Some expected_id \<Rightarrow>
              (case filter_program_id entry of
                 Some actual_id \<Rightarrow>
                   if actual_id = expected_id then Ok ()
                   else Err (unknown_filter handle ('' runs program '' @ name @ '' id '' @ format_dec (unat actual_id) @
                          '', expected '' @ format_dec (unat expected_id)))
               | None \<Rightarrow> Err (unknown_filter handle '' has no program id''))) (\<lambda>_.
        and_then (ok_or (unknown_filter handle '' has no preference'') (filter_preference entry)) (\<lambda>pref.
        Ok (matched @ [pref])))))"

definition classify_owned_filter_with_id :: "json \<Rightarrow> u32 \<Rightarrow> string \<Rightarrow> u32 option \<Rightarrow> owned_filter_state res" where
  "classify_owned_filter_with_id dump handle expected_program expected_program_id =
     and_then (ok_or ''priority_filter_ownership_unknown: filter dump is not an array'' (as_array dump)) (\<lambda>entries.
     and_then (try_fold (match_filter handle expected_program expected_program_id) [] entries) (\<lambda>matched.
     (case matched of
        [] \<Rightarrow> Ok FilterAbsent
      | [pref] \<Rightarrow> Ok (FilterOwned pref)
      | _ \<Rightarrow> Err (unknown_filter handle '' appears in multiple filters''))))"

section \<open>Recovery\<close>

record owned_filter =
  of_dev :: string
  of_hook :: string
  of_pref :: u32
  of_handle :: u32

text \<open>Pin directories all lie in \<open>/sys/fs/bpf\<close> and are given by their names.\<close>

record owned_priority_resources =
  opr_roots :: "string set"
  opr_filters :: "owned_filter list"
  opr_agent_hook_filters :: "owned_filter list"
  opr_ifb :: "(string \<times> u32) option"
  opr_ifb_filter :: "owned_filter option"
  opr_pin_dirs :: "string list"
  opr_clsact :: "string set"

text \<open>The parts of the evidence file that the plan reads: the devices whose original root was saved
  and those on which the Agent created a clsact qdisc.\<close>

record recovery_evidence =
  ev_roots :: "string set"
  ev_clsact_created :: "string set"

record recovery_plan =
  rp_filters :: "owned_filter list"
  rp_pin_dirs :: "string list"
  rp_clsact :: "string list"
  rp_roots :: "(string \<times> u32) list"
  rp_ifb :: "(string \<times> u32) option"
  rp_original_root_unavailable :: "string list"

definition plan_recovery :: "owned_priority_resources \<Rightarrow> recovery_evidence \<Rightarrow> recovery_plan" where
  "plan_recovery resources evidence =
     (let planned_filters = sort_key (\<lambda>f. (of_dev f, of_hook f))
            (opr_agent_hook_filters resources @ opr_filters resources @
             (case opr_ifb_filter resources of None \<Rightarrow> [] | Some f \<Rightarrow> [f]));
          roots = map (\<lambda>dev. (dev, download_major)) (sorted_list_of_set (opr_roots resources));
          candidates = opr_roots resources \<union> of_dev ` set (opr_filters resources) \<union>
            (case opr_ifb resources of None \<Rightarrow> {} | Some (ifb, _) \<Rightarrow> {ifb});
          clsact = filter (\<lambda>dev. dev \<in> opr_clsact resources \<and>
              ((case opr_ifb resources of None \<Rightarrow> False | Some (ifb, _) \<Rightarrow> ifb = dev) \<or>
               dev \<in> ev_clsact_created evidence \<or> (\<exists>f\<in>set (opr_filters resources). of_dev f = dev)))
            (sorted_list_of_set candidates)
      in \<lparr>rp_filters = planned_filters, rp_pin_dirs = sort_key (\<lambda>p. p) (opr_pin_dirs resources), rp_clsact = clsact,
          rp_roots = roots, rp_ifb = opr_ifb resources,
          rp_original_root_unavailable = map fst (filter (\<lambda>(dev, _). dev \<notin> ev_roots evidence) roots)\<rparr>)"

section \<open>Specification\<close>

text \<open>The class of an HTB entry of a class dump, and an entry in a slot of the Agent's skeleton.\<close>

definition htb_key :: "json \<Rightarrow> (u32 \<times> u32) option" where
  "htb_key e = (if get_str ''class'' e = Some ''htb'' then get_handle ''handle'' e else None)"

definition canonical_entry :: "u32 \<Rightarrow> json \<Rightarrow> bool" where
  "canonical_entry major e \<longleftrightarrow> (\<exists>minor. get_handle ''handle'' e = Some (major, minor) \<and>
     (if minor = 1 then get_bool ''root'' e = Some True \<and> get_handle ''parent'' e = None
      else get_bool ''root'' e \<noteq> Some True \<and> canonical_class_parent minor (get_handle ''parent'' e) major))"

text \<open>The class above a leaf qdisc of the tree, and a qdisc that may stand beside the tree.\<close>

definition leaf_key :: "u32 \<Rightarrow> json \<Rightarrow> (u32 \<times> u32) option" where
  "leaf_key major q =
     (if get_str ''kind'' q \<noteq> Some ''clsact'' \<and> get_bool ''root'' q \<noteq> Some True \<and>
         map_option fst (get_handle ''parent'' q) = Some major then get_handle ''parent'' q else None)"

definition canonical_qdisc :: "u32 \<Rightarrow> (u32 \<times> u32) set \<Rightarrow> json \<Rightarrow> bool" where
  "canonical_qdisc major seen q \<longleftrightarrow> get_str ''kind'' q = Some ''clsact'' \<or>
     (if get_bool ''root'' q = Some True then owned_root_entry major q
      else (case get_handle ''parent'' q of
              None \<Rightarrow> map_option fst (get_handle ''handle'' q) \<noteq> Some major
            | Some p \<Rightarrow> fst p = major \<longrightarrow> get_str ''kind'' q = Some ''fq_codel'' \<and> p \<in> seen))"

definition owned_layout :: "u32 \<Rightarrow> json list \<Rightarrow> json list \<Rightarrow> bool" where
  "owned_layout major qdiscs dump \<longleftrightarrow>
     (let seen = List.map_filter htb_key dump; leaves = List.map_filter (leaf_key major) qdiscs in
      (\<forall>e\<in>set dump. get_str ''class'' e = Some ''htb'' \<longrightarrow> canonical_entry major e) \<and> distinct seen \<and>
      (major, 0x0001) \<in> set seen \<and> (major, 0xfffe) \<in> set seen \<and>
      (\<forall>q\<in>set qdiscs. canonical_qdisc major (set seen) q) \<and> distinct leaves \<and> (major, 0xfffe) \<in> set leaves)"

section \<open>The classification is exact\<close>

text \<open>A loop that checks entries and collects the keys of some of them without repetition.\<close>

lemma try_fold_keys:
  assumes "\<And>seen e seen'. f seen e = Ok seen' \<longleftrightarrow>
    ok e \<and> (case key e of None \<Rightarrow> seen' = seen | Some c \<Rightarrow> c \<notin> seen \<and> seen' = insert c seen)"
  shows "try_fold f seen xs = Ok seen' \<longleftrightarrow> (\<forall>e\<in>set xs. ok e) \<and> distinct (List.map_filter key xs) \<and>
    set (List.map_filter key xs) \<inter> seen = {} \<and> seen' = seen \<union> set (List.map_filter key xs)"
proof (induction xs arbitrary: seen)
  case (Cons e xs)
  show ?case
  proof (cases "key e")
    case None
    with Cons show ?thesis by (auto simp: res_simps assms map_filter_simps)
  next
    case (Some c)
    with Cons [of "insert c seen"] show ?thesis by (auto simp: res_simps assms map_filter_simps)
  qed
qed (auto simp: map_filter_simps)

lemma check_htb_class_step:
  "check_htb_class major seen e = Ok seen' \<longleftrightarrow>
     (get_str ''class'' e = Some ''htb'' \<longrightarrow> canonical_entry major e) \<and>
     (case htb_key e of None \<Rightarrow> seen' = seen | Some c \<Rightarrow> c \<notin> seen \<and> seen' = insert c seen)"
  by (cases "get_handle ''parent'' e")
     (auto simp: check_htb_class_def canonical_entry_def htb_key_def Let_def res_simps split: if_splits option.splits)

lemma check_leaf_qdisc_step:
  "check_leaf_qdisc major seen ls q = Ok ls' \<longleftrightarrow> canonical_qdisc major seen q \<and>
     (case leaf_key major q of None \<Rightarrow> ls' = ls | Some p \<Rightarrow> p \<notin> ls \<and> ls' = insert p ls)"
  by (cases "get_handle ''parent'' q"; cases "get_handle ''handle'' q")
     (auto simp: check_leaf_qdisc_def canonical_qdisc_def leaf_key_def owned_root_entry_def Let_def split: if_splits)

lemma verify_layout_iff:
  "verify_owned_htb_layout (JArray qdiscs) (JArray dump) major = Ok () \<longleftrightarrow> owned_layout major qdiscs dump"
  by (auto simp: verify_owned_htb_layout_def owned_layout_def Let_def res_simps
      try_fold_keys [OF check_htb_class_step] try_fold_keys [OF check_leaf_qdisc_step] )

text \<open>A root is owned exactly when it is the only root, has the Agent's handle, and the layout is canonical.\<close>

lemma classify_owned_iff:
  "classify_owned_root (JArray qdiscs) (JArray dump) major = Ok Owned \<longleftrightarrow>
     (\<exists>q. filter (\<lambda>q. get_bool ''root'' q = Some True) qdiscs = [q] \<and> owned_root_entry major q) \<and>
     owned_layout major qdiscs dump"
  by (auto simp: classify_owned_root_def res_simps verify_layout_iff [symmetric] split: list.splits if_splits)

section \<open>Installed trees\<close>

text \<open>The entry of a class in a dump, and the qdiscs the Agent installs in a tree.\<close>

definition shows_class :: "u32 \<Rightarrow> class_spec \<Rightarrow> json \<Rightarrow> bool" where
  "shows_class major spec e \<longleftrightarrow>
     get_str ''class'' e = Some ''htb'' \<and> json_get ''handle'' e = Some (JString (classid_text (cs_classid spec))) \<and>
     (if cs_parent spec = push_bit 16 major then get_bool ''root'' e = Some True \<and> json_get ''parent'' e = None
      else json_get ''root'' e = None \<and> json_get ''parent'' e = Some (JString (classid_text (cs_parent spec))))"

definition shows_root :: "u32 \<Rightarrow> json \<Rightarrow> bool" where
  "shows_root major q \<longleftrightarrow> get_str ''kind'' q = Some ''htb'' \<and> get_bool ''root'' q = Some True \<and>
     json_get ''handle'' q = Some (JString (format_hex (unat major) @ '':''))"

definition shows_leaf :: "u32 \<Rightarrow> u32 \<Rightarrow> json \<Rightarrow> bool" where
  "shows_leaf major minor q \<longleftrightarrow> get_str ''kind'' q = Some ''fq_codel'' \<and> json_get ''root'' q = None \<and>
     json_get ''parent'' q = Some (JString (tc_handle major minor))"

definition shows_clsact :: "json \<Rightarrow> bool" where
  "shows_clsact q \<longleftrightarrow> get_str ''kind'' q = Some ''clsact'' \<and> json_get ''root'' q = None"

lemma classes_major: "classes tree = Ok specs \<Longrightarrow> qt_major tree = 0x51 \<or> qt_major tree = 0x52"
  by (auto simp: classes_def Let_def res_simps class_consts split: if_splits)

lemma classid_text_parts:
  assumes "unat minor < 65536" and "major = 0x51 \<or> major = 0x52"
  shows "parse_tc_handle (classid_text (push_bit 16 major OR minor)) = Some (major, minor)"
proof -
  have "drop_bit 16 minor = 0" using assms(1) by (simp only: word_unat_eq_iff unat_drop_16) simp
  with assms have "drop_bit 16 (push_bit 16 major OR minor) = major" by (auto simp: drop_bit_or)
  then show ?thesis by (simp add: classid_text_handle parse_tc_handle_text cid_low assms(1))
qed

lemma trim_root_handle: "trim (format_hex a @ '':'') = format_hex a @ '':''"
proof -
  obtain c r where a: "format_hex a = c # r" by (cases "format_hex a") (auto simp: format_hex_def)
  show ?thesis
    using format_hex_visible [of c a] a
    by (intro trim_nonspace [where a = c and z = "CHR '':''" and r = r]) (auto simp: is_ws1_def byte_val_def)
qed

lemma parse_root_handle: "parse_tc_handle (format_hex (unat major) @ '':'') = Some (major, 0)"
  by (simp add: parse_tc_handle_def trim_root_handle split_once_append [where b = "[]"] set_format_hex
      handle_part_format_hex) (simp add: handle_part_def)

lemma canonical_client:
  assumes "0x100 \<le> unat m" and "unat m \<le> 0x1ff"
  shows "m \<noteq> 1 \<and> canonical_class_parent m (Some (major, 1)) major"
  using assms by (auto simp: canonical_class_parent_def word_le_nat_alt word_unat_eq_iff)

lemma canonical_leaf:
  assumes "0x200 \<le> unat m \<and> unat m \<le> 0x2ff \<or> 0x1000 \<le> unat m \<and> unat m \<le> 0x1fff" and "0x100 \<le> unat p" "unat p \<le> 0x1ff"
  shows "m \<noteq> 1 \<and> p \<noteq> 0 \<and> canonical_class_parent m (Some (major, p)) major"
  using assms by (auto simp: canonical_class_parent_def word_le_nat_alt word_unat_eq_iff)

lemma spec_canonical:
  assumes "classes tree = Ok specs" and "spec \<in> set specs"
  shows "cs_classid spec = cid tree (minor_of spec) \<and> (minor_of spec = 1 \<and> cs_parent spec = push_bit 16 (qt_major tree) \<or>
    minor_of spec \<noteq> 1 \<and> (\<exists>p. unat p < 65536 \<and> p \<noteq> 0 \<and> cs_parent spec = cid tree p \<and>
      canonical_class_parent (minor_of spec) (Some (qt_major tree, p)) (qt_major tree)))"
proof -
  note ok = classes_Ok [OF assms(1)]
  from assms(2) [unfolded ok(6)] consider "spec = root_spec tree" | "spec = bypass_spec tree"
    | c where "c \<in> set (qt_clients tree)" "spec = client_spec tree c"
    | c where "c \<in> set (qt_clients tree)" "spec = default_spec tree c"
    | a where "a \<in> set (qt_applications tree)" "spec = app_spec tree a" by auto
  then show ?thesis
  proof cases
    case 1 then show ?thesis by (simp add: spec_minors, simp add: root_spec_def class_consts)
  next
    case 2 then show ?thesis
      by (simp add: spec_minors, simp add: bypass_spec_def class_consts canonical_class_parent_def)
  next
    case (3 c)
    with ok(1) have "client_ok tree c" by (auto simp: list_all_iff)
    with 3 canonical_client [of "bc_parent_minor c"] show ?thesis
      by (simp add: spec_minors, simp add: client_spec_def client_ok_def class_consts all_slots_def)
         (intro exI [of _ 1], simp)
  next
    case (4 c)
    with ok(1) have "client_ok tree c" by (auto simp: list_all_iff)
    with 4 canonical_leaf [of "bc_default_minor c" "bc_parent_minor c"] show ?thesis
      by (simp add: spec_minors, simp add: default_spec_def client_ok_def all_slots_def)
         (intro exI [of _ "bc_parent_minor c"], simp)
  next
    case (5 a)
    with ok(4) have a: "app_ok tree a" by (auto simp: list_all_iff)
    then obtain c where c: "parent_of tree a = Some c" by (auto simp: app_ok_def split: option.splits)
    then have "c \<in> set (qt_clients tree)" by (auto simp: parent_of_def dest: find_Some_iff_dest)
    with ok(1) have "client_ok tree c" by (auto simp: list_all_iff)
    with 5 a c canonical_leaf [of "ac_minor a" "bc_parent_minor c"] show ?thesis
      by (simp add: spec_minors, simp add: app_spec_def app_ok_def client_ok_def all_slots_def)
         (intro exI [of _ "bc_parent_minor c"], simp)
  qed
qed

lemma shows_class_key:
  assumes "classes tree = Ok specs" and "spec \<in> set specs" and "shows_class (qt_major tree) spec e"
  shows "htb_key e = Some (qt_major tree, minor_of spec) \<and> canonical_entry (qt_major tree) e"
proof -
  note major = classes_major [OF assms(1)]
  have low: "unat (minor_of s) < 65536" for s by (simp add: minor_of_def unat_and_16)
  from spec_canonical [OF assms(1,2)] have "cs_classid spec = cid tree (minor_of spec)" by blast
  with assms(3) classid_text_parts [OF low major, of spec]
  have handle: "get_handle ''handle'' e = Some (qt_major tree, minor_of spec)" "get_str ''class'' e = Some ''htb''"
    by (auto simp: shows_class_def)
  from spec_canonical [OF assms(1,2)] consider "minor_of spec = 1" "cs_parent spec = push_bit 16 (qt_major tree)"
    | p where "minor_of spec \<noteq> 1" "unat p < 65536" "p \<noteq> 0" "cs_parent spec = cid tree p"
      "canonical_class_parent (minor_of spec) (Some (qt_major tree, p)) (qt_major tree)" by blast
  then show ?thesis
  proof cases
    case 1
    with assms(3) handle show ?thesis by (auto simp: shows_class_def htb_key_def canonical_entry_def)
  next
    case 2
    have "cid tree p AND 0xffff \<noteq> push_bit 16 (qt_major tree) AND 0xffff"
      using 2(2,3) low_bits [of "qt_major tree" 0] by (simp add: cid_low)
    then have "cs_parent spec \<noteq> push_bit 16 (qt_major tree)" using 2(4) by auto
    with assms(3) 2 handle classid_text_parts [OF 2(2) major] show ?thesis
      by (auto simp: shows_class_def htb_key_def canonical_entry_def)
  qed
qed

lemma map_filter_shown:
  assumes "list_all2 (\<lambda>x e. key e = Some (g x)) xs (filter sel es)" and "\<forall>e. \<not> sel e \<longrightarrow> key e = None"
  shows "List.map_filter key es = map g xs"
  using assms(1)
proof (induction es arbitrary: xs)
  case (Cons e es)
  then show ?case using assms(2) by (cases "sel e") (auto simp: map_filter_simps list_all2_Cons2)
qed (simp add: map_filter_simps)

lemma shows_leaf_key:
  assumes "shows_leaf major minor q"
  shows "leaf_key major q = Some (major, minor) \<and> (canonical_qdisc major seen q \<longleftrightarrow> (major, minor) \<in> seen)"
  using assms by (auto simp: shows_leaf_def leaf_key_def canonical_qdisc_def parse_tc_handle_text)

lemma installed_leaf_keys:
  assumes "shows_root major q" and "list_all2 (shows_leaf major) minors leaves" and "\<forall>q\<in>set others. shows_clsact q"
  shows "List.map_filter (leaf_key major) (q # leaves @ others) = map (\<lambda>m. (major, m)) minors"
proof -
  have "List.map_filter (leaf_key major) leaves = map (\<lambda>m. (major, m)) minors"
    using assms(2) shows_leaf_key by (induction rule: list_all2_induct) (auto simp: map_filter_simps)
  moreover have "List.map_filter (leaf_key major) others = []"
    using assms(3) by (induction others) (auto simp: map_filter_simps shows_clsact_def leaf_key_def)
  moreover have "leaf_key major q = None" using assms(1) by (simp add: leaf_key_def shows_root_def)
  ultimately show ?thesis by (simp add: map_filter_def)
qed

lemma installed_qdiscs:
  assumes "shows_root major q" and "list_all2 (shows_leaf major) minors leaves" and "\<forall>q\<in>set others. shows_clsact q"
    and "\<forall>m\<in>set minors. (major, m) \<in> seen" and "r \<in> set (q # leaves @ others)"
  shows "canonical_qdisc major seen r"
proof -
  from assms(5) consider "r = q" | "r \<in> set leaves" | "r \<in> set others" by auto
  then show ?thesis
  proof cases
    case 1
    with assms(1) show ?thesis by (simp add: canonical_qdisc_def owned_root_entry_def shows_root_def parse_root_handle)
  next
    case 2
    then obtain m where "m \<in> set minors" "shows_leaf major m r" using list_all2_set2 [OF assms(2)] by blast
    with shows_leaf_key [of major m r seen] assms(4) show ?thesis by auto
  qed (use assms(3) in \<open>auto simp: canonical_qdisc_def shows_clsact_def\<close>)
qed

lemma installed_classes:
  assumes "classes tree = Ok specs" and "set installed \<subseteq> set specs" and "distinct installed"
    and dump: "list_all2 (shows_class (qt_major tree)) installed (filter (\<lambda>e. get_str ''class'' e = Some ''htb'') dump)"
  shows "List.map_filter htb_key dump = map (\<lambda>s. (qt_major tree, minor_of s)) installed"
    and "distinct (map (\<lambda>s. (qt_major tree, minor_of s)) installed)"
    and "\<forall>e\<in>set dump. get_str ''class'' e = Some ''htb'' \<longrightarrow> canonical_entry (qt_major tree) e"
proof -
  show "List.map_filter htb_key dump = map (\<lambda>s. (qt_major tree, minor_of s)) installed"
    using dump shows_class_key [OF assms(1)] assms(2)
    by (intro map_filter_shown [where sel = "\<lambda>e. get_str ''class'' e = Some ''htb''"])
       (auto simp: htb_key_def list_all2_conv_all_nth subset_iff)
  have "inj_on minor_of (set specs)" using classes_distinct [OF assms(1)] by (simp add: distinct_map)
  then show "distinct (map (\<lambda>s. (qt_major tree, minor_of s)) installed)"
    using assms(2,3) by (auto simp: distinct_map inj_on_def subset_iff)
  show "\<forall>e\<in>set dump. get_str ''class'' e = Some ''htb'' \<longrightarrow> canonical_entry (qt_major tree) e"
    using list_all2_set2 [OF dump] shows_class_key [OF assms(1)] assms(2) by fastforce
qed

lemma installed_layout:
  assumes "classes tree = Ok specs" and "set installed \<subseteq> set specs" and "distinct installed"
    and "root_spec tree \<in> set installed" "bypass_spec tree \<in> set installed"
    and "list_all2 (shows_class (qt_major tree)) installed (filter (\<lambda>e. get_str ''class'' e = Some ''htb'') dump)"
    and "shows_root (qt_major tree) q" and "list_all2 (shows_leaf (qt_major tree)) minors leaves" "distinct minors"
    and "set minors \<subseteq> minor_of ` set installed" "bypass_minor \<in> set minors" and "\<forall>q\<in>set others. shows_clsact q"
  shows "owned_layout (qt_major tree) (q # leaves @ others) dump"
proof -
  let ?seen = "set (map (\<lambda>s. (qt_major tree, minor_of s)) installed)"
  note shown = installed_classes [OF assms(1-3,6)]
  have "(qt_major tree, 1) \<in> ?seen" "(qt_major tree, 0xfffe) \<in> ?seen"
    using assms(4,5) spec_minors(1,2) [of tree] by (auto simp: image_iff intro: bexI)
  moreover have "\<forall>r\<in>set (q # leaves @ others). canonical_qdisc (qt_major tree) ?seen r"
    using assms(10) by (intro ballI installed_qdiscs [OF assms(7,8,12)]) auto
  moreover have "(qt_major tree, 0xfffe) \<in> set (map (\<lambda>m. (qt_major tree, m)) minors)"
    "distinct (map (\<lambda>m. (qt_major tree, m)) minors)" using assms(9,11) by (auto simp: distinct_map inj_on_def class_consts)
  ultimately show ?thesis
    unfolding owned_layout_def Let_def shown(1) installed_leaf_keys [OF assms(7,8,12)] using shown(2,3) by blast
qed

section \<open>Properties\<close>


definition ex_tree :: queue_tree where
  "ex_tree = \<lparr>qt_port = ex_port, qt_major = download_major, qt_capacity_bps = 1000000, qt_clients = [], qt_applications = []\<rparr>"

definition ex_dump :: "json list" where
  "ex_dump = [JObject [(''class'', JString ''htb''), (''handle'', JString ''51:1''), (''root'', JBool True)],
     JObject [(''class'', JString ''htb''), (''handle'', JString ''51:fffe''), (''parent'', JString ''51:1'')],
     JObject [(''class'', JString ''fq_codel''), (''handle'', JString ''fffe:1''), (''parent'', JString ''fffe:'')]]"

definition ex_qdiscs :: "json list" where
  "ex_qdiscs = [JObject [(''kind'', JString ''htb''), (''handle'', JString ''51:''), (''root'', JBool True)],
     JObject [(''kind'', JString ''fq_codel''), (''handle'', JString ''fffe:''), (''parent'', JString ''51:fffe'')],
     JObject [(''kind'', JString ''clsact''), (''handle'', JString ''ffff:''), (''parent'', JString ''ffff:fff1'')]]"

lemma ex_tree_classes: "classes ex_tree = Ok [root_spec ex_tree, bypass_spec ex_tree]"
  by code_simp

lemma ex_dump_shows:
  "list_all2 (shows_class (qt_major ex_tree)) [root_spec ex_tree, bypass_spec ex_tree]
     (filter (\<lambda>e. get_str ''class'' e = Some ''htb'') ex_dump)"
  by code_simp


end
