(* ===== verification/Priority_Queues.thy ===== *)
theory Priority_Queues
  imports Priority_State Priority_Ownership Io_Result
begin

text \<open>
  The queues of the priority runtime (\<open>linux/qos_priority_runtime.rs\<close>): installing a plan with the
  traffic-control tool, checking that a tree is still the Agent's own before it is changed, reading the
  classes back, and removing the classes that no longer belong to the active plan once they are
  drained. The tool, the parser of JSON text, the monotonic clock and sleeping are parameters; all state
  outside the Agent is the type \<open>'k\<close>.
\<close>

section \<open>The environment\<close>

record 'k tc_host =
  th_tc :: "string list \<Rightarrow> ('k, string) io"
  th_json :: "string \<Rightarrow> json option"
  th_instant_ns :: "'k \<Rightarrow> nat"
  th_sleep_ms :: "nat \<Rightarrow> 'k \<Rightarrow> 'k"

definition tc_json :: "'k tc_host \<Rightarrow> string list \<Rightarrow> string \<Rightarrow> ('k, json) io" where
  "tc_json H args what = io_bind (th_tc H args) (\<lambda>text. io_lift (parse_json (th_json H) text what))"

definition show_qdiscs :: "string \<Rightarrow> string list" where
  "show_qdiscs dev = [''-j'', ''qdisc'', ''show'', ''dev'', dev]"

definition show_classes :: "string \<Rightarrow> string list" where
  "show_classes dev = [''class'', ''show'', ''dev'', dev]"

definition show_class_dump :: "string \<Rightarrow> string list" where
  "show_class_dump dev = [''-j'', ''class'', ''show'', ''dev'', dev]"

definition show_qdisc_stats :: "string \<Rightarrow> string list" where
  "show_qdisc_stats dev = [''-s'', ''-j'', ''qdisc'', ''show'', ''dev'', dev]"

definition trees :: "priority_plan \<Rightarrow> queue_tree list" where
  "trees plan = plan_upload plan # plan_downloads plan"

section \<open>Installing a plan\<close>

definition add_leaf_qdisc :: "string \<Rightarrow> u32 \<Rightarrow> u32 \<Rightarrow> string list" where
  "add_leaf_qdisc dev major minor =
     [''qdisc'', ''add'', ''dev'', dev, ''parent'', tc_handle major minor, ''handle'', format_hex (unat minor) @ '':'', ''fq_codel'']"

definition ensure_leaf_qdisc :: "'k tc_host \<Rightarrow> string \<Rightarrow> u32 \<Rightarrow> u32 \<Rightarrow> ('k, unit) io" where
  "ensure_leaf_qdisc H dev major minor =
     io_bind (tc_json H (show_qdiscs dev) ''qdisc dump'') (\<lambda>qdiscs.
     if (case as_array qdiscs of
           None \<Rightarrow> False
         | Some qs \<Rightarrow> \<exists>q\<in>set qs. get_str ''parent'' q = Some (tc_handle major minor) \<and> get_str ''kind'' q = Some ''fq_codel'')
     then io_ok ()
     else io_bind (th_tc H (add_leaf_qdisc dev major minor)) (\<lambda>_. io_ok ()))"

definition verify_owned_tree :: "'k tc_host \<Rightarrow> (string \<times> u32) set \<Rightarrow> queue_tree \<Rightarrow> ('k, unit) io" where
  "verify_owned_tree H owned_roots tree =
     (let dev = qp_name (qt_port tree); major = format_hex (unat (qt_major tree)) in
      if (dev, qt_major tree) \<notin> owned_roots
      then io_err (''priority_qdisc_ownership_unknown: '' @ dev @ '' handle '' @ major @ '':'')
      else io_bind (tc_json H (show_qdiscs dev) ''owned priority qdisc'') (\<lambda>qdiscs.
        if \<not> (case as_array qdiscs of
               None \<Rightarrow> False
             | Some qs \<Rightarrow> \<exists>q\<in>set qs. get_bool ''root'' q = Some True \<and> get_str ''kind'' q = Some ''htb'' \<and>
                  get_str ''handle'' q = Some (major @ '':''))
        then io_err (''priority_qdisc_ownership_changed: '' @ dev @ '' handle '' @ major @ '':'')
        else io_bind (th_tc H (show_classes dev)) (\<lambda>dump.
          if \<not> class_edge dump (major @ '':1'') None \<or> \<not> class_edge dump (major @ '':fffe'') (Some (major @ '':1''))
          then io_err (''priority_qdisc_ownership_changed: '' @ dev @ '' base classes'')
          else io_ok ())))"

definition replace_class :: "string \<Rightarrow> class_spec \<Rightarrow> string list" where
  "replace_class dev spec =
     [''class'', ''replace'', ''dev'', dev, ''parent'', classid_text (cs_parent spec), ''classid'', classid_text (cs_classid spec),
      ''htb'', ''rate'', format_dec (unat (cs_rate_bps spec)) @ ''bit'', ''ceil'', format_dec (unat (cs_rate_bps spec)) @ ''bit'']"

definition shown_parent :: "queue_tree \<Rightarrow> class_spec \<Rightarrow> string option" where
  "shown_parent tree spec =
     (if cs_parent spec = push_bit 16 (qt_major tree) then None else Some (classid_text (cs_parent spec)))"

definition debug_option :: "string option \<Rightarrow> string" where
  "debug_option v = (case v of None \<Rightarrow> ''None'' | Some x \<Rightarrow> ''Some('' @ [CHR 0x22] @ x @ [CHR 0x22] @ '')'')"

text \<open>The steps for a tree whose ownership was just checked.\<close>

definition install_verified :: "'k tc_host \<Rightarrow> queue_tree \<Rightarrow> ('k, unit) io" where
  "install_verified H tree =
     (let dev = qp_name (qt_port tree) in
      io_bind (io_lift (classes tree)) (\<lambda>specs.
      io_bind (io_each (\<lambda>spec. io_bind (th_tc H (replace_class dev spec)) (\<lambda>_. io_ok ())) specs) (\<lambda>_.
      io_bind (io_each (\<lambda>client. ensure_leaf_qdisc H dev (qt_major tree) (bc_default_minor client)) (qt_clients tree)) (\<lambda>_.
      io_bind (io_each (\<lambda>a. ensure_leaf_qdisc H dev (qt_major tree) (ac_minor a)) (qt_applications tree)) (\<lambda>_.
      io_bind (th_tc H (show_classes dev)) (\<lambda>dump.
      io_each (\<lambda>spec.
        if class_edge dump (classid_text (cs_classid spec)) (shown_parent tree spec) then io_ok ()
        else io_err (''priority_class_readback_failed: '' @ dev @ '' '' @ classid_text (cs_classid spec) @
          '' parent '' @ debug_option (shown_parent tree spec))) specs))))))"

definition install_tree :: "'k tc_host \<Rightarrow> (string \<times> u32) set \<Rightarrow> queue_tree \<Rightarrow> ('k, unit) io" where
  "install_tree H owned_roots tree = io_bind (verify_owned_tree H owned_roots tree) (\<lambda>_. install_verified H tree)"

definition install_plan :: "'k tc_host \<Rightarrow> (string \<times> u32) set \<Rightarrow> priority_plan \<Rightarrow> ('k, unit) io" where
  "install_plan H owned_roots plan = io_each (install_tree H owned_roots) (trees plan)"

definition empty_tree :: "queue_tree \<Rightarrow> queue_tree" where
  "empty_tree tree = tree\<lparr>qt_clients := [], qt_applications := []\<rparr>"

definition empty_priority_plan :: "priority_plan \<Rightarrow> priority_plan" where
  "empty_priority_plan plan =
     \<lparr>plan_upload = empty_tree (plan_upload plan), plan_downloads = map empty_tree (plan_downloads plan)\<rparr>"

section \<open>Removing unused classes\<close>

definition qdisc_parent :: "json \<Rightarrow> u32 option" where
  "qdisc_parent q = Option.bind (get_str ''parent'' q) parse_classid_text"

definition drained :: "u32 set \<Rightarrow> json list \<Rightarrow> bool" where
  "drained stale qdiscs \<longleftrightarrow>
     (\<forall>q\<in>set qdiscs. \<not> (case qdisc_parent q of None \<Rightarrow> False | Some parent \<Rightarrow> parent \<in> stale) \<or> backlog_empty q)"

definition poll_drained :: "'k tc_host \<Rightarrow> string \<Rightarrow> u32 set \<Rightarrow> ('k, bool) io" where
  "poll_drained H dev stale =
     io_bind (tc_json H (show_qdisc_stats dev) ''priority qdisc stats'') (\<lambda>qdiscs.
     io_bind (io_lift (ok_or ''priority qdisc stats not array'' (as_array qdiscs))) (\<lambda>qs. io_ok (drained stale qs)))"

text \<open>The polling loop; a loop that never ends has the value \<open>None\<close>.\<close>

partial_function (option) wait_drained ::
  "'k tc_host \<Rightarrow> string \<Rightarrow> u32 set \<Rightarrow> nat \<Rightarrow> 'k \<Rightarrow> ('k \<times> unit res) option" where
  "wait_drained H dev stale deadline k =
     (case snd (poll_drained H dev stale k) of
        Inl e \<Rightarrow> Some (fst (poll_drained H dev stale k), Err e)
      | Inr done \<Rightarrow>
          if done then Some (fst (poll_drained H dev stale k), Ok ())
          else if deadline \<le> th_instant_ns H (fst (poll_drained H dev stale k))
          then Some (fst (poll_drained H dev stale k), Err (''priority_class_cleanup_backlog: '' @ dev))
          else wait_drained H dev stale deadline (th_sleep_ms H 50 (fst (poll_drained H dev stale k))))"

definition delete_class :: "string \<Rightarrow> u32 \<Rightarrow> string list" where
  "delete_class dev raw = [''class'', ''del'', ''dev'', dev, ''classid'', classid_text raw]"

definition delete_stale :: "'k tc_host \<Rightarrow> string \<Rightarrow> unused_priority_class list \<Rightarrow> ('k, unit) io" where
  "delete_stale H dev stale =
     (let ids = set (map upc_raw stale) in
      io_bind (io_each (\<lambda>c. io_bind (th_tc H (delete_class dev (upc_raw c))) (\<lambda>_. io_ok ())) stale) (\<lambda>_.
      io_bind (th_tc H (show_class_dump dev)) (\<lambda>text.
      io_bind (io_lift (parse_class_dump (th_json H) text ''priority class cleanup readback'')) (\<lambda>dump.
      io_bind (io_lift (ok_or ''priority class cleanup readback not an array'' (as_array dump))) (\<lambda>remaining.
      if \<exists>e\<in>set remaining. \<exists>raw\<in>ids. entry_raw (class_entry_of e) = Some raw
      then io_err (''priority_class_cleanup_readback_failed: '' @ dev)
      else io_bind (tc_json H (show_qdiscs dev) ''priority qdisc cleanup readback'') (\<lambda>qdiscs.
        if (case as_array qdiscs of
              None \<Rightarrow> True
            | Some qs \<Rightarrow> \<exists>q\<in>set qs. case qdisc_parent q of None \<Rightarrow> False | Some parent \<Rightarrow> parent \<in> ids)
        then io_err (''priority_class_cleanup_qdisc_readback_failed: '' @ dev)
        else io_ok ()))))))"

definition find_stale :: "'k tc_host \<Rightarrow> queue_tree \<Rightarrow> ('k, unused_priority_class list) io" where
  "find_stale H tree =
     io_bind (io_lift (classes tree)) (\<lambda>specs.
     io_bind (th_tc H (show_class_dump (qp_name (qt_port tree)))) (\<lambda>text.
     io_bind (io_lift (parse_class_dump (th_json H) text ''priority class dump'')) (\<lambda>dump.
     io_lift (unused_priority_classes (map_option (map class_entry_of) (as_array dump)) (qt_major tree)
       (set (map cs_classid specs))))))"

definition remove_unused_priority_classes :: "'k tc_host \<Rightarrow> queue_tree \<Rightarrow> 'k \<Rightarrow> ('k \<times> unit res) option" where
  "remove_unused_priority_classes H tree k =
     (let dev = qp_name (qt_port tree); (k, found) = find_stale H tree k in
      case found of
        Inl e \<Rightarrow> Some (k, Err e)
      | Inr stale \<Rightarrow>
          if stale = [] then Some (k, Ok ())
          else Option.bind (wait_drained H dev (set (map upc_raw stale)) (th_instant_ns H k + 2000000000) k) (\<lambda>(k, waited).
            case waited of Inl e \<Rightarrow> Some (k, Err e) | Inr _ \<Rightarrow> Some (delete_stale H dev stale k)))"

fun remove_unused_each :: "'k tc_host \<Rightarrow> queue_tree list \<Rightarrow> 'k \<Rightarrow> ('k \<times> unit res) option" where
  "remove_unused_each H [] k = Some (k, Ok ())"
| "remove_unused_each H (tree # rest) k =
     Option.bind (remove_unused_priority_classes H tree k) (\<lambda>(k, removed).
     case removed of Inl e \<Rightarrow> Some (k, Err e) | Inr _ \<Rightarrow> remove_unused_each H rest k)"

definition prune_unused_classes_after_flow_reset ::
  "'k tc_host \<Rightarrow> 'z priority_runtime_scheme \<Rightarrow> 'k \<Rightarrow> ('k \<times> unit res) option" where
  "prune_unused_classes_after_flow_reset H rt k =
     (case rt_active_plan rt of None \<Rightarrow> Some (k, Ok ()) | Some plan \<Rightarrow> remove_unused_each H (trees plan) k)"

section \<open>Specification\<close>

text \<open>The monotonic clock does not run backwards, and sleeping takes at least the requested time.\<close>

definition clock_advances :: "'k tc_host \<Rightarrow> bool" where
  "clock_advances H \<longleftrightarrow> (\<forall>args k. th_instant_ns H k \<le> th_instant_ns H (fst (th_tc H args k))) \<and>
     (\<forall>ms k. th_instant_ns H k + 1000000 * ms \<le> th_instant_ns H (th_sleep_ms H ms k))"

text \<open>The commands that may change the queues: a plan is installed in owned trees only, and the cleanup
  deletes only classes of the dynamic ranges of its tree that the tree does not have.\<close>

definition show_commands :: "string \<Rightarrow> string list set" where
  "show_commands dev = {show_qdiscs dev, show_classes dev, show_class_dump dev, show_qdisc_stats dev}"

definition install_commands :: "(string \<times> u32) set \<Rightarrow> queue_tree \<Rightarrow> string list set" where
  "install_commands owned_roots tree =
     (let dev = qp_name (qt_port tree) in
      show_commands dev \<union>
      (if (dev, qt_major tree) \<in> owned_roots
       then {args. \<exists>specs. classes tree = Ok specs \<and> (\<exists>spec\<in>set specs. args = replace_class dev spec)} \<union>
         add_leaf_qdisc dev (qt_major tree) ` (bc_default_minor ` set (qt_clients tree) \<union> ac_minor ` set (qt_applications tree))
       else {}))"

definition cleanup_commands :: "queue_tree \<Rightarrow> string list set" where
  "cleanup_commands tree =
     (let dev = qp_name (qt_port tree) in
      show_commands dev \<union>
      {args. \<exists>raw specs. args = delete_class dev raw \<and> drop_bit 16 raw = qt_major tree \<and>
         dynamic_class_parent (qt_major tree) (raw AND 0xffff) \<noteq> None \<and>
         classes tree = Ok specs \<and> raw \<notin> cs_classid ` set specs})"

section \<open>Installing stays within owned trees\<close>

lemma keeps_tc_json [keeps_intros]: "keeps P (th_tc H args) \<Longrightarrow> keeps P (tc_json H args what)"
  unfolding tc_json_def by (intro keeps_intros)

lemma keeps_each_set: "(\<And>x. x \<in> set xs \<Longrightarrow> keeps P (f x)) \<Longrightarrow> keeps P (io_each f xs)"
  by (induction xs) (auto intro!: keeps_intros)

lemma keeps_ensure_leaf:
  assumes "keeps P (th_tc H (show_qdiscs dev))" and "keeps P (th_tc H (add_leaf_qdisc dev major minor))"
  shows "keeps P (ensure_leaf_qdisc H dev major minor)"
  unfolding ensure_leaf_qdisc_def by (intro keeps_intros assms)

lemma keeps_verify:
  assumes "\<forall>args\<in>show_commands (qp_name (qt_port tree)). keeps P (th_tc H args)"
  shows "keeps P (verify_owned_tree H owned_roots tree)"
  using assms unfolding verify_owned_tree_def Let_def by (intro keeps_intros) (auto simp: show_commands_def)

lemma verify_owned: "snd (verify_owned_tree H owned_roots tree k) = Ok u \<Longrightarrow> (qp_name (qt_port tree), qt_major tree) \<in> owned_roots"
  by (auto simp: verify_owned_tree_def Let_def io_simps split: if_splits)

text \<open>What runs after a check may rely on what the check established.\<close>

lemma keeps_bind_checked:
  assumes "keeps P m" and "\<And>x s. snd (m s) = Ok x \<Longrightarrow> keeps P (f x)"
  shows "keeps P (io_bind m f)"
  using assms by (auto simp: keeps_def io_bind_run split: sum.splits)

lemma keeps_lift_bind:
  assumes "\<And>x. r = Ok x \<Longrightarrow> keeps P (f x)"
  shows "keeps P (io_bind (io_lift r) f)"
  using assms by (auto simp: keeps_def io_bind_run io_simps split: sum.splits)

lemma keeps_install_tree:
  assumes "\<forall>args\<in>install_commands owned_roots tree. keeps P (th_tc H args)"
  shows "keeps P (install_tree H owned_roots tree)"
  unfolding install_tree_def
proof (rule keeps_bind_checked)
  show "keeps P (verify_owned_tree H owned_roots tree)"
    using assms by (intro keeps_verify) (simp add: install_commands_def Let_def)
next
  fix u s assume "snd (verify_owned_tree H owned_roots tree s) = Ok u"
  then have "(qp_name (qt_port tree), qt_major tree) \<in> owned_roots" by (rule verify_owned)
  with assms show "keeps P (install_verified H tree)"
    unfolding install_verified_def Let_def
    by (intro keeps_lift_bind keeps_bind keeps_each_set keeps_ensure_leaf keeps_if keeps_pure)
       (auto simp: install_commands_def Let_def show_commands_def)
qed

lemma keeps_install_plan:
  assumes "\<forall>tree\<in>set (trees plan). \<forall>args\<in>install_commands owned_roots tree. keeps P (th_tc H args)"
  shows "keeps P (install_plan H owned_roots plan)"
  unfolding install_plan_def using assms by (intro keeps_each_set keeps_install_tree) auto

section \<open>The cleanup returns\<close>

lemma tc_json_forward: "clock_advances H \<Longrightarrow> th_instant_ns H k \<le> th_instant_ns H (fst (tc_json H args what k))"
  by (auto simp: tc_json_def io_bind_run io_simps clock_advances_def split: sum.splits)

lemma poll_forward: "clock_advances H \<Longrightarrow> th_instant_ns H k \<le> th_instant_ns H (fst (poll_drained H dev stale k))"
  using tc_json_forward [of H k] by (auto simp: poll_drained_def io_bind_run io_simps split: sum.splits)

lemma wait_drained_returns:
  assumes "clock_advances H"
  shows "\<exists>r. wait_drained H dev stale deadline k = Some r"
proof (induction "deadline - th_instant_ns H k" arbitrary: k rule: less_induct)
  case less
  let ?k = "fst (poll_drained H dev stale k)"
  have "th_instant_ns H k < th_instant_ns H (th_sleep_ms H 50 ?k)"
  proof -
    have "th_instant_ns H ?k + 1000000 * 50 \<le> th_instant_ns H (th_sleep_ms H 50 ?k)"
      using assms unfolding clock_advances_def by blast
    with poll_forward [OF assms, of k dev stale] show ?thesis by linarith
  qed
  then have "th_instant_ns H ?k < deadline \<Longrightarrow> \<exists>r. wait_drained H dev stale deadline (th_sleep_ms H 50 ?k) = Some r"
    using poll_forward [OF assms, of k dev stale] by (intro less) linarith
  then show ?case by (subst wait_drained.simps) (auto split: sum.split)
qed

lemma remove_unused_run:
  assumes "find_stale H tree k = (k1, found)"
  shows "remove_unused_priority_classes H tree k = (case found of
      Inl e \<Rightarrow> Some (k1, Err e)
    | Inr stale \<Rightarrow>
        if stale = [] then Some (k1, Ok ())
        else map_option (\<lambda>(k2, waited). case waited of Inl e \<Rightarrow> (k2, Err e) | Inr _ \<Rightarrow> delete_stale H (qp_name (qt_port tree)) stale k2)
          (wait_drained H (qp_name (qt_port tree)) (set (map upc_raw stale)) (th_instant_ns H k1 + 2000000000) k1))"
  using assms
  by (cases "wait_drained H (qp_name (qt_port tree)) (set (map upc_raw (projr found))) (th_instant_ns H k1 + 2000000000) k1")
     (auto simp: remove_unused_priority_classes_def Let_def split: sum.splits)

lemma remove_unused_returns: "clock_advances H \<Longrightarrow> \<exists>r. remove_unused_priority_classes H tree k = Some r"
proof -
  assume clock: "clock_advances H"
  obtain k1 found where found: "find_stale H tree k = (k1, found)" by fastforce
  show ?thesis
  proof (cases found)
    case (Inr stale)
    from wait_drained_returns [OF clock] obtain y where
      "wait_drained H (qp_name (qt_port tree)) (set (map upc_raw stale)) (th_instant_ns H k1 + 2000000000) k1 = Some y" by blast
    with Inr show ?thesis by (simp add: remove_unused_run [OF found])
  qed (simp add: remove_unused_run [OF found])
qed

lemma remove_each_returns: "clock_advances H \<Longrightarrow> \<exists>r. remove_unused_each H ts k = Some r"
proof (induction ts arbitrary: k)
  case (Cons t ts)
  from remove_unused_returns [OF Cons.prems, of t k] obtain k' r where
    "remove_unused_priority_classes H t k = Some (k', r)" by auto
  with Cons.IH [OF Cons.prems, of k'] show ?case by (auto split: sum.split)
qed simp

section \<open>The cleanup spares the classes of the plan\<close>

lemma keeps_poll: "keeps P (th_tc H (show_qdisc_stats dev)) \<Longrightarrow> keeps P (poll_drained H dev stale)"
  unfolding poll_drained_def by (intro keeps_intros)

lemma wait_drained_keeps:
  assumes "wait_drained H dev stale deadline k = Some y" and "keeps P (th_tc H (show_qdisc_stats dev))"
    and "\<forall>ms k. P k \<longrightarrow> P (th_sleep_ms H ms k)" and "P k"
  shows "P (fst y)"
proof -
  have "keeps P (th_tc H (show_qdisc_stats dev)) \<longrightarrow> (\<forall>ms k. P k \<longrightarrow> P (th_sleep_ms H ms k)) \<longrightarrow> P k \<longrightarrow> P (fst y)"
    using assms(1)
  proof (rule wait_drained.raw_induct [rotated], intro impI)
    fix wait H dev stale deadline k y
    assume IH: "\<And>H dev stale deadline k y. wait H dev stale deadline k = Some y \<Longrightarrow>
        keeps P (th_tc H (show_qdisc_stats dev)) \<longrightarrow> (\<forall>ms k. P k \<longrightarrow> P (th_sleep_ms H ms k)) \<longrightarrow> P k \<longrightarrow> P (fst y)"
      and step: "(case snd (poll_drained H dev stale k) of
        Inl e \<Rightarrow> Some (fst (poll_drained H dev stale k), Err e)
      | Inr done \<Rightarrow>
          if done then Some (fst (poll_drained H dev stale k), Ok ())
          else if deadline \<le> th_instant_ns H (fst (poll_drained H dev stale k))
          then Some (fst (poll_drained H dev stale k), Err (''priority_class_cleanup_backlog: '' @ dev))
          else wait H dev stale deadline (th_sleep_ms H 50 (fst (poll_drained H dev stale k)))) = Some y"
      and P: "keeps P (th_tc H (show_qdisc_stats dev))" "\<forall>ms k. P k \<longrightarrow> P (th_sleep_ms H ms k)" "P k"
    have polled: "P (fst (poll_drained H dev stale k))" using keepsD [OF keeps_poll [OF P(1)] P(3)] .
    with IH [of H dev stale deadline "th_sleep_ms H 50 (fst (poll_drained H dev stale k))" y] step P show "P (fst y)"
      by (auto split: sum.splits if_splits)
  qed
  with assms show ?thesis by blast
qed

lemma find_stale_Ok:
  assumes "snd (find_stale H tree k) = Ok stale" and "c \<in> set stale"
  shows "delete_class (qp_name (qt_port tree)) (upc_raw c) \<in> cleanup_commands tree"
proof -
  from assms(1) obtain specs es where specs: "classes tree = Ok specs"
    and unused: "unused_priority_classes (Some es) (qt_major tree) (set (map cs_classid specs)) = Ok stale"
    by (auto simp: find_stale_def io_bind_run io_simps unused_priority_classes_def res_simps split: sum.splits)
  obtain st where "stale = sort_key (\<lambda>c. (upc_client_parent c, upc_raw c)) st"
    and st: "list_all2 (stands_for (qt_major tree)) (filter (unused_entry (qt_major tree) (set (map cs_classid specs))) es) st"
    by (rule unused_classes_Ok [OF unused])
  with assms(2) have "c \<in> set st" by simp
  from stands_back [OF st this] obtain e where "unused_entry (qt_major tree) (set (map cs_classid specs)) e"
    "entry_raw e = Some (upc_raw c)" by (auto simp: stands_for_def)
  with specs show ?thesis by (auto simp: cleanup_commands_def Let_def unused_entry_def)
qed

lemma keeps_find_stale:
  assumes "\<forall>args\<in>cleanup_commands tree. keeps P (th_tc H args)"
  shows "keeps P (find_stale H tree)"
  unfolding find_stale_def using assms
  by (intro keeps_intros) (auto simp: cleanup_commands_def show_commands_def Let_def)

lemma keeps_delete_stale:
  assumes "\<forall>c\<in>set stale. keeps P (th_tc H (delete_class dev (upc_raw c)))"
    and "\<forall>args\<in>show_commands dev. keeps P (th_tc H args)"
  shows "keeps P (delete_stale H dev stale)"
  unfolding delete_stale_def Let_def using assms
  by (intro keeps_bind keeps_each_set keeps_if keeps_pure keeps_tc_json) (auto simp: show_commands_def)

lemma remove_unused_keeps:
  assumes "\<forall>args\<in>cleanup_commands tree. keeps P (th_tc H args)" and "\<forall>ms k. P k \<longrightarrow> P (th_sleep_ms H ms k)"
    and "P k" and "remove_unused_priority_classes H tree k = Some (k', r)"
  shows "P k'"
proof -
  let ?dev = "qp_name (qt_port tree)"
  have shown: "\<forall>args\<in>show_commands ?dev. keeps P (th_tc H args)" using assms(1) by (simp add: cleanup_commands_def Let_def)
  then have stats: "keeps P (th_tc H (show_qdisc_stats ?dev))" by (simp add: show_commands_def)
  obtain k1 found where found: "find_stale H tree k = (k1, found)" by fastforce
  then have "P k1" using keepsD [OF keeps_find_stale [OF assms(1)] assms(3)] by simp
  show ?thesis
  proof (cases found)
    case (Inr stale)
    with found have "\<forall>c\<in>set stale. keeps P (th_tc H (delete_class ?dev (upc_raw c)))"
      using find_stale_Ok [of H tree k stale] assms(1) by simp
    note delete = keepsD [OF keeps_delete_stale [OF this shown]]
    show ?thesis
    proof (cases "stale = []")
      case False
      with assms(4) found Inr obtain k2 w where w:
        "wait_drained H ?dev (set (map upc_raw stale)) (th_instant_ns H k1 + 2000000000) k1 = Some (k2, w)"
        "(case w of Inl e \<Rightarrow> (k2, Err e) | Inr _ \<Rightarrow> delete_stale H ?dev stale k2) = (k', r)"
        by (auto simp: remove_unused_run [OF found])
      from wait_drained_keeps [OF w(1) stats assms(2) \<open>P k1\<close>] delete [of k2] w(2) show ?thesis
        by (auto split: sum.splits)
    qed (use assms(4) found Inr \<open>P k1\<close> in \<open>auto simp: remove_unused_run [OF found]\<close>)
  qed (use assms(4) found \<open>P k1\<close> in \<open>auto simp: remove_unused_run [OF found]\<close>)
qed

lemma remove_each_keeps:
  assumes "\<forall>tree\<in>set ts. \<forall>args\<in>cleanup_commands tree. keeps P (th_tc H args)" and "\<forall>ms k. P k \<longrightarrow> P (th_sleep_ms H ms k)"
    and "P k" and "remove_unused_each H ts k = Some (k', r)"
  shows "P k'"
  using assms(1,3,4)
proof (induction ts arbitrary: k)
  case (Cons t ts)
  then obtain k1 r1 where t: "remove_unused_priority_classes H t k = Some (k1, r1)" by (auto simp: bind_eq_Some_conv)
  from remove_unused_keeps [OF _ assms(2) Cons.prems(2) t] Cons.prems(1) have "P k1" by auto
  with Cons t show ?case by (auto split: sum.splits)
qed simp

section \<open>Properties\<close>

text \<open>C20. The cleanup of unused classes always returns: when the monotonic clock does not run backwards
  and sleeping takes at least the requested time, the polling for drained queues ends for every tree,
  whatever the traffic-control tool reports.\<close>

theorem prune_returns:
  assumes "clock_advances H"
  shows "\<exists>k' result. prune_unused_classes_after_flow_reset H rt k = Some (k', result)"
  using remove_each_returns [OF assms]
  by (auto simp: prune_unused_classes_after_flow_reset_def split: option.split)

text \<open>C21. The cleanup deletes nothing but unused classes: whatever holds of the system and is kept by
  showing queues, by waiting, and by deleting classes in the Agent's dynamic ranges of a tree of the active
  plan that are not classes of this tree, still holds after the cleanup. So no class of the active plan
  and nothing outside the Agent's ranges is deleted.\<close>

theorem prune_spares_active:
  assumes "rt_active_plan rt = Some plan"
    and "\<forall>tree\<in>set (trees plan). \<forall>args\<in>cleanup_commands tree. keeps P (th_tc H args)"
    and "\<forall>ms k. P k \<longrightarrow> P (th_sleep_ms H ms k)" and "P k"
    and "prune_unused_classes_after_flow_reset H rt k = Some (k', result)"
  shows "P k'"
  using assms remove_each_keeps [OF assms(2-4)] by (simp add: prune_unused_classes_after_flow_reset_def)

text \<open>A tool that prints one stale class in the classic format until it is deleted and an empty list of
  qdiscs. The system is the log of the commands and the time in nanoseconds.\<close>

definition ex_tc :: "string list \<Rightarrow> (string list list \<times> nat, string) io" where
  "ex_tc args k = ((args # fst k, snd k),
     Ok (if args = show_class_dump ''lan'' \<and> delete_class ''lan'' 0x510105 \<notin> set (fst k)
         then ''class htb 51:105 parent 51:1'' else if args = show_class_dump ''lan'' then [] else ''[]''))"

definition ex_tc_host :: "(string list list \<times> nat) tc_host" where
  "ex_tc_host = \<lparr>th_tc = ex_tc, th_json = \<lambda>_. Some (JArray []), th_instant_ns = snd,
     th_sleep_ms = \<lambda>ms k. (fst k, snd k + 1000000 * ms)\<rparr>"

lemma ex_clock: "clock_advances ex_tc_host"
  by (simp add: clock_advances_def ex_tc_host_def ex_tc_def)

definition ex_installed :: priority_runtime where
  "ex_installed = ex_runtime\<lparr>rt_active_plan := Some \<lparr>plan_upload = ex_tree\<lparr>qt_major := upload_major\<rparr>, plan_downloads = [ex_tree]\<rparr>\<rparr>"

theorem prune_returns_witness:
  "\<exists>k' result. prune_unused_classes_after_flow_reset ex_tc_host ex_installed ([], 0) = Some (k', result)"
  by (rule prune_returns [OF ex_clock])

definition spares_plan :: "string list list \<times> nat \<Rightarrow> bool" where
  "spares_plan k \<longleftrightarrow> delete_class ''lan'' 0x51fffe \<notin> set (fst k)"

lemma ex_delete_bypass: "delete_class ''lan'' 0x51fffe \<notin> cleanup_commands (ex_tree\<lparr>qt_major := major\<rparr>)"
proof
  assume "delete_class ''lan'' 0x51fffe \<in> cleanup_commands (ex_tree\<lparr>qt_major := major\<rparr>)"
  then obtain raw specs where raw: "classid_text 0x51fffe = classid_text raw" "drop_bit 16 raw = major"
    "classes (ex_tree\<lparr>qt_major := major\<rparr>) = Ok specs" "raw \<notin> cs_classid ` set specs"
    by (auto simp: cleanup_commands_def show_commands_def show_qdiscs_def show_classes_def show_class_dump_def
        show_qdisc_stats_def delete_class_def ex_tree_def ex_port_def Let_def)
  from raw(1) have "raw = 0x51fffe"
    using parse_class_to_string [of raw] parse_class_to_string [of "0x51fffe"] by (simp add: classid_text_def class_to_string_def)
  with raw have "major = download_major" by (simp add: class_consts)
  with raw(3) have "specs = [root_spec ex_tree, bypass_spec ex_tree]" using ex_tree_classes by (simp add: ex_tree_def)
  with raw(4) \<open>raw = 0x51fffe\<close> show False by (simp add: bypass_spec_def ex_tree_def class_consts)
qed

theorem prune_spares_active_witness:
  "\<exists>k' result. prune_unused_classes_after_flow_reset ex_tc_host ex_installed ([], 0) = Some (k', result) \<and> spares_plan k'"
proof -
  let ?plan = "\<lparr>plan_upload = ex_tree\<lparr>qt_major := upload_major\<rparr>, plan_downloads = [ex_tree]\<rparr>"
  have "spares_plan (fst (ex_tc args k))" if "tree \<in> set (trees ?plan)" "args \<in> cleanup_commands tree" "spares_plan k" for tree args k
  proof -
    from that(1) have "tree = ex_tree\<lparr>qt_major := upload_major\<rparr> \<or> tree = ex_tree\<lparr>qt_major := download_major\<rparr>"
      by (auto simp: trees_def ex_tree_def)
    with that(2) ex_delete_bypass have "args \<noteq> delete_class ''lan'' 0x51fffe" by auto
    with that(3) show ?thesis by (auto simp: spares_plan_def ex_tc_def)
  qed
  then have kept: "\<forall>tree\<in>set (trees ?plan). \<forall>args\<in>cleanup_commands tree. keeps spares_plan (th_tc ex_tc_host args)"
    by (simp add: keeps_def ex_tc_host_def)
  obtain k' result where run: "prune_unused_classes_after_flow_reset ex_tc_host ex_installed ([], 0) = Some (k', result)"
    using remove_each_returns [OF ex_clock, of "trees ?plan" "([], 0)"]
    by (auto simp: prune_unused_classes_after_flow_reset_def ex_installed_def)
  have "spares_plan k'"
    by (rule prune_spares_active [OF _ kept _ _ run])
       (auto simp: ex_installed_def spares_plan_def ex_tc_host_def)
  with run show ?thesis by blast
qed

end
