(* ===== verification/Priority_Runtime.thy ===== *)
theory Priority_Runtime
  imports Priority_Queues
begin

text \<open>
  The transaction of the priority runtime (\<open>linux/qos_priority_runtime.rs\<close>): applying a snapshot plans
  the queues and the client map, writes a journal, installs the queues, publishes the map, commits the
  state file and rolls back what it did when a step fails. Restoring at startup, reconciling and the
  local emergency switch are built on it, as are the acknowledgements sent to the Collector
  (\<open>policy/executor.rs\<close>). A machine is the runtime's memory, its maps with the outside system, and the
  contents of its two files. Mutexes are not modelled: an operation runs to its end.
\<close>

section \<open>The environment\<close>

datatype runtime_file = StateFile | JournalFile

text \<open>Replacing a file by a temporary one: it fails before the rename, or it fails after it when the
  directory cannot be synchronised, or it is done.\<close>

datatype write_outcome = Written | NotRenamed string | NotSynced string

record ('h, 'k) runtime_host = "'k tc_host" +
  rh_maps :: "('h, 'k) map_kernel"
  rh_wire :: wire_env
  rh_disabled :: "'k \<Rightarrow> bool"
  rh_now_ms :: "'k \<Rightarrow> int option"
  rh_monotonic_ns :: "'k \<Rightarrow> u64"
  rh_sysfs :: "'k \<Rightarrow> sysfs"
  rh_fdb :: "'k \<Rightarrow> bridge_fdb_entry list res"
  rh_link_sys :: "'k \<Rightarrow> link_sys"
  rh_link_tables :: "'k \<Rightarrow> link_tables"
  rh_gateways :: "'k \<Rightarrow> ip_addr list"
  rh_read :: "'k \<Rightarrow> unit res"
  rh_write :: "runtime_file \<Rightarrow> 'k \<Rightarrow> 'k \<times> write_outcome"
  rh_remove :: "runtime_file \<Rightarrow> 'k \<Rightarrow> 'k \<times> bool"
  rh_encode_state :: "priority_state \<Rightarrow> string res"
  rh_decode_state :: "string \<Rightarrow> priority_state res"
  rh_encode_journal :: "priority_state option \<Rightarrow> priority_state \<Rightarrow> string list \<Rightarrow> string res"
  rh_evidence :: "string \<Rightarrow> ('k, unit) io"
  rh_debug :: "unit res \<Rightarrow> string"

record ('h, 'k) machine =
  mc_rt :: priority_runtime
  mc_maps :: "('h, 'k) priority_maps"
  mc_state_file :: "string option"
  mc_journal_file :: "string option"

abbreviation mc_kernel :: "('h, 'k) machine \<Rightarrow> 'k" where
  "mc_kernel m \<equiv> pm_kernel (mc_maps m)"

definition on_maps :: "(('h, 'k) priority_maps, 'a) io \<Rightarrow> (('h, 'k) machine, 'a) io" where
  "on_maps f m = (let (maps, r) = f (mc_maps m) in (m\<lparr>mc_maps := maps\<rparr>, r))"

definition on_kernel :: "('k, 'a) io \<Rightarrow> (('h, 'k) machine, 'a) io" where
  "on_kernel f = on_maps (map_op f)"

definition on_rt :: "(priority_runtime \<Rightarrow> priority_runtime) \<Rightarrow> (('h, 'k) machine, unit) io" where
  "on_rt f = io_modify (\<lambda>m. m\<lparr>mc_rt := f (mc_rt m)\<rparr>)"

section \<open>Files\<close>

definition max_state_bytes :: nat where
  "max_state_bytes = 2 * 1024 * 1024"

fun set_file :: "runtime_file \<Rightarrow> string option \<Rightarrow> ('h, 'k) machine \<Rightarrow> ('h, 'k) machine" where
  "set_file StateFile content m = m\<lparr>mc_state_file := content\<rparr>"
| "set_file JournalFile content m = m\<lparr>mc_journal_file := content\<rparr>"

definition atomic_write :: "('h, 'k) runtime_host \<Rightarrow> runtime_file \<Rightarrow> string \<Rightarrow> (('h, 'k) machine, unit) io" where
  "atomic_write H file contents =
     io_bind (on_kernel (\<lambda>k. let (k, outcome) = rh_write H file k in (k, Ok outcome))) (\<lambda>outcome.
     case outcome of
       NotRenamed e \<Rightarrow> io_err e
     | NotSynced e \<Rightarrow> io_bind (io_modify (set_file file (Some contents))) (\<lambda>_. io_err e)
     | Written \<Rightarrow> io_modify (set_file file (Some contents)))"

definition remove_journal :: "('h, 'k) runtime_host \<Rightarrow> (('h, 'k) machine, unit) io" where
  "remove_journal H =
     io_bind (on_kernel (\<lambda>k. let (k, removed) = rh_remove H JournalFile k in (k, Ok removed))) (\<lambda>removed.
     if removed then io_modify (set_file JournalFile None) else io_ok ())"

definition load_state_any :: "('h, 'k) runtime_host \<Rightarrow> (('h, 'k) machine, priority_state option) io" where
  "load_state_any H = io_read (\<lambda>m.
     case mc_state_file m of
       None \<Rightarrow> Ok None
     | Some bytes \<Rightarrow>
         and_then (rh_read H (mc_kernel m)) (\<lambda>_.
         if length bytes > max_state_bytes then Err ''priority_state_too_large''
         else and_then (rh_decode_state H bytes) (\<lambda>state.
              and_then (check_state state) (\<lambda>_. Ok (Some state)))))"

definition load_state :: "('h, 'k) runtime_host \<Rightarrow> string \<Rightarrow> (('h, 'k) machine, priority_state option) io" where
  "load_state H gateway =
     io_bind (io_get (\<lambda>m. rt_active (mc_rt m))) (\<lambda>active.
     if (case active of None \<Rightarrow> False | Some state \<Rightarrow> pst_gateway_id state = gateway) then io_ok active
     else io_bind (load_state_any H) (\<lambda>loaded.
       case loaded of
         None \<Rightarrow> io_ok None
       | Some state \<Rightarrow> if pst_gateway_id state \<noteq> gateway then io_ok None else io_ok (Some state)))"

definition write_journal ::
  "('h, 'k) runtime_host \<Rightarrow> priority_state option \<Rightarrow> priority_state \<Rightarrow> (('h, 'k) machine, unit) io" where
  "write_journal H previous next =
     io_bind (io_read (\<lambda>m. rh_encode_journal H previous next (rt_ifb (mc_rt m) # map qp_name (rt_ports (mc_rt m)))))
       (atomic_write H JournalFile)"

definition persist_state :: "('h, 'k) runtime_host \<Rightarrow> priority_state \<Rightarrow> (('h, 'k) machine, unit) io" where
  "persist_state H state = io_bind (io_lift (rh_encode_state H state)) (atomic_write H StateFile)"

section \<open>Queues\<close>

definition inspect :: "('h, 'k) runtime_host \<Rightarrow> string set \<Rightarrow> ('h, 'k) machine \<Rightarrow> delivery_layout res" where
  "inspect H selected m =
     inspect_at (rh_sysfs H (mc_kernel m)) (rt_interface (mc_rt m)) selected
       (map_err (\<lambda>e. ''priority_delivery_unknown: FDB dump failed: '' @ e) (rh_fdb H (mc_kernel m)))"

definition port_capacity :: "('h, 'k) runtime_host \<Rightarrow> ('h, 'k) machine \<Rightarrow> string \<Rightarrow> capacity res" where
  "port_capacity H m name =
     effective_capacity (rh_link_sys H (mc_kernel m)) (rh_link_tables H (mc_kernel m)) (rh_gateways H (mc_kernel m)) name
       (map_of (rt_capacity_bps (mc_rt m)) name)"

definition install :: "('h, 'k) runtime_host \<Rightarrow> priority_plan \<Rightarrow> (('h, 'k) machine, unit) io" where
  "install H plan = io_bind (io_get (\<lambda>m. rt_owned_roots (mc_rt m))) (\<lambda>owned_roots.
     on_kernel (install_plan (tc_host.truncate H) owned_roots plan))"

text \<open>The plan of a saved state. Unlike \<open>apply\<close>, it takes only configured capacities.\<close>

definition saved_budget :: "client_slot_lease list \<Rightarrow> active_application_class \<Rightarrow> application_budget res" where
  "saved_budget leases application =
     and_then (ok_or ''priority_state_invalid: missing app client lease'' (lease_by_mac leases (aac_mac application))) (\<lambda>lease.
     Ok \<lparr>ab_lease = lease, ab_policy_id = aac_policy_id application, ab_minor = aac_minor application,
         ab_upload_bps = aac_upload_bps application, ab_download_bps = aac_download_bps application\<rparr>)"

definition saved_plan :: "('h, 'k) runtime_host \<Rightarrow> priority_state \<Rightarrow> ('h, 'k) machine \<Rightarrow> priority_plan res" where
  "saved_plan H old m =
     (let rt = mc_rt m; leases = filter csl_active (pst_leases old) in
      and_then (from_snapshot (rh_wire H) (pst_snapshot old) (pst_gateway_id old) (rh_now_ms H (mc_kernel m))) (\<lambda>selected.
      and_then (inspect H (ps_clients selected) m) (\<lambda>layout.
      and_then (try_map (\<lambda>port. and_then (ok_or ''priority_capacity_unknown'' (map_of (rt_capacity_bps rt) (qp_name port)))
        (\<lambda>capacity. Ok (qp_ifindex port, capacity))) (rt_ports rt)) (\<lambda>capacities.
      and_then (try_map (saved_budget leases) (pst_application_classes old)) (\<lambda>application_budgets.
      build layout \<lparr>qp_name = rt_ifb rt, qp_ifindex = rt_ifb_ifindex rt\<rparr> structural_capacity_bps (rev capacities)
        (client_budgets (ps_totals selected) leases) application_budgets)))))"

definition restore_rates ::
  "('h, 'k) runtime_host \<Rightarrow> priority_state option \<Rightarrow> priority_plan \<Rightarrow> (('h, 'k) machine, unit) io" where
  "restore_rates H old attempted =
     (case old of
        None \<Rightarrow> install H (empty_priority_plan attempted)
      | Some old \<Rightarrow> io_bind (io_read (saved_plan H old)) (install H))"

section \<open>Applying a snapshot\<close>

definition emergency_disable :: "('h, 'k) runtime_host \<Rightarrow> (('h, 'k) machine, unit) io" where
  "emergency_disable H =
     io_bind (io_get (\<lambda>m. rt_emergency_disabled (mc_rt m))) (\<lambda>disabled.
     if disabled then io_ok ()
     else io_bind (on_maps (publish_empty (rh_maps H))) (\<lambda>_.
          io_bind (on_rt (\<lambda>rt. rt\<lparr>rt_force_reapply := True, rt_emergency_disabled := True\<rparr>)) (\<lambda>_.
          on_kernel (rh_evidence H ''emergency-disabled''))))"

text \<open>Undo the queues after a failed step; the journal stays when this fails too.\<close>

definition roll_back_queues ::
  "('h, 'k) runtime_host \<Rightarrow> priority_state option \<Rightarrow> priority_plan \<Rightarrow> string \<Rightarrow> string \<Rightarrow> (('h, 'k) machine, 'a) io" where
  "roll_back_queues H old attempted step error =
     io_bind (io_result (restore_rates H old attempted)) (\<lambda>rollback.
     case rollback of
       Inr _ \<Rightarrow> io_bind (remove_journal H) (\<lambda>_. io_err error)
     | Inl e \<Rightarrow> io_err (step @ error @ ''; queue rollback failed: '' @ e))"

definition roll_back_commit ::
  "('h, 'k) runtime_host \<Rightarrow> 'h \<Rightarrow> priority_state option \<Rightarrow> priority_plan \<Rightarrow> string \<Rightarrow> (('h, 'k) machine, 'a) io" where
  "roll_back_commit H previous old attempted error =
     io_bind (io_result (on_maps (restore (rh_maps H) previous))) (\<lambda>map_rollback.
     io_bind (io_result (restore_rates H old attempted)) (\<lambda>queue_rollback.
     io_bind (if is_ok map_rollback \<and> is_ok queue_rollback then remove_journal H else io_ok ()) (\<lambda>_.
     io_err (''priority state commit failed: '' @ error @ ''; map rollback: '' @ rh_debug H map_rollback @
       ''; queue rollback: '' @ rh_debug H queue_rollback))))"

definition committed_rt :: "planned \<Rightarrow> priority_runtime \<Rightarrow> priority_runtime" where
  "committed_rt p rt = rt\<lparr>rt_active := Some (pl_state p), rt_active_plan := Some (pl_plan p), rt_layout := pl_layout p,
     rt_force_reapply := False\<rparr>"

text \<open>A failure to write the evidence file is reported although everything is committed.\<close>

definition finish_commit :: "('h, 'k) runtime_host \<Rightarrow> planned \<Rightarrow> (('h, 'k) machine, unit) io" where
  "finish_commit H p =
     io_bind (on_rt (committed_rt p)) (\<lambda>_. io_bind (remove_journal H) (\<lambda>_. on_kernel (rh_evidence H ''applied'')))"

definition commit ::
  "('h, 'k) runtime_host \<Rightarrow> priority_state option \<Rightarrow> planned \<Rightarrow> 'h prepared_clients \<Rightarrow> (('h, 'k) machine, unit) io" where
  "commit H old p prepared =
     io_bind (write_journal H old (pl_state p)) (\<lambda>_.
     io_bind (io_result (install H (pl_plan p))) (\<lambda>installed.
     case installed of
       Inl error \<Rightarrow> roll_back_queues H old (pl_plan p) [] error
     | Inr _ \<Rightarrow>
         io_bind (io_result (on_maps (publish (rh_maps H) prepared))) (\<lambda>published.
         case published of
           Inl error \<Rightarrow> roll_back_queues H old (pl_plan p) ''map publish failed: '' error
         | Inr previous \<Rightarrow>
             io_bind (io_result (persist_state H (pl_state p))) (\<lambda>persisted.
             case persisted of
               Inl error \<Rightarrow> roll_back_commit H previous old (pl_plan p) error
             | Inr _ \<Rightarrow> finish_commit H p))))"

text \<open>The part of \<open>apply\<close> that plans the next state and the client map.\<close>

definition plan_and_prepare ::
  "('h, 'k) runtime_host \<Rightarrow> policy_snapshot \<Rightarrow> int \<Rightarrow> priority_state option \<Rightarrow> priority_selection \<Rightarrow>
    (('h, 'k) machine, planned \<times> 'h prepared_clients) io" where
  "plan_and_prepare H s now old selection =
     io_bind (io_read (\<lambda>m. plan_next (mc_rt m) (port_capacity H m) (inspect H (ps_clients selection) m)
       (rh_monotonic_ns H (mc_kernel m)) now s old selection)) (\<lambda>p.
     io_bind (on_maps (prepare (rh_maps H) (pl_entries p))) (\<lambda>prepared. io_ok (p, prepared)))"

definition networks_unknown :: string where
  "networks_unknown = ''priority_client_block_networks_unknown: client Internet blocks require configured IPv4 and IPv6 '' @
     ''LAN, routed-LAN or tunnel prefixes''"

definition apply_selected ::
  "('h, 'k) runtime_host \<Rightarrow> policy_snapshot \<Rightarrow> int option \<Rightarrow> priority_state option \<Rightarrow> priority_selection \<Rightarrow>
    (('h, 'k) machine, priority_selection) io" where
  "apply_selected H s now_ms old selection =
     io_bind (io_get (\<lambda>m. client_block_networks_ready (mc_maps m))) (\<lambda>networks_ready.
     if ps_blocked_macs selection \<noteq> {} \<and> \<not> networks_ready then io_err networks_unknown
     else io_bind (io_lift (ok_or ''clock_invalid'' now_ms)) (\<lambda>now.
     io_bind (io_get (\<lambda>m. rt_force_reapply (mc_rt m))) (\<lambda>force_reapply.
     if (case old of None \<Rightarrow> False | Some state \<Rightarrow> already_applied state s now) \<and> \<not> force_reapply
     then io_bind (on_rt (\<lambda>rt. rt\<lparr>rt_active := old\<rparr>)) (\<lambda>_. io_ok selection)
     else io_bind (plan_and_prepare H s now old selection) (\<lambda>(p, prepared).
          io_bind (commit H old p prepared) (\<lambda>_. io_ok selection)))))"

definition apply_frame ::
  "('h, 'k) runtime_host \<Rightarrow> policy_wire_frame \<Rightarrow> string \<Rightarrow> (('h, 'k) machine, priority_selection) io" where
  "apply_frame H snapshot gateway =
     (case snapshot of
        PolicySnapshot s \<Rightarrow>
          if snap_gateway_id s \<noteq> gateway then io_err ''priority_gateway_mismatch''
          else io_bind (load_state H gateway) (\<lambda>old.
            io_bind (io_lift (check_identity old s)) (\<lambda>_.
            io_bind (io_get (\<lambda>m. rh_now_ms H (mc_kernel m))) (\<lambda>now_ms.
            io_bind (io_lift (from_snapshot (rh_wire H) snapshot gateway now_ms)) (\<lambda>selection.
            apply_selected H s now_ms old selection))))
      | _ \<Rightarrow> io_err ''priority_snapshot_required'')"

definition apply_priority ::
  "('h, 'k) runtime_host \<Rightarrow> policy_wire_frame \<Rightarrow> string \<Rightarrow> (('h, 'k) machine, priority_selection) io" where
  "apply_priority H snapshot gateway =
     io_bind (io_get (\<lambda>m. rt_shutdown_done (mc_rt m))) (\<lambda>stopped.
     if stopped then io_err ''priority_runtime_stopped''
     else io_bind (io_get (\<lambda>m. rh_disabled H (mc_kernel m))) (\<lambda>disabled.
       if disabled
       then io_bind (emergency_disable H) (\<lambda>_.
         io_err ''emergency_disabled: local emergency policy disable marker is present'')
       else io_bind (on_rt (\<lambda>rt. rt\<lparr>rt_emergency_disabled := False\<rparr>)) (\<lambda>_. apply_frame H snapshot gateway)))"

section \<open>Acknowledgements\<close>

definition ack_now :: "int option \<Rightarrow> int" where
  "ack_now now_ms = max (case now_ms of None \<Rightarrow> 0 | Some now \<Rightarrow> now) 0"

definition policy_ack_frame ::
  "int option \<Rightarrow> policy_wire_frame \<Rightarrow> string \<Rightarrow> policy_capabilities \<Rightarrow> policy_ack_status \<Rightarrow> policy_result list \<Rightarrow>
    policy_wire_frame" where
  "policy_ack_frame now_ms snapshot boot_id capabilities status results =
     (let (gateway_id, controller_epoch, config_revision, bundle_generation, checksum) =
        (case snapshot_identity snapshot of
           Some identity \<Rightarrow> identity
         | None \<Rightarrow> (''invalid'', ''00000000-0000-4000-8000-000000000000'', 0, 0,
             ''sha256:0000000000000000000000000000000000000000000000000000000000000000''))
      in PolicyAck \<lparr>ack_wire_version = policy_wire_version, ack_gateway_id = gateway_id, ack_boot_id = boot_id,
           ack_controller_epoch = controller_epoch, ack_config_revision = config_revision,
           ack_bundle_generation = bundle_generation, ack_checksum = checksum, ack_status = status,
           ack_capabilities = capabilities, ack_results = results, ack_reported_at_ms = ack_now now_ms\<rparr>)"

definition snapshot_results ::
  "policy_wire_frame \<Rightarrow> policy_result_status \<Rightarrow> (string \<times> string) option \<Rightarrow> policy_result list" where
  "snapshot_results snapshot status error =
     (case snapshot of
        PolicySnapshot s \<Rightarrow> map (\<lambda>policy.
          if \<not> spec_enabled (entry_spec policy) \<and> error = None then policy_outcome policy ResultDisabled None None
          else policy_outcome policy status (map_option fst error) (map_option snd error)) (snap_policies s)
      | _ \<Rightarrow> [])"

text \<open>The reason code is what precedes the first colon and space of the message.\<close>

fun split_colon_space :: "string \<Rightarrow> string option" where
  "split_colon_space [] = None"
| "split_colon_space [c] = None"
| "split_colon_space (c # d # rest) =
     (if c = CHR '':'' \<and> d = CHR '' '' then Some [] else map_option (\<lambda>code. c # code) (split_colon_space (d # rest)))"

definition failure_code :: "string \<Rightarrow> string" where
  "failure_code message =
     (case split_colon_space message of None \<Rightarrow> ''priority_backend_failed'' | Some code \<Rightarrow> code)"

definition priority_failure_ack :: "int option \<Rightarrow> policy_wire_frame \<Rightarrow> string \<Rightarrow> string \<Rightarrow> policy_wire_frame" where
  "priority_failure_ack now_ms snapshot boot_id message =
     policy_ack_frame now_ms snapshot boot_id capabilities_unsupported AckFailed
       (snapshot_results snapshot ResultFailed (Some (failure_code message, message)))"

definition priority_runtime_capabilities :: "bool \<Rightarrow> policy_capability \<Rightarrow> policy_capabilities" where
  "priority_runtime_capabilities flow_bpf_ready client_block =
     (let application_capability = (if flow_bpf_ready then CapSupported else CapUnsupported) in
      \<lparr>cap_client_block = client_block, cap_client_limit = CapUnsupported, cap_application_block = application_capability,
       cap_application_limit = application_capability, cap_client_total_limit = None\<rparr>)"

definition is_client_block :: "policy_wire_frame \<Rightarrow> policy_result \<Rightarrow> bool" where
  "is_client_block snapshot result =
     (case snapshot of
        PolicySnapshot s \<Rightarrow>
          (case find (\<lambda>policy. entry_id policy = res_policy_id result) (snap_policies s) of
             None \<Rightarrow> False
           | Some policy \<Rightarrow> (let spec = entry_spec policy in
               spec_enabled spec \<and> act_kind (spec_action spec) = ActionBlock \<and> net_scope (spec_network spec) = ''internet'' \<and>
               sel_clients (spec_selectors spec) \<noteq> [] \<and> sel_applications (spec_selectors spec) = [] \<and>
               sel_categories (spec_selectors spec) = []))
      | _ \<Rightarrow> False)"

definition degraded_message :: string where
  "degraded_message = ''client packets are dropped on observed LAN ingress and delivery egress; '' @
     ''traffic outside those Agent hooks is not covered''"

definition degrade_result :: "policy_wire_frame \<Rightarrow> policy_result \<Rightarrow> policy_result" where
  "degrade_result snapshot result =
     (if is_client_block snapshot result \<and> res_status result = ResultApplied
      then result\<lparr>res_status := ResultDegraded, res_reason_code := Some ''priority_client_block_path_degraded'',
             res_message := Some degraded_message\<rparr>
      else result)"

definition success_ack ::
  "int option \<Rightarrow> bool \<Rightarrow> policy_wire_frame \<Rightarrow> string \<Rightarrow> bool \<Rightarrow> priority_selection \<Rightarrow> policy_wire_frame" where
  "success_ack now_ms degraded snapshot boot_id flow_bpf_ready selection =
     (let results = (if degraded then map (degrade_result snapshot) (ps_results selection) else ps_results selection);
          status = (if \<exists>result\<in>set results. res_status result \<in> {ResultFailed, ResultUnsupported, ResultDegraded}
                    then AckPartial else AckApplied)
      in policy_ack_frame now_ms snapshot boot_id
           (priority_runtime_capabilities flow_bpf_ready (if degraded then CapDegraded else CapSupported)) status results)"

definition apply_snapshot ::
  "('h, 'k) runtime_host \<Rightarrow> policy_wire_frame \<Rightarrow> string \<Rightarrow> string \<Rightarrow> bool \<Rightarrow> ('h, 'k) machine \<Rightarrow>
    ('h, 'k) machine \<times> policy_wire_frame" where
  "apply_snapshot H snapshot gateway boot_id flow_bpf_ready m =
     (let (m, applied) = apply_priority H snapshot gateway m; now_ms = rh_now_ms H (mc_kernel m) in
      (m, case applied of
            Inr selection \<Rightarrow> success_ack now_ms
              (ps_blocked_macs selection \<noteq> {} \<and> client_block_capability (mc_rt m) \<noteq> CapSupported)
              snapshot boot_id flow_bpf_ready selection
          | Inl error \<Rightarrow> priority_failure_ack now_ms snapshot boot_id error))"

fun ack_accepted :: "policy_wire_frame \<Rightarrow> bool" where
  "ack_accepted (PolicyAck f) = (ack_status f \<in> {AckApplied, AckPartial})"
| "ack_accepted _ = False"

definition restore_local ::
  "('h, 'k) runtime_host \<Rightarrow> string \<Rightarrow> bool \<Rightarrow> ('h, 'k) machine \<Rightarrow> ('h, 'k) machine \<times> policy_wire_frame option" where
  "restore_local H boot_id flow_bpf_ready m =
     (case snd (load_state_any H m) of
        Inr (Some state) \<Rightarrow>
          (let m = m\<lparr>mc_rt := (mc_rt m)\<lparr>rt_force_reapply := True, rt_active := Some state\<rparr>\<rparr>;
               (m, ack) = apply_snapshot H (pst_snapshot state) (pst_gateway_id state) boot_id flow_bpf_ready m
           in (m, if ack_accepted ack then Some (pst_snapshot state) else None))
      | _ \<Rightarrow> (m, None))"

definition reconcile_saved ::
  "('h, 'k) runtime_host \<Rightarrow> string \<Rightarrow> string \<Rightarrow> bool \<Rightarrow> ('h, 'k) machine \<Rightarrow> ('h, 'k) machine \<times> policy_wire_frame option" where
  "reconcile_saved H gateway boot_id flow_bpf_ready m =
     (case snd (load_state H gateway m) of
        Inr (Some state) \<Rightarrow>
          (let m = (if rt_active (mc_rt m) = None then m\<lparr>mc_rt := (mc_rt m)\<lparr>rt_force_reapply := True\<rparr>\<rparr> else m);
               (m, ack) = apply_snapshot H (pst_snapshot state) gateway boot_id flow_bpf_ready m
           in (m, Some ack))
      | _ \<Rightarrow> (m, None))"

text \<open>The error of a command that exits with a failure; the arguments are printed as a list of quoted strings.\<close>

definition debug_args :: "string list \<Rightarrow> string" where
  "debug_args args = ''['' @ join '', '' (map (\<lambda>a. CHR 0x22 # a @ [CHR 0x22]) args) @ '']''"

definition run_failure :: "string \<Rightarrow> string list \<Rightarrow> string \<Rightarrow> string" where
  "run_failure binary args stderr = binary @ '' '' @ debug_args args @ '': '' @ trim stderr"

section \<open>What the operations leave alone\<close>

lemma on_maps_run: "on_maps f m = (m\<lparr>mc_maps := fst (f (mc_maps m))\<rparr>, snd (f (mc_maps m)))"
  by (simp add: on_maps_def split_def Let_def)

text \<open>The runtime's memory is changed by assignments only, and the state file by its own replacement only.\<close>

definition same_rt :: "('h, 'k) machine \<Rightarrow> ('h, 'k) machine \<Rightarrow> bool" where
  "same_rt m m' \<longleftrightarrow> mc_rt m' = mc_rt m"

definition same_state :: "('h, 'k) machine \<Rightarrow> ('h, 'k) machine \<Rightarrow> bool" where
  "same_state m m' \<longleftrightarrow> mc_state_file m' = mc_state_file m"

lemma keeps_on_maps [keeps_intros]: "keeps (same_rt m) (on_maps f)" "keeps (same_state m) (on_maps f)"
  by (simp_all add: keeps_def on_maps_run same_rt_def same_state_def)

lemma keeps_on_kernel [keeps_intros]: "keeps (same_rt m) (on_kernel f)" "keeps (same_state m) (on_kernel f)"
  by (simp_all add: on_kernel_def keeps_on_maps)

lemma keeps_set_file_rt [keeps_intros]: "keeps (same_rt m) (io_modify (set_file which c))"
  by (cases which) (simp_all add: keeps_def io_simps same_rt_def)

lemma keeps_set_journal [keeps_intros]: "keeps (same_state m) (io_modify (set_file JournalFile c))"
  by (simp add: keeps_def io_simps same_state_def)

lemma keeps_write_outcome [keeps_intros]:
  "(\<And>e. keeps P (f e)) \<Longrightarrow> (\<And>e. keeps P (g e)) \<Longrightarrow> keeps P w \<Longrightarrow>
    keeps P (case outcome of NotRenamed e \<Rightarrow> f e | NotSynced e \<Rightarrow> g e | Written \<Rightarrow> w)"
  by (simp split: write_outcome.split)

lemma keeps_files [keeps_intros]:
  "keeps (same_rt m) (atomic_write H file c)" "keeps (same_state m) (atomic_write H JournalFile c)"
  "keeps (same_rt m) (remove_journal H)" "keeps (same_state m) (remove_journal H)"
  unfolding atomic_write_def remove_journal_def by (intro keeps_intros)+

lemma keeps_records [keeps_intros]:
  "keeps (same_rt m) (write_journal H old st)" "keeps (same_state m) (write_journal H old st)"
  "keeps (same_rt m) (persist_state H st)" "keeps (same_rt m) (load_state_any H)" "keeps (same_rt m) (load_state H g)"
  unfolding write_journal_def persist_state_def load_state_any_def load_state_def by (intro keeps_intros)+

lemma keeps_queues [keeps_intros]:
  "keeps (same_rt m) (install H plan)" "keeps (same_state m) (install H plan)"
  "keeps (same_rt m) (restore_rates H old plan)" "keeps (same_state m) (restore_rates H old plan)"
  unfolding restore_rates_def install_def by (intro keeps_intros)+

lemma keeps_roll_back [keeps_intros]:
  "keeps (same_rt m) (roll_back_queues H old plan step e)" "keeps (same_rt m) (roll_back_commit H previous old plan e)"
  unfolding roll_back_queues_def roll_back_commit_def by (intro keeps_intros)+

lemma roll_back_fails:
  "\<exists>e'. snd (roll_back_queues H old plan step e m) = Err e'" "\<exists>e'. snd (roll_back_commit H previous old plan e m) = Err e'"
  by (auto simp: roll_back_queues_def roll_back_commit_def io_bind_run io_simps split: sum.split)

section \<open>The transaction\<close>

lemma persist_Ok:
  assumes "persist_state H st m = (m', Ok u)"
  shows "\<exists>bytes. rh_encode_state H st = Ok bytes \<and> mc_state_file m' = Some bytes"
  using assms
  by (auto simp: persist_state_def atomic_write_def on_kernel_def io_bind_run io_simps split: sum.splits write_outcome.splits)

lemma rt_of: "keeps (same_rt m) f \<Longrightarrow> mc_rt (fst (f m)) = mc_rt m"
  using keepsD [of "same_rt m" f m] by (simp add: same_rt_def)

lemma state_of: "keeps (same_state m) f \<Longrightarrow> mc_state_file (fst (f m)) = mc_state_file m"
  using keepsD [of "same_state m" f m] by (simp add: same_state_def)

lemmas rt_frame = keeps_on_maps(1) [THEN rt_of] keeps_on_kernel(1) [THEN rt_of] keeps_files(1,3) [THEN rt_of]
  keeps_records(1,3,4,5) [THEN rt_of] keeps_queues(1,3) [THEN rt_of] keeps_roll_back [THEN rt_of]

lemmas state_frame = keeps_on_maps(2) [THEN state_of] keeps_on_kernel(2) [THEN state_of] keeps_files(4) [THEN state_of]

lemma on_rt_run: "on_rt f m = (m\<lparr>mc_rt := f (mc_rt m)\<rparr>, Ok ())"
  by (simp add: on_rt_def io_simps)

lemma roll_back_snd: "snd (roll_back_queues H old plan step e m) = Ok u \<longleftrightarrow> False"
  "snd (roll_back_commit H previous old plan e m) = Ok v \<longleftrightarrow> False"
  using roll_back_fails by (metis Inl_Inr_False)+

lemma finish_outcome:
  "mc_rt (fst (finish_commit H p m)) = committed_rt p (mc_rt m)" "mc_state_file (fst (finish_commit H p m)) = mc_state_file m"
  by (auto simp: finish_commit_def io_bind_run on_rt_run rt_frame state_frame split: sum.split)

lemma commit_outcome:
  "(mc_rt (fst (commit H old p prepared m)) = mc_rt m \<and> (\<exists>e. snd (commit H old p prepared m) = Err e)) \<or>
    (mc_rt (fst (commit H old p prepared m)) = committed_rt p (mc_rt m) \<and>
      (\<exists>bytes. rh_encode_state H (pl_state p) = Ok bytes \<and> mc_state_file (fst (commit H old p prepared m)) = Some bytes))"
proof -
  define m1 where "m1 = fst (write_journal H old (pl_state p) m)"
  define m2 where "m2 = fst (install H (pl_plan p) m1)"
  define m3 where "m3 = fst (on_maps (publish (rh_maps H) prepared) m2)"
  define m4 where "m4 = fst (persist_state H (pl_state p) m3)"
  note ms = m1_def [symmetric] m2_def [symmetric] m3_def [symmetric] m4_def [symmetric]
  have rt: "mc_rt m1 = mc_rt m" "mc_rt m2 = mc_rt m" "mc_rt m3 = mc_rt m" "mc_rt m4 = mc_rt m"
    by (simp_all add: m1_def m2_def m3_def m4_def rt_frame)
  note run = commit_def io_bind_run io_simps ms rt rt_frame roll_back_fails
  show ?thesis
  proof (cases "snd (write_journal H old (pl_state p) m)")
    case journal: (Inr u)
    show ?thesis
    proof (cases "snd (install H (pl_plan p) m1)")
      case installed: (Inr v)
      show ?thesis
      proof (cases "snd (on_maps (publish (rh_maps H) prepared) m2)")
        case published: (Inr h)
        show ?thesis
        proof (cases "snd (persist_state H (pl_state p) m3)")
          case (Inr w)
          then have "persist_state H (pl_state p) m3 = (m4, Ok w)" by (simp add: m4_def prod_eq_iff)
          from persist_Ok [OF this] Inr journal installed published show ?thesis by (simp add: run finish_outcome)
        qed (simp add: run journal installed published)
      qed (simp add: run journal installed)
    qed (simp add: run journal)
  qed (simp add: run)
qed

text \<open>A run of \<open>apply\<close> keeps the policy, adopts a saved state that is still valid, or commits a planned state.\<close>

definition same_policy :: "priority_runtime \<Rightarrow> priority_runtime \<Rightarrow> bool" where
  "same_policy rt rt' \<longleftrightarrow> rt_active rt' = rt_active rt \<and> rt_active_plan rt' = rt_active_plan rt \<and> rt_layout rt' = rt_layout rt"

definition adopts :: "priority_state option \<Rightarrow> policy_snapshot \<Rightarrow> priority_runtime \<Rightarrow> priority_runtime \<Rightarrow> bool" where
  "adopts old s rt rt' \<longleftrightarrow> (\<exists>st now. old = Some st \<and> already_applied st s now \<and> rt_active rt' = Some st \<and>
     rt_active_plan rt' = rt_active_plan rt \<and> rt_layout rt' = rt_layout rt)"

definition commits ::
  "('h, 'k) runtime_host \<Rightarrow> priority_state option \<Rightarrow> policy_snapshot \<Rightarrow> priority_selection \<Rightarrow> priority_runtime \<Rightarrow>
    ('h, 'k) machine \<Rightarrow> bool" where
  "commits H old s sel rt m' \<longleftrightarrow> (\<exists>p capacity_of inspected clock now bytes.
     plan_next rt capacity_of inspected clock now s old sel = Ok p \<and>
     rt_active (mc_rt m') = Some (pl_state p) \<and> rt_active_plan (mc_rt m') = Some (pl_plan p) \<and>
     rt_layout (mc_rt m') = pl_layout p \<and> rh_encode_state H (pl_state p) = Ok bytes \<and> mc_state_file m' = Some bytes)"

lemma plan_and_prepare_Ok:
  assumes "snd (plan_and_prepare H s now old sel m) = Ok (p, prepared)"
  shows "\<exists>capacity_of inspected clock. plan_next (mc_rt m) capacity_of inspected clock now s old sel = Ok p"
  using assms by (auto simp: plan_and_prepare_def io_bind_run io_simps split: sum.splits)

lemma plan_and_prepare_rt: "mc_rt (fst (plan_and_prepare H s now old sel m)) = mc_rt m"
  unfolding plan_and_prepare_def by (rule rt_of) (intro keeps_intros)

lemma apply_selected_outcome:
  assumes "apply_selected H s now_ms old sel m = (m', r)"
  shows "((\<exists>e. r = Err e) \<and> same_policy (mc_rt m) (mc_rt m')) \<or> (r = Ok sel \<and> adopts old s (mc_rt m) (mc_rt m')) \<or>
    commits H old s sel (mc_rt m) m'"
proof (cases "(ps_blocked_macs sel \<noteq> {} \<and> \<not> client_block_networks_ready (mc_maps m)) \<or> now_ms = None")
  case True
  with assms show ?thesis by (auto simp: apply_selected_def io_bind_run io_simps same_policy_def split: if_splits)
next
  case False
  then obtain now where now: "now_ms = Some now" by auto
  show ?thesis
  proof (cases "(case old of None \<Rightarrow> False | Some state \<Rightarrow> already_applied state s now) \<and> \<not> rt_force_reapply (mc_rt m)")
    case True
    with False assms now show ?thesis
      by (auto simp: apply_selected_def io_bind_run io_simps on_rt_run adopts_def split: option.splits)
  next
    case replan: False
    obtain m1 planned where m1: "plan_and_prepare H s now old sel m = (m1, planned)" by fastforce
    then have rt: "mc_rt m1 = mc_rt m" using plan_and_prepare_rt [of H s now old sel m] by simp
    have run: "apply_selected H s now_ms old sel m = (case planned of Inl e \<Rightarrow> (m1, Err e)
      | Inr (p, prepared) \<Rightarrow> io_bind (commit H old p prepared) (\<lambda>_. io_ok sel) m1)"
      using False replan m1 unfolding now by (auto simp: apply_selected_def io_bind_run io_simps split: sum.splits prod.splits)
    show ?thesis
    proof (cases planned)
      case (Inr pp)
      then obtain p prepared where pp: "planned = Ok (p, prepared)" by (cases pp) auto
      with plan_and_prepare_Ok [of H s now old sel m p prepared] m1 obtain capacity_of inspected clock where
        plan: "plan_next (mc_rt m) capacity_of inspected clock now s old sel = Ok p" by auto
      have m': "m' = fst (commit H old p prepared m1)" "r = map_sum id (\<lambda>_. sel) (snd (commit H old p prepared m1))"
        using assms pp by (auto simp: run io_bind_run io_simps split: sum.splits)
      from commit_outcome [of H old p prepared m1] show ?thesis
      proof
        assume "mc_rt (fst (commit H old p prepared m1)) = mc_rt m1 \<and> (\<exists>e. snd (commit H old p prepared m1) = Err e)"
        with rt show ?thesis by (auto simp: m' same_policy_def)
      next
        assume "mc_rt (fst (commit H old p prepared m1)) = committed_rt p (mc_rt m1) \<and>
          (\<exists>bytes. rh_encode_state H (pl_state p) = Ok bytes \<and> mc_state_file (fst (commit H old p prepared m1)) = Some bytes)"
        with plan have "commits H old s sel (mc_rt m) m'" unfolding commits_def m' committed_rt_def by fastforce
        then show ?thesis by blast
      qed
    qed (use assms run rt in \<open>auto simp: same_policy_def\<close>)
  qed
qed

lemma apply_frame_outcome:
  assumes "apply_frame H frame gateway m = (m', r)"
  shows "((\<exists>e. r = Err e) \<and> same_policy (mc_rt m) (mc_rt m')) \<or>
    (\<exists>s old sel now_ms. frame = PolicySnapshot s \<and> snap_gateway_id s = gateway \<and> snd (load_state H gateway m) = Ok old \<and>
       check_identity old s = Ok () \<and> from_snapshot (rh_wire H) frame gateway now_ms = Ok sel \<and>
       (r = Ok sel \<and> adopts old s (mc_rt m) (mc_rt m') \<or> commits H old s sel (mc_rt m) m'))"
proof (cases "\<exists>s. frame = PolicySnapshot s \<and> snap_gateway_id s = gateway")
  case False
  with assms show ?thesis
    by (cases frame) (auto simp: apply_frame_def io_simps same_policy_def split: if_splits)
next
  case True
  then obtain s where s: "frame = PolicySnapshot s" "snap_gateway_id s = gateway" by blast
  define m1 where "m1 = fst (load_state H gateway m)"
  have rt: "mc_rt m1 = mc_rt m" by (simp add: m1_def rt_frame)
  let ?now = "rh_now_ms H (mc_kernel m1)"
  show ?thesis
  proof (cases "\<exists>old sel. snd (load_state H gateway m) = Ok old \<and> check_identity old s = Ok () \<and>
      from_snapshot (rh_wire H) frame gateway ?now = Ok sel")
    case True
    then obtain old sel where ok: "snd (load_state H gateway m) = Ok old" "check_identity old s = Ok ()"
      "from_snapshot (rh_wire H) frame gateway ?now = Ok sel" by blast
    with assms s have "apply_selected H s ?now old sel m1 = (m', r)"
      by (simp add: apply_frame_def io_bind_run io_simps m1_def [symmetric])
    from apply_selected_outcome [OF this] show ?thesis unfolding rt using ok s by blast
  next
    case False
    then have "(\<exists>e. r = Err e) \<and> mc_rt m' = mc_rt m"
      using assms s rt
      by (cases "from_snapshot (rh_wire H) frame gateway ?now")
         (auto simp: apply_frame_def io_bind_run io_simps m1_def [symmetric] split: sum.splits, metis)
    then show ?thesis by (simp add: same_policy_def)
  qed
qed

text \<open>The emergency flag does not take part in loading a state.\<close>

lemma load_state_flag:
  "snd (load_state H gateway (m\<lparr>mc_rt := (mc_rt m)\<lparr>rt_emergency_disabled := b\<rparr>\<rparr>)) = snd (load_state H gateway m)"
  by (simp add: load_state_def load_state_any_def io_bind_run io_simps split: sum.split option.split)

lemma emergency_disable_policy: "same_policy (mc_rt m) (mc_rt (fst (emergency_disable H m)))"
  by (auto simp: emergency_disable_def io_bind_run io_simps on_rt_run same_policy_def rt_frame split: sum.split)

lemma apply_outcome:
  assumes "apply_priority H frame gateway m = (m', r)"
  shows "((\<exists>e. r = Err e) \<and> same_policy (mc_rt m) (mc_rt m')) \<or>
    (\<exists>s old sel now_ms rt. frame = PolicySnapshot s \<and> snap_gateway_id s = gateway \<and> snd (load_state H gateway m) = Ok old \<and>
       check_identity old s = Ok () \<and> from_snapshot (rh_wire H) frame gateway now_ms = Ok sel \<and> same_policy (mc_rt m) rt \<and>
       (r = Ok sel \<and> adopts old s rt (mc_rt m') \<or> commits H old s sel rt m'))"
proof -
  let ?m = "m\<lparr>mc_rt := (mc_rt m)\<lparr>rt_emergency_disabled := False\<rparr>\<rparr>"
  consider "rt_shutdown_done (mc_rt m)" | "\<not> rt_shutdown_done (mc_rt m)" "rh_disabled H (mc_kernel m)"
    | "apply_frame H frame gateway ?m = (m', r)"
    using assms by (auto simp: apply_priority_def io_bind_run io_simps on_rt_run split: if_splits)
  then show ?thesis
  proof cases
    case 2
    with assms emergency_disable_policy [of m H] show ?thesis
      by (auto simp: apply_priority_def io_bind_run io_simps split: sum.splits)
  next
    case 3
    have "same_policy (mc_rt m) (mc_rt ?m)" "same_policy (mc_rt ?m) rt \<Longrightarrow> same_policy (mc_rt m) rt" for rt
      by (simp_all add: same_policy_def)
    with apply_frame_outcome [OF 3] show ?thesis unfolding load_state_flag by blast
  qed (use assms in \<open>auto simp: apply_priority_def io_bind_run io_simps same_policy_def\<close>)
qed

section \<open>Runs of the runtime\<close>

text \<open>One step of a running Agent that serves the gateway \<open>g\<close>: a snapshot from the Collector, the periodic
  reconciliation, the emergency switch, or a change of anything outside the runtime's memory: files, maps
  and kernel.\<close>

inductive runtime_step :: "('h, 'k) runtime_host \<Rightarrow> string \<Rightarrow> ('h, 'k) machine \<Rightarrow> ('h, 'k) machine \<Rightarrow> bool"
  for H :: "('h, 'k) runtime_host" and g :: string where
  step_apply: "apply_snapshot H snapshot g boot_id flow_bpf_ready m = (m', ack) \<Longrightarrow> runtime_step H g m m'"
| step_reconcile: "reconcile_saved H g boot_id flow_bpf_ready m = (m', reply) \<Longrightarrow> runtime_step H g m m'"
| step_disable: "emergency_disable H m = (m', result) \<Longrightarrow> runtime_step H g m m'"
| step_outside: "mc_rt m' = mc_rt m \<Longrightarrow> runtime_step H g m m'"

text \<open>A state of the same gateway that is loadable and not older.\<close>

definition supersedes :: "string \<Rightarrow> priority_state \<Rightarrow> priority_state option \<Rightarrow> bool" where
  "supersedes g st active \<longleftrightarrow> (\<exists>st'. active = Some st' \<and> pst_gateway_id st' = g \<and> check_state st' = Ok () \<and>
     pst_config_revision st \<le> pst_config_revision st' \<and> pst_generation st \<le> pst_generation st')"

lemma supersedes_refl: "pst_gateway_id st = g \<Longrightarrow> check_state st = Ok () \<Longrightarrow> supersedes g st (Some st)"
  by (simp add: supersedes_def)

lemma load_state_active:
  "rt_active (mc_rt m) = Some st \<Longrightarrow> pst_gateway_id st = g \<Longrightarrow> load_state H g m = (m, Ok (Some st))"
  by (simp add: load_state_def io_bind_run io_simps)

lemma checked_add_one_le: "checked_add_w (a :: u32) 1 = Some b \<Longrightarrow> a \<le> b"
  by (auto simp: checked_add_w_def word_le_nat_alt unat_add_lem [THEN iffD1] split: if_splits)

lemma planned_supersedes:
  assumes "check_identity (Some st) s = Ok ()" and "snap_gateway_id s = g"
    and "from_snapshot env (PolicySnapshot s) g now_ms = Ok sel"
    and "plan_next rt capacity_of inspected clock now s (Some st) sel = Ok p"
  shows "supersedes g st (Some (pl_state p))"
proof -
  have "check_state (pl_state p) = Ok ()" using planned_state_wf [OF assms(3,4)] by (simp add: check_state_iff)
  moreover have "pst_config_revision st \<le> snap_config_revision s" using assms(1) by (auto simp: check_identity_def split: if_splits)
  moreover obtain leases cs gen where "next_generation (Some st) = Some gen"
    "pl_state p = next_state s leases cs gen (expiry_ms_of sel s)" by (rule plan_next_Ok [OF assms(4)])
  moreover from this have "pst_generation st \<le> gen" by (auto simp: next_generation_def bind_eq_Some_conv dest: checked_add_one_le split: if_splits)
  ultimately show ?thesis using assms(2) by (simp add: supersedes_def next_state_def)
qed

lemma apply_supersedes:
  assumes "rt_active (mc_rt m) = Some st" "pst_gateway_id st = g" "check_state st = Ok ()"
    and "apply_priority H frame g m = (m', r)"
  shows "supersedes g st (rt_active (mc_rt m'))"
  using apply_outcome [OF assms(4)]
proof (elim disjE exE conjE)
  fix s old sel now_ms rt
  assume "frame = PolicySnapshot s" "snap_gateway_id s = g" "snd (load_state H g m) = Ok old" "check_identity old s = Ok ()"
    "from_snapshot (rh_wire H) frame g now_ms = Ok sel" "commits H old s sel rt m'"
  then show ?thesis
    using load_state_active [OF assms(1,2), of H] planned_supersedes [of st s g "rh_wire H" now_ms sel]
    by (auto simp: commits_def)
qed (use assms supersedes_refl [OF assms(2,3)] load_state_active [OF assms(1,2), of H] in \<open>auto simp: same_policy_def adopts_def\<close>)

lemma apply_snapshot_fst: "fst (apply_snapshot H frame g boot ready m) = fst (apply_priority H frame g m)"
  by (simp add: apply_snapshot_def split_def Let_def)

lemma step_supersedes:
  assumes "runtime_step H g m m'" and "rt_active (mc_rt m) = Some st" "pst_gateway_id st = g" "check_state st = Ok ()"
  shows "supersedes g st (rt_active (mc_rt m'))"
  using assms(1)
proof cases
  case (step_apply snapshot boot_id flow_bpf_ready ack)
  then have "m' = fst (apply_priority H snapshot g m)" using apply_snapshot_fst by (metis fst_conv)
  with apply_supersedes [OF assms(2-4), of H snapshot m'] show ?thesis by (metis prod.collapse)
next
  case (step_reconcile boot_id flow_bpf_ready reply)
  then have "m' = fst (apply_priority H (pst_snapshot st) g m)"
    using load_state_active [OF assms(2,3), of H] assms(2) apply_snapshot_fst [of H "pst_snapshot st" g boot_id flow_bpf_ready m]
    by (auto simp: reconcile_saved_def split_def Let_def)
  with apply_supersedes [OF assms(2-4), of H "pst_snapshot st" m'] show ?thesis by (metis prod.collapse)
next
  case (step_disable result)
  with emergency_disable_policy [of m H] assms supersedes_refl [OF assms(3,4)] show ?thesis by (auto simp: same_policy_def)
next
  case step_outside
  with assms supersedes_refl [OF assms(3,4)] show ?thesis by simp
qed

section \<open>Rolling back\<close>

text \<open>A port without a configured capacity makes the rollback to a saved state fail, although \<open>apply\<close> plans
  such a port with its measured capacity.\<close>

lemma try_map_None: "x \<in> set xs \<Longrightarrow> f x = Err e \<Longrightarrow> try_map f xs \<noteq> Ok ys"
  by (induction xs arbitrary: ys) (auto simp: res_simps)

lemma rollback_needs_configuration:
  assumes "port \<in> set (rt_ports (mc_rt m))" and "map_of (rt_capacity_bps (mc_rt m)) (qp_name port) = None"
  shows "\<exists>e. snd (restore_rates H (Some old) attempted m) = Err e"
proof -
  have "try_map (\<lambda>port. and_then (ok_or ''priority_capacity_unknown'' (map_of (rt_capacity_bps (mc_rt m)) (qp_name port)))
      (\<lambda>capacity. Ok (qp_ifindex port, capacity))) (rt_ports (mc_rt m)) \<noteq> Ok cs" for cs
    by (rule try_map_None [OF assms(1), where e = "''priority_capacity_unknown''"]) (simp add: assms(2) ok_or_def and_then_def)
  then have "saved_plan H old m \<noteq> Ok plan" for plan by (auto simp: saved_plan_def Let_def res_simps)
  then show ?thesis
    by (cases "saved_plan H old m") (auto simp: restore_rates_def io_bind_run io_simps)
qed

section \<open>Failure acknowledgements\<close>

lemma split_colon_space_at:
  assumes "split_colon_space (code @ '':'') = None"
  shows "split_colon_space (code @ CHR '':'' # CHR '' '' # rest) = Some code"
  using assms
proof (induction code rule: split_colon_space.induct)
  case (2 c)
  then show ?case by (auto split: if_splits)
next
  case (3 c d code)
  then show ?case by (auto split: if_splits)
qed simp

lemma try_fold_each: "try_fold f s xs = Ok s' \<Longrightarrow> x \<in> set xs \<Longrightarrow> \<exists>s1 s2. f s1 x = Ok s2"
  by (induction xs arbitrary: s) (auto simp: res_simps)

lemma long_code_rejected:
  assumes "p \<in> set (snap_policies s)" and "128 < length (failure_code message)"
  shows "validate_frame env (priority_failure_ack now_ms (PolicySnapshot s) boot_id message) \<noteq> Ok ()"
proof
  assume "validate_frame env (priority_failure_ack now_ms (PolicySnapshot s) boot_id message) = Ok ()"
  then obtain seen where "try_fold validate_one_result {} (snapshot_results (PolicySnapshot s) ResultFailed (Some (failure_code message, message))) = Ok seen"
    by (auto simp: validate_frame_def priority_failure_ack_def policy_ack_frame_def snapshot_identity_def validate_ack_def
        validate_results_def res_simps split: if_splits)
  moreover have "\<not> (\<exists>seen'. validate_one_result seen r = Ok seen')" if "res_reason_code r = Some (failure_code message)" for seen r
    using that assms(2) by (auto simp: validate_one_result_def is_some_and_def bad_text_def res_simps)
  moreover have "policy_outcome p ResultFailed (Some (failure_code message)) (Some message)
      \<in> set (snapshot_results (PolicySnapshot s) ResultFailed (Some (failure_code message, message)))"
    using assms(1) by (auto simp: snapshot_results_def)
  ultimately show False using try_fold_each [where f = validate_one_result] by (fastforce simp: policy_outcome_def)
qed

section \<open>Properties\<close>


text \<open>C4. The policy never goes back: over any sequence of applied snapshots, reconciliations, uses of the
  emergency switch and changes outside the runtime, once a state of the served gateway is active, the active
  state is always a loadable state of this gateway whose configuration revision and map generation are at
  least those of the earlier state.\<close>

theorem runtime_monotone:
  assumes "rtranclp (runtime_step H g) m m'"
    and "rt_active (mc_rt m) = Some st" "pst_gateway_id st = g" "check_state st = Ok ()"
  shows "supersedes g st (rt_active (mc_rt m'))"
  using assms(1)
proof (induction rule: rtranclp_induct)
  case base
  with assms supersedes_refl [OF assms(3,4)] show ?case by simp
next
  case (step m1 m2)
  then obtain st1 where "rt_active (mc_rt m1) = Some st1" "pst_gateway_id st1 = g" "check_state st1 = Ok ()"
    "pst_config_revision st \<le> pst_config_revision st1" "pst_generation st \<le> pst_generation st1" by (auto simp: supersedes_def)
  with step_supersedes [OF step(2), of st1] show ?case by (auto simp: supersedes_def)
qed

text \<open>A failed class update cannot be reported: the Agent answers with an acknowledgement whose reason
  code is the printed command line, which for a class of one megabit per second is longer than the 128 bytes
  that the protocol allows. So the acknowledgement does not pass the validation that every frame passes before
  it is sent.\<close>

theorem tc_failure_not_reportable:
  assumes "snap_policies s \<noteq> []"
  shows "validate_frame env (priority_failure_ack now_ms (PolicySnapshot s) boot_id
    (run_failure ''tc'' (replace_class ''br-lan'' \<lparr>cs_classid = 0x520100, cs_parent = 0x520001, cs_rate_bps = 1000000\<rparr>) stderr))
    \<noteq> Ok ()"
proof -
  let ?args = "replace_class ''br-lan'' \<lparr>cs_classid = 0x520100, cs_parent = 0x520001, cs_rate_bps = 1000000\<rparr>"
  let ?code = "''tc '' @ debug_args ?args"
  have "split_colon_space (?code @ '':'') = None" "128 < length ?code" by code_simp+
  from split_colon_space_at [OF this(1), of "trim stderr"] this(2)
  have "128 < length (failure_code (run_failure ''tc'' ?args stderr))"
    by (simp add: failure_code_def run_failure_def)
  with assms show ?thesis using long_code_rejected by (meson list.set_sel(1))
qed

text \<open>A host without traffic control, on which a state is active already.\<close>

definition ex_host :: "(u32, ex_kernel_state) runtime_host" where
  "ex_host = \<lparr>th_tc = \<lambda>_. io_err ''tc unavailable'', th_json = \<lambda>_. None, th_instant_ns = \<lambda>_. 0, th_sleep_ms = \<lambda>_ k. k,
     rh_maps = ex_map_kernel, rh_wire = ex_env, rh_disabled = \<lambda>_. False, rh_now_ms = \<lambda>_. Some 1600000000000,
     rh_monotonic_ns = \<lambda>_. 1000, rh_sysfs = \<lambda>_. ex_sysfs, rh_fdb = \<lambda>_. Ok [], rh_link_sys = \<lambda>_. ex_link_sys,
     rh_link_tables = \<lambda>_. ex_link_tables, rh_gateways = \<lambda>_. [], rh_read = \<lambda>_. Ok (), rh_write = \<lambda>_ k. (k, Written),
     rh_remove = \<lambda>_ k. (k, True), rh_encode_state = \<lambda>_. Ok [], rh_decode_state = \<lambda>_. Err ''invalid'',
     rh_encode_journal = \<lambda>_ _ _. Ok [], rh_evidence = \<lambda>_. io_ok (), rh_debug = \<lambda>_. []\<rparr>"

definition ex_machine :: "(u32, ex_kernel_state) machine" where
  "ex_machine = \<lparr>mc_rt = ex_runtime\<lparr>rt_active := Some ex_state\<rparr>, mc_maps = ex_maps None, mc_state_file = None, mc_journal_file = None\<rparr>"

lemma ex_identity: "snap_gateway_id ex_block_snapshot = ''gw''" "pst_gateway_id ex_state = ''gw''"
  "already_applied ex_state ex_block_snapshot 1600000000000" "check_identity (Some ex_state) ex_block_snapshot = Ok ()"
  by (simp_all add: ex_state_def next_state_def ex_block_snapshot_def ex_snapshot_def already_applied_def check_identity_def)

lemma ex_apply: "apply_priority ex_host (PolicySnapshot ex_block_snapshot) ''gw'' ex_machine = (ex_machine, Ok ex_block_selection)"
proof -
  have "load_state ex_host ''gw'' ex_machine = (ex_machine, Ok (Some ex_state))"
    by (rule load_state_active) (simp_all add: ex_machine_def ex_identity)
  moreover have "from_snapshot (rh_wire ex_host) (PolicySnapshot ex_block_snapshot) ''gw'' (rh_now_ms ex_host k) = Ok ex_block_selection" for k
    using ex_block_selected by (simp add: ex_host_def)
  moreover have "client_block_networks_ready (mc_maps ex_machine)"
    by (simp add: ex_machine_def ex_maps_def client_block_networks_ready_def)
  moreover have "\<not> rt_shutdown_done (mc_rt ex_machine)" "\<not> rh_disabled ex_host (mc_kernel ex_machine)"
    "rh_now_ms ex_host k = Some 1600000000000"
    "ex_machine\<lparr>mc_rt := (mc_rt ex_machine)\<lparr>rt_emergency_disabled := False\<rparr>\<rparr> = ex_machine"
    "ex_machine\<lparr>mc_rt := (mc_rt ex_machine)\<lparr>rt_active := Some ex_state\<rparr>\<rparr> = ex_machine" "\<not> rt_force_reapply (mc_rt ex_machine)" for k
    by (simp_all add: ex_machine_def ex_host_def ex_runtime_def)
  ultimately show ?thesis
    by (simp add: apply_priority_def apply_frame_def apply_selected_def io_bind_run io_simps on_rt_run ex_identity)
qed


theorem runtime_monotone_witness:
  "supersedes ''gw'' ex_state (rt_active (mc_rt (fst (apply_snapshot ex_host (PolicySnapshot ex_block_snapshot) ''gw'' ''boot'' True ex_machine))))"
proof (rule runtime_monotone [of ex_host _ ex_machine])
  show "rtranclp (runtime_step ex_host ''gw'') ex_machine
      (fst (apply_snapshot ex_host (PolicySnapshot ex_block_snapshot) ''gw'' ''boot'' True ex_machine))"
    by (rule r_into_rtranclp, rule step_apply, rule prod.collapse [symmetric])
qed (simp_all add: ex_machine_def ex_identity ex_state_loads)

theorem tc_failure_not_reportable_witness:
  "validate_frame ex_env (priority_failure_ack None (PolicySnapshot ex_block_snapshot) ''boot''
    (run_failure ''tc'' (replace_class ''br-lan'' \<lparr>cs_classid = 0x520100, cs_parent = 0x520001, cs_rate_bps = 1000000\<rparr>) ''Error: busy''))
    \<noteq> Ok ()"
  by (rule tc_failure_not_reportable) (simp add: ex_block_snapshot_def)

end
