(* ===== verification/Flow_Key.thy ===== *)
theory Flow_Key
  imports Byte_Layout Mac_Identity
begin

text \<open>
  Flows as the Agent reads them from the kernel (\<open>agent/src/flow.rs\<close>): the key and the counters of the flow
  map with their byte layout, and the identity of a flow. A fixed array of 16 bytes is a list of that length,
  which \<open>flow_key_ok\<close> states.
\<close>

section \<open>Keys\<close>

definition flow_key_size :: nat where "flow_key_size = 44"
definition flow_value_size :: nat where "flow_value_size = 40"

record flow_key =
  fk_ip_version :: u8
  fk_protocol :: u8
  fk_direction :: u8
  fk_hook :: u8
  fk_ifindex :: u32
  fk_source_address :: "u8 list"
  fk_destination_address :: "u8 list"
  fk_source_port :: u16
  fk_destination_port :: u16

definition flow_key_ok :: "flow_key \<Rightarrow> bool" where
  "flow_key_ok key \<longleftrightarrow> length (fk_source_address key) = 16 \<and> length (fk_destination_address key) = 16"

definition u16_be_bytes :: "u16 \<Rightarrow> u8 list" where
  "u16_be_bytes x = rev (u16_ne_bytes x)"

definition u16_from_be :: "u8 list \<Rightarrow> u16" where
  "u16_from_be bytes = u16_from_ne (rev bytes)"

interpretation be16: stored_integer u16_be_bytes u16_from_be 2
  by unfold_locales (simp_all add: u16_be_bytes_def u16_from_be_def ne16.length_encode ne16.decode_encode)

definition bpf_key_bytes :: "flow_key \<Rightarrow> u8 list" where
  "bpf_key_bytes key =
     (let bytes = (replicate flow_key_size 0)[0 := fk_ip_version key, 1 := fk_protocol key,
                     2 := fk_direction key, 3 := fk_hook key];
          bytes = copy_at 4 (u32_ne_bytes (fk_ifindex key)) bytes;
          bytes = copy_at 8 (fk_source_address key) bytes;
          bytes = copy_at 24 (fk_destination_address key) bytes;
          bytes = copy_at 40 (u16_be_bytes (fk_source_port key)) bytes
      in copy_at 42 (u16_be_bytes (fk_destination_port key)) bytes)"

text \<open>\<open>Ipv4Addr::new\<close> and \<open>Ipv6Addr::from\<close>: the first octet is the most significant.\<close>

definition ipv4_new :: "u8 list \<Rightarrow> ip_addr" where
  "ipv4_new octets = IpV4 (of_nat (le_value (rev octets)))"

definition ipv6_from :: "u8 list \<Rightarrow> ip_addr" where
  "ipv6_from octets = IpV6 (of_nat (le_value (rev octets)))"

definition flow_key_addresses :: "flow_key \<Rightarrow> (ip_addr \<times> ip_addr) option" where
  "flow_key_addresses key =
     (if fk_ip_version key = 4 then
        Some (ipv4_new (take 4 (fk_source_address key)), ipv4_new (take 4 (fk_destination_address key)))
      else if fk_ip_version key = 6 then
        Some (ipv6_from (fk_source_address key), ipv6_from (fk_destination_address key))
      else None)"

datatype flow_decode_error = KeySize nat | ValueSize nat

definition flow_key_try_from :: "u8 list \<Rightarrow> flow_decode_error + flow_key" where
  "flow_key_try_from bytes =
     (if length bytes \<noteq> flow_key_size then Err (KeySize (length bytes))
      else Ok \<lparr>fk_ip_version = bytes ! 0, fk_protocol = bytes ! 1, fk_direction = bytes ! 2, fk_hook = bytes ! 3,
               fk_ifindex = u32_from_ne (slice 4 4 bytes), fk_source_address = slice 8 16 bytes,
               fk_destination_address = slice 24 16 bytes, fk_source_port = u16_from_be (slice 40 2 bytes),
               fk_destination_port = u16_from_be (slice 42 2 bytes)\<rparr>)"

fun flow_decode_error_text :: "flow_decode_error \<Rightarrow> string" where
  "flow_decode_error_text (KeySize n) = ''flow key has '' @ format_dec n @ '' bytes, expected 44''"
| "flow_decode_error_text (ValueSize n) = ''flow value has '' @ format_dec n @ '' bytes, expected 40''"

section \<open>Counters\<close>

record flow_counters =
  fc_packets :: u64
  fc_bytes :: u64
  fc_first_seen_ns :: u64
  fc_last_seen_ns :: u64
  fc_tcp_flags :: u64

definition flow_counters_default :: flow_counters where
  "flow_counters_default = \<lparr>fc_packets = 0, fc_bytes = 0, fc_first_seen_ns = 0, fc_last_seen_ns = 0, fc_tcp_flags = 0\<rparr>"

definition native_u64 :: "u8 list \<Rightarrow> nat \<Rightarrow> u64" where
  "native_u64 bytes offset = u64_from_ne (slice offset 8 bytes)"

definition flow_counters_try_from :: "u8 list \<Rightarrow> flow_decode_error + flow_counters" where
  "flow_counters_try_from bytes =
     (if length bytes \<noteq> flow_value_size then Err (ValueSize (length bytes))
      else Ok \<lparr>fc_packets = native_u64 bytes 0, fc_bytes = native_u64 bytes 8, fc_first_seen_ns = native_u64 bytes 16,
               fc_last_seen_ns = native_u64 bytes 24, fc_tcp_flags = native_u64 bytes 32\<rparr>)"

definition as_bytes :: "string \<Rightarrow> u8 list" where
  "as_bytes s = map (\<lambda>c. of_nat (byte_val c)) s"

text \<open>The bytes that \<open>policy_flow_id\<close> feeds to the hash; the first 16 bytes of the digest are printed.\<close>

definition policy_flow_id_input :: "string \<Rightarrow> flow_key \<Rightarrow> u64 \<Rightarrow> u8 list" where
  "policy_flow_id_input boot_id key first_seen_ns =
     as_bytes boot_id @
     [fk_ip_version key, fk_protocol key, fk_direction key, fk_hook key] @ u32_ne_bytes (fk_ifindex key) @
     fk_source_address key @ fk_destination_address key @ u16_be_bytes (fk_source_port key) @
     u16_be_bytes (fk_destination_port key) @ u64_ne_bytes first_seen_ns"

definition policy_flow_id :: "(u8 list \<Rightarrow> u8 list) \<Rightarrow> string \<Rightarrow> flow_key \<Rightarrow> u64 \<Rightarrow> string" where
  "policy_flow_id sha256 boot_id key first_seen_ns =
     concat (map (\<lambda>b. hex2 (unat b)) (take 16 (sha256 (policy_flow_id_input boot_id key first_seen_ns))))"

section \<open>Hash maps\<close>

text \<open>A hash map is an association list with distinct keys; the order in which the code walks over one is
  unspecified, and no property depends on it.\<close>

fun al_insert :: "'k \<Rightarrow> 'v \<Rightarrow> ('k \<times> 'v) list \<Rightarrow> ('k \<times> 'v) list" where
  "al_insert k v [] = [(k, v)]"
| "al_insert k v ((k', v') # m) = (if k = k' then (k, v) # m else (k', v') # al_insert k v m)"

definition al_remove :: "'k \<Rightarrow> ('k \<times> 'v) list \<Rightarrow> ('k \<times> 'v) list" where
  "al_remove k m = filter (\<lambda>(k', _). k' \<noteq> k) m"

lemma map_of_al_insert [simp]: "map_of (al_insert k v m) = (map_of m)(k \<mapsto> v)"
  by (induction k v m rule: al_insert.induct) auto

lemma map_of_al_remove [simp]: "map_of (al_remove k m) = (map_of m)(k := None)"
  by (induction m) (auto simp: al_remove_def)

lemma keys_al_insert: "map fst (al_insert k v m) = (if k \<in> fst ` set m then map fst m else map fst m @ [k])"
  by (induction k v m rule: al_insert.induct) auto

lemma distinct_al_insert [simp]: "distinct (map fst (al_insert k v m)) \<longleftrightarrow> distinct (map fst m)"
  by (simp add: keys_al_insert)

lemma distinct_al_remove [simp]: "distinct (map fst m) \<Longrightarrow> distinct (map fst (al_remove k m))"
  by (induction m) (auto simp: al_remove_def)

section \<open>Round trips\<close>

lemma length_ne_bytes [simp]:
  "length (u32_ne_bytes x) = 4" "length (u64_ne_bytes y) = 8" "length (u16_be_bytes z) = 2"
  by (simp_all add: ne32.length_encode ne64.length_encode be16.length_encode)

lemma copy_at_fill:
  "off = length p \<Longrightarrow> copy_at off src (p @ replicate n 0) = (p @ src) @ replicate (n - length src) 0"
  by (simp add: copy_at_def)

lemma bpf_key_bytes_append:
  assumes "flow_key_ok key"
  shows "bpf_key_bytes key = [fk_ip_version key, fk_protocol key, fk_direction key, fk_hook key] @
    u32_ne_bytes (fk_ifindex key) @ fk_source_address key @ fk_destination_address key @
    u16_be_bytes (fk_source_port key) @ u16_be_bytes (fk_destination_port key)"
proof -
  have "(replicate flow_key_size 0)[0 := a, 1 := b, 2 := c, 3 := d] = [a, b, c, d] @ replicate 40 0" for a b c d :: u8
    by (simp add: flow_key_size_def numeral_eq_Suc)
  then show ?thesis using assms
    by (simp add: bpf_key_bytes_def Let_def copy_at_fill flow_key_ok_def del: append_assoc append_Cons append_Nil)
qed

lemma length_bpf_key_bytes: "flow_key_ok key \<Longrightarrow> length (bpf_key_bytes key) = flow_key_size"
  by (simp add: bpf_key_bytes_append flow_key_ok_def flow_key_size_def)

lemma flow_key_roundtrip: "flow_key_ok key \<Longrightarrow> flow_key_try_from (bpf_key_bytes key) = Ok key"
  by (simp add: flow_key_try_from_def length_bpf_key_bytes)
    (simp add: bpf_key_bytes_append flow_key_ok_def slice_def ne32.decode_encode be16.decode_encode)

lemma bpf_key_bytes_inject: "flow_key_ok a \<Longrightarrow> flow_key_ok b \<Longrightarrow> bpf_key_bytes a = bpf_key_bytes b \<longleftrightarrow> a = b"
  using flow_key_roundtrip by (metis Inr_inject)

lemma flow_key_decoded_ok: "flow_key_try_from bytes = Ok key \<Longrightarrow> flow_key_ok key"
  by (auto simp: flow_key_try_from_def flow_key_ok_def flow_key_size_def length_slice split: if_splits)

end
