(* ===== verification/Flow_Verdict.thy ===== *)
theory Flow_Verdict
  imports Flow_Key Priority_Maps
begin

text \<open>
  The verdicts that the Agent hands to the kernel (\<open>agent/src/policy/flow_verdict.rs\<close>, with the key of
  \<open>endpoint_block.rs\<close>): the layout of a verdict, the claims of several flows on the same on-wire tuple, and
  the writer that installs and revokes block and shape verdicts and learned endpoint blocks. The BPF maps are
  reached through the BPF library; its operations are the parameter \<open>hash_kernel\<close>. Log messages are left out.
\<close>

section \<open>Verdicts\<close>

definition verdict_value_size :: nat where "verdict_value_size = 64"
definition policy_state_value_size :: nat where "policy_state_value_size = 16"
definition max_verdict_entries :: nat where "max_verdict_entries = 16384"
definition max_policy_drop_entries :: nat where "max_policy_drop_entries = 4096"
definition verdict_block :: u8 where "verdict_block = 1"
definition verdict_shape :: u8 where "verdict_shape = 2"
definition max_block_claims :: nat where "max_block_claims = max_verdict_entries * 2"
definition max_block_owners_per_alias :: nat where "max_block_owners_per_alias = 16"
definition endpoint_key_size :: nat where "endpoint_key_size = 44"
definition endpoint_max_entries :: nat where "endpoint_max_entries = 8192"
definition max_application_tag :: u32 where "max_application_tag = 0x7f"

record verdict_identity =
  vi_flow_hash :: "u8 list"
  vi_policy_hash :: "u8 list"
  vi_client_mac :: "u8 list"

definition encode_verdict :: "u64 \<Rightarrow> u64 \<Rightarrow> verdict_identity \<Rightarrow> u32 \<Rightarrow> u8 \<Rightarrow> u8 list" where
  "encode_verdict expires_monotonic_ns generation identity policy_tag verdict =
     (let value = replicate verdict_value_size 0;
          value = copy_at 0 (u64_ne_bytes expires_monotonic_ns) value;
          value = copy_at 8 (u64_ne_bytes generation) value;
          value = copy_at 16 (vi_flow_hash identity) value;
          value = copy_at 32 (vi_policy_hash identity) value;
          value = copy_at 48 (vi_client_mac identity) value;
          value = copy_at 56 (u32_ne_bytes policy_tag) value
      in value[60 := verdict])"

definition encode_policy_state :: "bool \<Rightarrow> u64 \<Rightarrow> u8 list" where
  "encode_policy_state enabled generation =
     copy_at 8 (u64_ne_bytes generation) ((replicate policy_state_value_size 0)[0 := of_bool enabled])"

definition valid_application_classid :: "u8 \<Rightarrow> u32 \<Rightarrow> bool" where
  "valid_application_classid hook classid =
     (let major = drop_bit 16 classid; minor = classid AND 0xffff in
      if hook = 1 then major = upload_major \<and> application_first \<le> minor \<and> minor \<le> application_last
      else if hook = 2 then major = download_major \<and> application_first \<le> minor \<and> minor \<le> application_last
      else False)"

definition valid_shape_tag :: "u8 \<Rightarrow> u32 \<Rightarrow> bool" where
  "valid_shape_tag hook tag \<longleftrightarrow>
     valid_application_classid hook tag \<or> (hook \<in> {1, 2} \<and> 1 \<le> tag \<and> tag \<le> max_application_tag)"

definition shape_owner_from_value :: "flow_key \<Rightarrow> u8 list \<Rightarrow> u64 \<Rightarrow> u64 \<Rightarrow> (string \<times> u32) option" where
  "shape_owner_from_value key value generation now_monotonic_ns =
     (if length value \<noteq> verdict_value_size \<or> value ! 60 \<noteq> verdict_shape then None
      else let expiry = u64_from_ne (slice 0 8 value);
               installed_generation = u64_from_ne (slice 8 8 value);
               tag = u32_from_ne (slice 56 4 value)
           in if expiry \<le> now_monotonic_ns \<or> installed_generation \<noteq> generation \<or> \<not> valid_shape_tag (fk_hook key) tag
              then None
              else Some (concat (map (\<lambda>b. hex2 (unat b)) (slice 16 16 value)), tag))"

text \<open>Identities: the hexadecimal digits of a flow identifier or of a MAC address, two per byte.\<close>

definition hex_byte :: "string \<Rightarrow> u8 option" where
  "hex_byte digits = map_option of_nat (from_str_radix 256 16 digits)"

definition flow_identity_hash :: "string \<Rightarrow> u8 list res" where
  "flow_identity_hash flow =
     (if length flow \<noteq> 32 \<or> \<not> is_ascii flow
      then Err ''policy flow identity must contain 128 bits''
      else try_map (\<lambda>index. ok_or ''policy flow identity is not hexadecimal''
             (hex_byte (slice (index * 2) 2 flow))) [0..<16])"

definition client_mac_identity :: "string \<Rightarrow> u8 list res" where
  "client_mac_identity client_mac =
     (if length client_mac \<noteq> 17 \<or> \<not> is_ascii client_mac then Err ''client MAC must contain 48 bits''
      else try_map (\<lambda>index.
        let start = index * 3 in
        if index < 5 \<and> client_mac ! (start + 2) \<noteq> CHR '':''
        then Err ''client MAC is not colon-delimited hexadecimal''
        else ok_or ''client MAC is not hexadecimal'' (hex_byte (slice start 2 client_mac))) [0..<6])"

definition policy_identity_hash :: "(u8 list \<Rightarrow> u8 list) \<Rightarrow> string \<Rightarrow> u8 list" where
  "policy_identity_hash sha256 policy_id = take 16 (sha256 (as_bytes policy_id))"

definition endpoint_key :: "flow_key \<Rightarrow> u8 list \<Rightarrow> u8 list" where
  "endpoint_key alias client_mac =
     (let bytes = (replicate endpoint_key_size 0)[0 := fk_ip_version alias, 1 := fk_protocol alias];
          bytes = copy_at 2 (u16_be_bytes (fk_destination_port alias)) bytes;
          bytes = copy_at 4 (fk_source_address alias) bytes;
          bytes = copy_at 20 (fk_destination_address alias) bytes
      in copy_at 36 client_mac bytes)"

section \<open>Block claims\<close>

record block_claim =
  bc_identity :: verdict_identity
  bc_generation :: u64
  bc_expires_monotonic_ns :: u64
  bc_observed_orientation :: bool

record block_claims =
  bcs_aliases :: "(flow_key \<times> block_claim list) list"
  bcs_count :: nat
  bcs_next_expired_sweep_ns :: u64

definition block_claims_default :: block_claims where
  "block_claims_default = \<lparr>bcs_aliases = [], bcs_count = 0, bcs_next_expired_sweep_ns = 0\<rparr>"

definition same_observed_orientation :: "flow_key \<Rightarrow> flow_key \<Rightarrow> bool" where
  "same_observed_orientation alias observed \<longleftrightarrow>
     fk_ip_version alias = fk_ip_version observed \<and> fk_protocol alias = fk_protocol observed \<and>
     fk_direction alias = fk_direction observed \<and> fk_ifindex alias = fk_ifindex observed \<and>
     fk_source_address alias = fk_source_address observed \<and>
     fk_destination_address alias = fk_destination_address observed \<and>
     fk_source_port alias = fk_source_port observed \<and> fk_destination_port alias = fk_destination_port observed"

definition block_claim_matches_value :: "block_claim \<Rightarrow> u8 list \<Rightarrow> bool" where
  "block_claim_matches_value claim value \<longleftrightarrow>
     length value = verdict_value_size \<and> value ! 60 = verdict_block \<and>
     slice 8 8 value = u64_ne_bytes (bc_generation claim) \<and>
     slice 16 16 value = vi_flow_hash (bc_identity claim) \<and>
     slice 32 16 value = vi_policy_hash (bc_identity claim) \<and>
     slice 48 6 value = vi_client_mac (bc_identity claim)"

text \<open>\<open>Iterator::max_by_key\<close>: of several maximal elements the last.\<close>

definition max_by_key :: "('a \<Rightarrow> 'b::linorder) \<Rightarrow> 'a list \<Rightarrow> 'a option" where
  "max_by_key f xs =
     (case xs of [] \<Rightarrow> None | x # rest \<Rightarrow> Some (foldl (\<lambda>m y. if f m \<le> f y then y else m) x rest))"

definition select_block_claim :: "block_claim list \<Rightarrow> u8 list option \<Rightarrow> block_claim option" where
  "select_block_claim claims current =
     max_by_key (\<lambda>claim. (bc_observed_orientation claim,
       case current of None \<Rightarrow> False | Some value \<Rightarrow> block_claim_matches_value claim value)) claims"

definition encode_block_claim :: "block_claim \<Rightarrow> block_claim list \<Rightarrow> u8 list" where
  "encode_block_claim claim claims =
     encode_verdict
       (case map bc_expires_monotonic_ns claims of [] \<Rightarrow> bc_expires_monotonic_ns claim | e # es \<Rightarrow> foldl max e es)
       (bc_generation claim) (bc_identity claim) 0 verdict_block"

section \<open>The kernel maps\<close>

record ('h, 'k) hash_kernel =
  hk_shape :: "'h \<Rightarrow> map_shape"
  hk_monotonic_ns :: "'k \<Rightarrow> u64"
  hk_lookup :: "'h \<Rightarrow> u8 list \<Rightarrow> 'k \<Rightarrow> u8 list option res"
  hk_update :: "'h \<Rightarrow> u8 list \<Rightarrow> u8 list \<Rightarrow> 'k \<Rightarrow> 'k \<times> unit res"
  hk_delete :: "'h \<Rightarrow> u8 list \<Rightarrow> 'k \<Rightarrow> 'k \<times> unit res"
  hk_keys :: "'h \<Rightarrow> 'k \<Rightarrow> u8 list list"

text \<open>Write the value of a key, or remove the key.\<close>

definition put :: "('h, 'k) hash_kernel \<Rightarrow> 'h \<Rightarrow> u8 list \<Rightarrow> u8 list option \<Rightarrow> 'k \<Rightarrow> 'k \<times> unit res" where
  "put K h key value = (case value of Some v \<Rightarrow> hk_update K h key v | None \<Rightarrow> hk_delete K h key)"

text \<open>Undo writes, the last one first, and collect the errors.\<close>

fun roll_back_puts :: "('h, 'k) hash_kernel \<Rightarrow> 'h \<Rightarrow> (u8 list \<times> u8 list option) list \<Rightarrow> 'k \<Rightarrow> 'k \<times> string list" where
  "roll_back_puts K h [] k = (k, [])"
| "roll_back_puts K h ((key, value) # applied) k =
     (let (k', r) = put K h key value k; (k'', errors) = roll_back_puts K h applied k'
      in (k'', (case r of Inl e \<Rightarrow> [e] | Inr _ \<Rightarrow> []) @ errors))"

definition debug_strings :: "string list \<Rightarrow> string" where
  "debug_strings xs = ''['' @ join '', '' (map debug_str xs) @ '']''"

type_synonym verdict_update = "u8 list \<times> u8 list option \<times> u8 list option"

text \<open>The loop of \<open>apply_verdict_updates\<close>; \<open>applied\<close> holds the last write first.\<close>

fun apply_updates_from ::
  "('h, 'k) hash_kernel \<Rightarrow> 'h \<Rightarrow> (u8 list \<times> u8 list option) list \<Rightarrow> verdict_update list \<Rightarrow> 'k \<Rightarrow> 'k \<times> unit res" where
  "apply_updates_from K h applied [] k = (k, Ok ())"
| "apply_updates_from K h applied ((key, previous, nxt) # updates) k =
     (if previous = nxt then apply_updates_from K h applied updates k
      else let (k', r) = put K h key nxt k in
        case r of
          Inl e \<Rightarrow> let (k'', errors) = roll_back_puts K h applied k' in
            (k'', Err (''write BPF flow verdict: '' @ e @ ''; rollback errors: '' @ debug_strings errors))
        | Inr _ \<Rightarrow> apply_updates_from K h ((key, previous) # applied) updates k')"

definition apply_verdict_updates ::
  "('h, 'k) hash_kernel \<Rightarrow> 'h \<Rightarrow> verdict_update list \<Rightarrow> 'k \<Rightarrow> 'k \<times> unit res" where
  "apply_verdict_updates K h updates = apply_updates_from K h [] updates"

section \<open>The writer\<close>

record 'h flow_verdict_writer =
  fvw_verdict_map :: "'h option"
  fvw_endpoint_map :: "'h option"
  fvw_policy_state_map :: "'h option"
  fvw_policy_drop_map :: "'h option"
  fvw_policy_drop_map_ready :: bool
  fvw_ready :: bool

text \<open>What the writer changes: the kernel and the claims behind its lock. The lock is poisoned when a thread
  died while holding it.\<close>

record 'k verdict_state =
  vs_kernel :: 'k
  vs_claims :: block_claims
  vs_poisoned :: bool

definition policy_drop_map_abi_matches :: "map_shape \<Rightarrow> bool" where
  "policy_drop_map_abi_matches shape \<longleftrightarrow>
     unat (mh_key_size shape) = 24 \<and> unat (mh_value_size shape) = 16 \<and>
     unat (mh_max_entries shape) = max_policy_drop_entries"

definition flow_verdict_writer_new ::
  "('h, 'k) hash_kernel \<Rightarrow> 'h \<Rightarrow> 'h \<Rightarrow> 'h \<Rightarrow> 'h option \<Rightarrow> 'h flow_verdict_writer" where
  "flow_verdict_writer_new K verdict_map endpoint_map policy_state_map policy_drop_map =
     \<lparr>fvw_verdict_map = Some verdict_map, fvw_endpoint_map = Some endpoint_map,
      fvw_policy_state_map = Some policy_state_map, fvw_policy_drop_map = policy_drop_map,
      fvw_policy_drop_map_ready =
        (case policy_drop_map of None \<Rightarrow> False | Some m \<Rightarrow> policy_drop_map_abi_matches (hk_shape K m)),
      fvw_ready =
        (unat (mh_key_size (hk_shape K verdict_map)) = flow_key_size \<and>
         unat (mh_value_size (hk_shape K verdict_map)) = verdict_value_size \<and>
         unat (mh_max_entries (hk_shape K verdict_map)) = max_verdict_entries \<and>
         mh_key_size (hk_shape K policy_state_map) = 4 \<and>
         unat (mh_value_size (hk_shape K policy_state_map)) = policy_state_value_size \<and>
         unat (mh_key_size (hk_shape K endpoint_map)) = endpoint_key_size \<and>
         unat (mh_value_size (hk_shape K endpoint_map)) = verdict_value_size \<and>
         unat (mh_max_entries (hk_shape K endpoint_map)) = endpoint_max_entries)\<rparr>"

definition flow_verdict_writer_unavailable :: "'h flow_verdict_writer" where
  "flow_verdict_writer_unavailable =
     \<lparr>fvw_verdict_map = None, fvw_endpoint_map = None, fvw_policy_state_map = None, fvw_policy_drop_map = None,
      fvw_policy_drop_map_ready = False, fvw_ready = False\<rparr>"

definition abi_mismatch :: string where
  "abi_mismatch = ''BPF policy map ABI does not match the Agent''"

definition lock_poisoned :: string where
  "lock_poisoned = ''block ownership lock poisoned''"

definition verdict_map_unavailable :: string where
  "verdict_map_unavailable = ''BPF verdict map is unavailable''"

definition endpoint_map_unavailable :: string where
  "endpoint_map_unavailable = ''BPF endpoint block map is unavailable''"

text \<open>An operation of the BPF library on the kernel of the state.\<close>

definition on_hash :: "('k \<Rightarrow> 'k \<times> 'a res) \<Rightarrow> ('k verdict_state, 'a) io" where
  "on_hash f s = (let (k, r) = f (vs_kernel s) in (s\<lparr>vs_kernel := k\<rparr>, r))"

definition write_policy_state ::
  "('h, 'k) hash_kernel \<Rightarrow> 'h flow_verdict_writer \<Rightarrow> bool \<Rightarrow> u64 \<Rightarrow> 'k \<Rightarrow> 'k \<times> unit res" where
  "write_policy_state K w enabled generation k =
     (case fvw_policy_state_map w of
        None \<Rightarrow> (k, Err ''BPF policy state map is unavailable'')
      | Some h \<Rightarrow> let (k', r) = hk_update K h (u32_ne_bytes 0) (encode_policy_state enabled generation) k
          in (k', map_err (\<lambda>e. ''update BPF policy state: '' @ e) r))"

text \<open>Delete keys and collect the errors.\<close>

fun delete_keys :: "('h, 'k) hash_kernel \<Rightarrow> 'h \<Rightarrow> string \<Rightarrow> u8 list list \<Rightarrow> 'k \<Rightarrow> 'k \<times> string list" where
  "delete_keys K h what [] k = (k, [])"
| "delete_keys K h what (key # keys) k =
     (let (k', r) = hk_delete K h key k; (k'', errors) = delete_keys K h what keys k'
      in (k'', (case r of Inl e \<Rightarrow> [what @ e] | Inr _ \<Rightarrow> []) @ errors))"

definition error_list :: "unit res \<Rightarrow> string list" where
  "error_list r = (case r of Inl e \<Rightarrow> [e] | Inr _ \<Rightarrow> [])"

definition reset ::
  "('h, 'k) hash_kernel \<Rightarrow> 'h flow_verdict_writer \<Rightarrow> u64 \<Rightarrow> bool \<Rightarrow> ('k verdict_state, unit) io" where
  "reset K w generation enabled s =
     (if \<not> fvw_ready w then (s, Err abi_mismatch)
      else case fvw_verdict_map w of
        None \<Rightarrow> (s, Err verdict_map_unavailable)
      | Some h \<Rightarrow>
          if vs_poisoned s then (s, Err lock_poisoned)
          else
            let (k1, r1) = write_policy_state K w False generation (vs_kernel s);
                (k2, e2) = delete_keys K h ''clear BPF flow verdict: '' (hk_keys K h k1) k1;
                (k3, e3) = (case fvw_endpoint_map w of None \<Rightarrow> (k2, [])
                            | Some eh \<Rightarrow> delete_keys K eh ''clear BPF endpoint block: '' (hk_keys K eh k2) k2);
                errors = error_list r1 @ e2 @ e3;
                (k4, r4) = write_policy_state K w (enabled \<and> errors = []) generation k3;
                errors = errors @ error_list r4
            in (s\<lparr>vs_kernel := k4, vs_claims := block_claims_default\<rparr>,
                if errors = [] then Ok () else Err (join ''; '' errors)))"

section \<open>Block verdicts\<close>

record staged_alias =
  sa_alias :: flow_key
  sa_previous :: "u8 list option"
  sa_claims :: "block_claim list"
  sa_next :: "u8 list option"

definition registered :: "block_claims \<Rightarrow> flow_key \<Rightarrow> block_claim list" where
  "registered registry alias = (case map_of (bcs_aliases registry) alias of None \<Rightarrow> [] | Some claims \<Rightarrow> claims)"

text \<open>Whether the value in the map is the verdict of one of the claims.\<close>

definition known_value :: "block_claim list \<Rightarrow> u8 list option \<Rightarrow> bool" where
  "known_value claims previous =
     (case previous of None \<Rightarrow> False | Some value \<Rightarrow> list_ex (\<lambda>claim. block_claim_matches_value claim value) claims)"

definition same_decision :: "u64 \<Rightarrow> verdict_identity \<Rightarrow> block_claim \<Rightarrow> bool" where
  "same_decision generation identity claim \<longleftrightarrow>
     bc_generation claim = generation \<and> vi_policy_hash (bc_identity claim) = vi_policy_hash identity \<and>
     vi_client_mac (bc_identity claim) = vi_client_mac identity"

text \<open>The claims of an alias after a flow has joined: claims that lost the map entry, that expired or that
  belong to another decision go.\<close>

definition joined_claims ::
  "u64 \<Rightarrow> verdict_identity \<Rightarrow> u64 \<Rightarrow> u64 \<Rightarrow> bool \<Rightarrow> block_claim list \<Rightarrow> u8 list option \<Rightarrow> block_claim list" where
  "joined_claims now identity generation expires_monotonic_ns observed old previous =
     (let claims = (if known_value old previous then old else []);
          claims = filter (\<lambda>claim. bc_expires_monotonic_ns claim > now) claims;
          claims = (if list_all (same_decision generation identity) claims then claims else [])
      in filter (\<lambda>claim. vi_flow_hash (bc_identity claim) \<noteq> vi_flow_hash identity) claims @
         [\<lparr>bc_identity = identity, bc_generation = generation, bc_expires_monotonic_ns = expires_monotonic_ns,
           bc_observed_orientation = observed\<rparr>])"

definition stage_block ::
  "('h, 'k) hash_kernel \<Rightarrow> 'h \<Rightarrow> 'k \<Rightarrow> u64 \<Rightarrow> flow_key list \<Rightarrow> verdict_identity \<Rightarrow> u64 \<Rightarrow> u64 \<Rightarrow> block_claims \<Rightarrow>
    nat \<times> staged_alias list \<Rightarrow> flow_key \<Rightarrow> (nat \<times> staged_alias list) res" where
  "stage_block K h k now observed_aliases identity generation expires_monotonic_ns registry acc alias =
     and_then (map_err (\<lambda>e. ''read previous BPF flow verdict: '' @ e) (hk_lookup K h (bpf_key_bytes alias) k)) (\<lambda>previous.
     let old = registered registry alias;
         claims = joined_claims now identity generation expires_monotonic_ns
           (list_ex (same_observed_orientation alias) observed_aliases) old previous
     in if max_block_owners_per_alias < length claims
        then Err ''block_owner_capacity_exceeded: too many owners for a flow alias''
        else Ok (fst acc - length old + length claims,
                 snd acc @ [\<lparr>sa_alias = alias, sa_previous = previous, sa_claims = claims,
                   sa_next = map_option (\<lambda>winner. encode_block_claim winner claims)
                     (select_block_claim claims previous)\<rparr>]))"

definition supported_alias :: "flow_key \<Rightarrow> bool" where
  "supported_alias key \<longleftrightarrow>
     fk_ip_version key \<in> {4, 6} \<and> fk_protocol key \<in> {6, 17} \<and> fk_hook key \<in> {1, 2} \<and> fk_ifindex key \<noteq> 0"

text \<open>A full registry is swept, at most once a second.\<close>

definition sweep_expired :: "u64 \<Rightarrow> nat \<Rightarrow> block_claims \<Rightarrow> block_claims" where
  "sweep_expired now wanted registry =
     (if max_block_claims < bcs_count registry + wanted \<and> bcs_next_expired_sweep_ns registry \<le> now
      then let aliases = filter (\<lambda>(_, claims). list_ex (\<lambda>claim. bc_expires_monotonic_ns claim > now) claims)
                 (bcs_aliases registry)
           in \<lparr>bcs_aliases = aliases, bcs_count = sum_list (map (\<lambda>(_, claims). length claims) aliases),
               bcs_next_expired_sweep_ns = saturating_add_w now 1000000000\<rparr>
      else registry)"

definition verdict_updates :: "staged_alias list \<Rightarrow> verdict_update list" where
  "verdict_updates staged = map (\<lambda>sa. (bpf_key_bytes (sa_alias sa), sa_previous sa, sa_next sa)) staged"

text \<open>Enter the staged claims into the registry; an alias without claims leaves it.\<close>

definition record_claims :: "staged_alias list \<Rightarrow> nat \<Rightarrow> block_claims \<Rightarrow> block_claims" where
  "record_claims staged n registry =
     registry\<lparr>bcs_aliases := fold (\<lambda>sa m. if sa_claims sa = [] then al_remove (sa_alias sa) m
                                    else al_insert (sa_alias sa) (sa_claims sa) m) staged (bcs_aliases registry),
              bcs_count := n\<rparr>"

definition install_owned_block ::
  "('h, 'k) hash_kernel \<Rightarrow> 'h flow_verdict_writer \<Rightarrow> flow_key list \<Rightarrow> flow_key list \<Rightarrow> verdict_identity \<Rightarrow> u64 \<Rightarrow> u64 \<Rightarrow>
    ('k verdict_state, nat) io" where
  "install_owned_block K w aliases observed_aliases identity generation expires_monotonic_ns s =
     (if \<not> fvw_ready w then (s, Err abi_mismatch)
      else if aliases = [] \<or> 8 < length aliases \<or> \<not> list_all supported_alias aliases \<or> \<not> distinct aliases
      then (s, Err ''flow alias is not an exact supported on-wire key'')
      else case fvw_verdict_map w of
        None \<Rightarrow> (s, Err verdict_map_unavailable)
      | Some h \<Rightarrow>
          let now = hk_monotonic_ns K (vs_kernel s) in
          if vs_poisoned s then (s, Err lock_poisoned)
          else let s = s\<lparr>vs_claims := sweep_expired now (length aliases) (vs_claims s)\<rparr> in
            case try_fold (stage_block K h (vs_kernel s) now observed_aliases identity generation expires_monotonic_ns
                (vs_claims s)) (bcs_count (vs_claims s), []) aliases of
              Inl e \<Rightarrow> (s, Err e)
            | Inr (n, staged) \<Rightarrow>
                if max_block_claims < n
                then (s, Err ''block_owner_capacity_exceeded: block ownership table is full'')
                else io_bind (on_hash (apply_verdict_updates K h (verdict_updates staged))) (\<lambda>_.
                     io_bind (io_modify (\<lambda>s. s\<lparr>vs_claims := record_claims staged n (vs_claims s)\<rparr>)) (\<lambda>_.
                     io_ok (length aliases))) s)"

definition install_block ::
  "('h, 'k) hash_kernel \<Rightarrow> (u8 list \<Rightarrow> u8 list) \<Rightarrow> 'h flow_verdict_writer \<Rightarrow> flow_key list \<Rightarrow> flow_key list \<Rightarrow> string \<Rightarrow>
    string \<Rightarrow> string \<Rightarrow> u64 \<Rightarrow> u64 \<Rightarrow> ('k verdict_state, nat) io" where
  "install_block K sha256 w aliases observed_aliases flow policy_id client_mac generation expires_monotonic_ns =
     io_bind (io_lift (flow_identity_hash flow)) (\<lambda>flow_hash.
     io_bind (io_lift (client_mac_identity client_mac)) (\<lambda>mac.
     install_owned_block K w aliases observed_aliases
       \<lparr>vi_flow_hash = flow_hash, vi_policy_hash = policy_identity_hash sha256 policy_id, vi_client_mac = mac\<rparr>
       generation expires_monotonic_ns))"

text \<open>\<open>filter(|alias| seen.insert(alias))\<close>: the first occurrence of every alias.\<close>

fun first_occurrences :: "'a list \<Rightarrow> 'a list" where
  "first_occurrences [] = []"
| "first_occurrences (x # xs) = x # first_occurrences (filter (\<lambda>y. y \<noteq> x) xs)"

text \<open>The claims of other flows that stay, and the value they leave in the map.\<close>

definition remaining_claims ::
  "u64 \<Rightarrow> u8 list option \<Rightarrow> block_claim list \<Rightarrow> u8 list option \<Rightarrow> block_claim list" where
  "remaining_claims now expected_hash old previous =
     filter (\<lambda>claim. bc_expires_monotonic_ns claim > now \<and>
         (case expected_hash of None \<Rightarrow> False | Some expected \<Rightarrow> vi_flow_hash (bc_identity claim) \<noteq> expected))
       (if known_value old previous then old else [])"

definition names_flow :: "u8 list \<Rightarrow> u8 list \<Rightarrow> bool" where
  "names_flow hash val \<longleftrightarrow> 32 \<le> length val \<and> slice 16 16 val = hash"

definition cleared_value ::
  "u8 list option \<Rightarrow> block_claim list \<Rightarrow> u8 list option \<Rightarrow> block_claim list \<Rightarrow> u8 list option" where
  "cleared_value expected_hash old previous claims =
     (let previous_is_target = (case previous of None \<Rightarrow> False
        | Some value \<Rightarrow> (case expected_hash of None \<Rightarrow> True | Some expected \<Rightarrow> names_flow expected value))
      in if known_value old previous
         then map_option (\<lambda>claim. encode_block_claim claim claims) (select_block_claim claims previous)
         else if previous_is_target then None else previous)"

definition stage_clear ::
  "('h, 'k) hash_kernel \<Rightarrow> 'h \<Rightarrow> 'k \<Rightarrow> u64 \<Rightarrow> u8 list option \<Rightarrow> block_claims \<Rightarrow> nat \<times> staged_alias list \<Rightarrow> flow_key \<Rightarrow>
    (nat \<times> staged_alias list) res" where
  "stage_clear K h k now expected_hash registry acc alias =
     and_then (map_err (\<lambda>e. ''look up BPF flow verdict: '' @ e) (hk_lookup K h (bpf_key_bytes alias) k)) (\<lambda>previous.
     let old = registered registry alias;
         claims = remaining_claims now expected_hash old previous
     in Ok (fst acc - length old + length claims,
            snd acc @ [\<lparr>sa_alias = alias, sa_previous = previous, sa_claims = claims,
              sa_next = cleared_value expected_hash old previous claims\<rparr>]))"

definition revoked_hash :: "string option \<Rightarrow> u8 list option res" where
  "revoked_hash expected_flow_id =
     (case expected_flow_id of None \<Rightarrow> Ok None
      | Some flow \<Rightarrow> and_then (flow_identity_hash flow) (\<lambda>hash. Ok (Some hash)))"

definition clear_aliases ::
  "('h, 'k) hash_kernel \<Rightarrow> 'h flow_verdict_writer \<Rightarrow> flow_key list \<Rightarrow> string option \<Rightarrow> ('k verdict_state, nat) io" where
  "clear_aliases K w aliases expected_flow_id s =
     (if \<not> fvw_ready w then (s, Err abi_mismatch)
      else case fvw_verdict_map w of
        None \<Rightarrow> (s, Err verdict_map_unavailable)
      | Some h \<Rightarrow>
          case revoked_hash expected_flow_id of
            Inl e \<Rightarrow> (s, Err e)
          | Inr expected_hash \<Rightarrow>
              if vs_poisoned s then (s, Err lock_poisoned)
              else case try_fold (stage_clear K h (vs_kernel s) (hk_monotonic_ns K (vs_kernel s)) expected_hash
                     (vs_claims s)) (bcs_count (vs_claims s), []) (first_occurrences aliases) of
                Inl e \<Rightarrow> (s, Err e)
              | Inr (n, staged) \<Rightarrow>
                  io_bind (on_hash (apply_verdict_updates K h (verdict_updates staged))) (\<lambda>_.
                  io_bind (io_modify (\<lambda>s. s\<lparr>vs_claims := record_claims staged n (vs_claims s)\<rparr>)) (\<lambda>_.
                  io_ok (length (filter (\<lambda>sa. sa_previous sa \<noteq> None \<and> sa_next sa = None) staged)))) s)"

section \<open>Shape verdicts\<close>

text \<open>The loop of \<open>install_verdict\<close>; \<open>applied\<close> holds the last write first.\<close>

fun write_verdicts_from ::
  "('h, 'k) hash_kernel \<Rightarrow> 'h \<Rightarrow> verdict_identity \<Rightarrow> u64 \<Rightarrow> u64 \<Rightarrow> u8 \<Rightarrow> (u8 list \<times> u8 list option) list \<Rightarrow>
    (flow_key \<times> u32) list \<Rightarrow> 'k \<Rightarrow> 'k \<times> nat res" where
  "write_verdicts_from K h identity generation expires_monotonic_ns verdict applied [] k = (k, Ok (length applied))"
| "write_verdicts_from K h identity generation expires_monotonic_ns verdict applied ((alias, classid) # aliases) k =
     (let key = bpf_key_bytes alias; value = encode_verdict expires_monotonic_ns generation identity classid verdict in
      case hk_lookup K h key k of
        Inl e \<Rightarrow> (k, Err (''read previous BPF flow verdict: '' @ e))
      | Inr previous \<Rightarrow>
          let (k', r) = hk_update K h key value k in
          case r of
            Inl e \<Rightarrow> let (k'', errors) = roll_back_puts K h applied k' in
              (k'', Err (''write BPF flow verdict: '' @ e @
                 (if errors = [] then [] else ''; rollback failed: '' @ join ''; '' errors)))
          | Inr _ \<Rightarrow> write_verdicts_from K h identity generation expires_monotonic_ns verdict
              ((key, previous) # applied) aliases k')"

definition install_verdict ::
  "('h, 'k) hash_kernel \<Rightarrow> 'h flow_verdict_writer \<Rightarrow> (flow_key \<times> u32) list \<Rightarrow> verdict_identity \<Rightarrow> u64 \<Rightarrow> u64 \<Rightarrow> u8 \<Rightarrow>
    'k \<Rightarrow> 'k \<times> nat res" where
  "install_verdict K w aliases identity generation expires_monotonic_ns verdict k =
     (if \<not> fvw_ready w then (k, Err abi_mismatch)
      else if aliases = [] \<or> 8 < length aliases then (k, Err ''flow alias count is outside the supported range'')
      else if list_ex (\<lambda>(key, classid). \<not> supported_alias key \<or>
                (verdict = verdict_shape \<and> \<not> valid_shape_tag (fk_hook key) classid)) aliases
      then (k, Err ''flow alias is not an exact supported on-wire key'')
      else case fvw_verdict_map w of
        None \<Rightarrow> (k, Err verdict_map_unavailable)
      | Some h \<Rightarrow> write_verdicts_from K h identity generation expires_monotonic_ns verdict [] aliases k)"

text \<open>A shape verdict takes the key from the block claims on it.\<close>

definition forget_claims :: "flow_key list \<Rightarrow> block_claims \<Rightarrow> block_claims" where
  "forget_claims aliases registry =
     fold (\<lambda>alias registry. case map_of (bcs_aliases registry) alias of
         None \<Rightarrow> registry
       | Some removed \<Rightarrow> registry\<lparr>bcs_aliases := al_remove alias (bcs_aliases registry),
                                 bcs_count := bcs_count registry - length removed\<rparr>) aliases registry"

definition install_shape ::
  "('h, 'k) hash_kernel \<Rightarrow> 'h flow_verdict_writer \<Rightarrow> (flow_key \<times> u32) list \<Rightarrow> string \<Rightarrow> u64 \<Rightarrow> u64 \<Rightarrow> ('k verdict_state, nat) io" where
  "install_shape K w aliases flow generation expires_monotonic_ns s =
     (if list_ex (\<lambda>(key, classid). fk_ifindex key = 0 \<or> \<not> valid_shape_tag (fk_hook key) classid) aliases
      then (s, Err ''application shape alias has no valid hook or class tag'')
      else case flow_identity_hash flow of
        Inl e \<Rightarrow> (s, Err e)
      | Inr flow_hash \<Rightarrow>
          if vs_poisoned s then (s, Err lock_poisoned)
          else io_bind (on_hash (install_verdict K w aliases
                 \<lparr>vi_flow_hash = flow_hash, vi_policy_hash = replicate 16 0, vi_client_mac = replicate 6 0\<rparr>
                 generation expires_monotonic_ns verdict_shape)) (\<lambda>n.
               io_bind (io_modify (\<lambda>s. s\<lparr>vs_claims := forget_claims (map fst aliases) (vs_claims s)\<rparr>)) (\<lambda>_.
               io_ok n)) s)"

definition active_shape_owner ::
  "('h, 'k) hash_kernel \<Rightarrow> 'h flow_verdict_writer \<Rightarrow> flow_key \<Rightarrow> u64 \<Rightarrow> u64 \<Rightarrow> 'k \<Rightarrow> (string \<times> u32) option" where
  "active_shape_owner K w key generation now_monotonic_ns k =
     (case fvw_verdict_map w of
        None \<Rightarrow> None
      | Some h \<Rightarrow> (case hk_lookup K h (bpf_key_bytes key) k of
            Inr (Some value) \<Rightarrow> shape_owner_from_value key value generation now_monotonic_ns
          | _ \<Rightarrow> None))"

section \<open>Endpoint blocks\<close>

fun write_endpoints_from ::
  "('h, 'k) hash_kernel \<Rightarrow> 'h \<Rightarrow> u8 list \<Rightarrow> u8 list \<Rightarrow> (u8 list \<times> u8 list option) list \<Rightarrow> flow_key list \<Rightarrow> 'k \<Rightarrow> 'k \<times> nat res" where
  "write_endpoints_from K h value client_mac applied [] k = (k, Ok (length applied))"
| "write_endpoints_from K h value client_mac applied (alias # aliases) k =
     (let key = endpoint_key alias client_mac in
      case hk_lookup K h key k of
        Inl e \<Rightarrow> (k, Err (''read BPF endpoint block: '' @ e))
      | Inr previous \<Rightarrow>
          let (k', r) = hk_update K h key value k in
          case r of
            Inl e \<Rightarrow> let (k'', errors) = roll_back_puts K h applied k' in
              (k'', Err (''write BPF endpoint block: '' @ e @ ''; rollback errors: '' @ debug_strings errors))
          | Inr _ \<Rightarrow> write_endpoints_from K h value client_mac ((key, previous) # applied) aliases k')"

definition remember_endpoint_blocks ::
  "('h, 'k) hash_kernel \<Rightarrow> (u8 list \<Rightarrow> u8 list) \<Rightarrow> 'h flow_verdict_writer \<Rightarrow> flow_key list \<Rightarrow> string \<Rightarrow> string \<Rightarrow> string \<Rightarrow>
    u64 \<Rightarrow> u64 \<Rightarrow> ('k verdict_state, nat) io" where
  "remember_endpoint_blocks K sha256 w aliases flow policy_id client_mac generation expires_monotonic_ns s =
     (if \<not> fvw_ready w then (s, Err abi_mismatch)
      else case fvw_endpoint_map w of
        None \<Rightarrow> (s, Err endpoint_map_unavailable)
      | Some h \<Rightarrow>
          io_bind (io_lift (client_mac_identity client_mac)) (\<lambda>mac.
          io_bind (io_lift (flow_identity_hash flow)) (\<lambda>flow_hash.
          on_hash (write_endpoints_from K h
            (encode_verdict expires_monotonic_ns generation
              \<lparr>vi_flow_hash = flow_hash, vi_policy_hash = policy_identity_hash sha256 policy_id, vi_client_mac = mac\<rparr>
              0 verdict_block) mac [] aliases))) s)"

definition forget_endpoint_block ::
  "('h, 'k) hash_kernel \<Rightarrow> 'h \<Rightarrow> u8 list \<Rightarrow> flow_key \<Rightarrow> ('k verdict_state, unit) io" where
  "forget_endpoint_block K h client_mac alias =
     io_bind (io_read (\<lambda>s. map_err (\<lambda>e. ''read BPF endpoint block: '' @ e)
       (hk_lookup K h (endpoint_key alias client_mac) (vs_kernel s)))) (\<lambda>found.
     if found = None then io_ok ()
     else on_hash (\<lambda>k. let (k', r) = hk_delete K h (endpoint_key alias client_mac) k
                       in (k', map_err (\<lambda>e. ''delete BPF endpoint block: '' @ e) r)))"

definition forget_endpoint_blocks ::
  "('h, 'k) hash_kernel \<Rightarrow> 'h flow_verdict_writer \<Rightarrow> flow_key list \<Rightarrow> string \<Rightarrow> ('k verdict_state, unit) io" where
  "forget_endpoint_blocks K w aliases client_mac s =
     (case fvw_endpoint_map w of
        None \<Rightarrow> (s, Err endpoint_map_unavailable)
      | Some h \<Rightarrow> io_bind (io_lift (client_mac_identity client_mac)) (\<lambda>mac.
          io_each (forget_endpoint_block K h mac) aliases) s)"

section \<open>Drop counters\<close>

text \<open>The counters as an association list, the key read last first.\<close>

definition read_drop_counter ::
  "('h, 'k) hash_kernel \<Rightarrow> 'h \<Rightarrow> 'k \<Rightarrow> ((u8 list \<times> u8 list) \<times> u64 \<times> u64) list \<Rightarrow> u8 list \<Rightarrow>
    ((u8 list \<times> u8 list) \<times> u64 \<times> u64) list res" where
  "read_drop_counter K h k counters key =
     (if length key \<noteq> 24 then Err ''BPF policy drop counter key has an invalid size''
      else and_then (map_err (\<lambda>e. ''read BPF policy drop counter: '' @ e) (hk_lookup K h key k)) (\<lambda>found.
        case found of
          None \<Rightarrow> Ok counters
        | Some value \<Rightarrow>
            if length value \<noteq> 16 then Err ''BPF policy drop counter value has an invalid size''
            else Ok (((take 16 key, slice 16 6 key), u64_from_ne (slice 0 8 value), u64_from_ne (slice 8 8 value)) # counters)))"

definition policy_drop_counters ::
  "('h, 'k) hash_kernel \<Rightarrow> 'h flow_verdict_writer \<Rightarrow> 'k \<Rightarrow> ((u8 list \<times> u8 list) \<times> u64 \<times> u64) list res" where
  "policy_drop_counters K w k =
     (if \<not> fvw_policy_drop_map_ready w
      then Err ''BPF policy drop counter map is unavailable or has an incompatible ABI''
      else case fvw_policy_drop_map w of
        None \<Rightarrow> Err ''BPF policy drop counter map is unavailable''
      | Some h \<Rightarrow> try_fold (read_drop_counter K h k) [] (hk_keys K h k))"

section \<open>What the kernel promises\<close>

text \<open>The contents of a map as the Agent reads them. A write that succeeds changes one key, a write that fails
  changes nothing, as documented for BPF hash maps.\<close>

definition contents :: "('h, 'k) hash_kernel \<Rightarrow> 'h \<Rightarrow> 'k \<Rightarrow> u8 list \<Rightarrow> u8 list option res" where
  "contents K h k key = hk_lookup K h key k"

definition hash_map_laws :: "('h, 'k) hash_kernel \<Rightarrow> 'h \<Rightarrow> bool" where
  "hash_map_laws K h \<longleftrightarrow> (\<forall>key value k.
     contents K h (fst (put K h key value k)) =
       (if is_ok (snd (put K h key value k)) then (contents K h k)(key := Ok value) else contents K h k))"

lemma contents_put:
  assumes "hash_map_laws K h" and "put K h key value k = (k', r)"
  shows "contents K h k' = (if is_ok r then (contents K h k)(key := Ok value) else contents K h k)"
  using assms unfolding hash_map_laws_def by (metis fst_conv snd_conv)

section \<open>Transactions\<close>

lemma roll_back_restores:
  assumes "hash_map_laws K h" and "roll_back_puts K h applied k = (k', [])"
  shows "contents K h k' = fold (\<lambda>(key, value) c. c(key := Ok value)) applied (contents K h k)"
  using assms(2)
proof (induction applied arbitrary: k)
  case (Cons a applied)
  obtain key val where a: "a = (key, val)" by force
  obtain k1 r where p: "put K h key val k = (k1, r)" by force
  obtain k2 errors where "roll_back_puts K h applied k1 = (k2, errors)" by force
  with Cons.prems a p have "is_ok r" and rest: "roll_back_puts K h applied k1 = (k', [])"
    by (auto simp: is_ok_iff split: sum.splits)
  with contents_put [OF assms(1) p] Cons.IH [OF rest] a show ?case by simp
qed simp

text \<open>The state between two writes: the keys written so far show their new values, and undoing them gives the
  contents from which the transaction started.\<close>

definition undoes :: "(u8 list \<times> u8 list option) list \<Rightarrow> (u8 list \<Rightarrow> u8 list option res) \<Rightarrow> (u8 list \<Rightarrow> u8 list option res) \<Rightarrow> bool" where
  "undoes applied c c0 \<longleftrightarrow> fold (\<lambda>(key, value) c. c(key := Ok value)) applied c = c0"

definition reports_rollback_error :: "string \<Rightarrow> bool" where
  "reports_rollback_error e \<longleftrightarrow>
     (\<exists>cause errors. errors \<noteq> [] \<and> e = ''write BPF flow verdict: '' @ cause @ ''; rollback errors: '' @ debug_strings errors)"

lemma apply_updates_from_outcome:
  assumes "hash_map_laws K h" and "distinct (map fst updates)"
    and "\<forall>(key, previous, nxt)\<in>set updates. contents K h k key = Ok previous"
    and "undoes applied (contents K h k) c0"
    and "apply_updates_from K h applied updates k = (k', r)"
  shows "case r of
      Inl e \<Rightarrow> reports_rollback_error e \<or> contents K h k' = c0
    | Inr _ \<Rightarrow> contents K h k' = (\<lambda>key. case map_of updates key of None \<Rightarrow> contents K h k key | Some (_, nxt) \<Rightarrow> Ok nxt)"
  using assms(2-5)
proof (induction updates arbitrary: k applied)
  case (Cons u updates)
  obtain key previous nxt where u: "u = (key, previous, nxt)" by (cases u) auto
  have cur: "contents K h k key = Ok previous" using Cons.prems(2) u by simp
  show ?case
  proof (cases "previous = nxt")
    case True
    with Cons.prems u Cons.IH [of k applied] have
      "case r of Inl e \<Rightarrow> reports_rollback_error e \<or> contents K h k' = c0
       | Inr _ \<Rightarrow> contents K h k' = (\<lambda>key. case map_of updates key of None \<Rightarrow> contents K h k key | Some (_, nxt) \<Rightarrow> Ok nxt)"
      by simp
    moreover have "map_of updates key = None" using Cons.prems(1) u by (auto simp: map_of_eq_None_iff)
    ultimately show ?thesis using True cur u by (auto split: sum.splits)
  next
    case False
    obtain k1 r1 where p: "put K h key nxt k = (k1, r1)" by force
    note c1 = contents_put [OF assms(1) p]
    show ?thesis
    proof (cases r1)
      case (Inl e)
      obtain k2 errors where rb: "roll_back_puts K h applied k1 = (k2, errors)" by force
      from Cons.prems(4) u False p Inl rb have
        "k' = k2" "r = Err (''write BPF flow verdict: '' @ e @ ''; rollback errors: '' @ debug_strings errors)"
        by simp_all
      moreover have "contents K h k2 = c0" if "errors = []"
        using roll_back_restores [OF assms(1)] rb that c1 Inl Cons.prems(3) by (simp add: undoes_def is_ok_iff)
      ultimately show ?thesis by (auto simp: reports_rollback_error_def)
    next
      case (Inr v)
      with c1 have c1: "contents K h k1 = (contents K h k)(key := Ok nxt)" by (simp add: is_ok_iff)
      have "(contents K h k)(key := Ok previous) = contents K h k" using cur by (simp add: fun_upd_idem)
      then have u1: "undoes ((key, previous) # applied) (contents K h k1) c0"
        using Cons.prems(3) c1 by (simp add: undoes_def)
      have none: "map_of updates key = None" using Cons.prems(1) u by (auto simp: map_of_eq_None_iff)
      have "\<forall>(key, previous, nxt)\<in>set updates. contents K h k1 key = Ok previous"
        using Cons.prems(1,2) u c1 by (force simp: image_iff)
      from Cons.IH [OF _ this u1] Cons.prems(1,4) u False p Inr show ?thesis
        by (auto simp: c1 none fun_eq_iff split: sum.splits option.splits)
    qed
  qed
qed (auto simp: undoes_def)

lemma apply_verdict_updates_outcome:
  assumes "hash_map_laws K h" and "distinct (map fst updates)"
    and "\<forall>(key, previous, nxt)\<in>set updates. contents K h k key = Ok previous"
    and "apply_verdict_updates K h updates k = (k', r)"
  shows "case r of
      Inl e \<Rightarrow> reports_rollback_error e \<or> contents K h k' = contents K h k
    | Inr _ \<Rightarrow> contents K h k' = (\<lambda>key. case map_of updates key of None \<Rightarrow> contents K h k key | Some (_, nxt) \<Rightarrow> Ok nxt)"
  using apply_updates_from_outcome [OF assms(1-3), of "[]" "contents K h k" k' r] assms(4)
  by (simp add: undoes_def apply_verdict_updates_def)

section \<open>The layout of verdicts\<close>

definition identity_ok :: "verdict_identity \<Rightarrow> bool" where
  "identity_ok i \<longleftrightarrow> length (vi_flow_hash i) = 16 \<and> length (vi_policy_hash i) = 16 \<and> length (vi_client_mac i) = 6"

lemma slice_list_update: "i < off \<or> off + width \<le> i \<Longrightarrow> slice off width (xs[i := v]) = slice off width xs"
  by (auto simp: slice_def drop_update_swap)

lemma encode_verdict_fields:
  assumes "identity_ok i"
    and v_def: "v = encode_verdict expires generation i tag verdict"
  shows "length v = verdict_value_size" and "slice 0 8 v = u64_ne_bytes expires" and "slice 8 8 v = u64_ne_bytes generation"
    and "slice 16 16 v = vi_flow_hash i" and "slice 32 16 v = vi_policy_hash i" and "slice 48 6 v = vi_client_mac i"
    and "slice 56 4 v = u32_ne_bytes tag" and "v ! 60 = verdict"
  using assms(1)
  by (simp_all add: v_def identity_ok_def encode_verdict_def verdict_value_size_def Let_def slice_list_update
      slice_copy_at_same slice_copy_at_other)

lemma max_by_key_in: "max_by_key f xs = Some x \<Longrightarrow> x \<in> set xs"
proof -
  have "foldl (\<lambda>m y. if f m \<le> f y then y else m) a ys \<in> insert a (set ys)" for a ys
    by (induction ys arbitrary: a) (auto split: if_splits)
  then show "max_by_key f xs = Some x \<Longrightarrow> x \<in> set xs" by (auto simp: max_by_key_def split: list.splits)
qed

lemma max_by_key_None: "max_by_key f xs = None \<longleftrightarrow> xs = []"
  by (simp add: max_by_key_def split: list.split)

lemma select_block_claim_in: "select_block_claim claims current = Some c \<Longrightarrow> c \<in> set claims"
  by (simp add: select_block_claim_def max_by_key_in)

lemma select_block_claim_None: "select_block_claim claims current = None \<longleftrightarrow> claims = []"
  by (simp add: select_block_claim_def max_by_key_None)

lemma foldl_max_ge: "(e :: u64) \<le> foldl max e es"
  by (induction es arbitrary: e) (auto intro: order_trans [OF max.cobounded1])

lemma foldl_max_ge_elem: "x \<in> set es \<Longrightarrow> (x :: u64) \<le> foldl max e es"
  by (induction es arbitrary: e) (auto intro: order_trans [OF max.cobounded2 foldl_max_ge])

end
