(* ===== verification/Bpf_Flow.thy ===== *)
theory Bpf_Flow
  imports Bpf_Priority Flow_Verdict
begin

text \<open>
  The packet programs of the kernel (\<open>bpf/flow.bpf.c\<close>, structures of \<open>bpf/include/netqmon_bpf.h\<close>) as they are
  built for the priority backend on kernels with subprograms: parsing, the flow policy, accounting, the capture of
  DNS, DHCP, discovery and sample payloads, and the composition with the client classifier. One program runs at a
  time and reads the clock once. What the kernel decides is the parameter \<open>bpf_env\<close>: the clock, the eviction of
  the maps that forget their least recently used entry, the room in the ring buffers and the bytes behind the
  linear part of a packet. Bytes that a program reads lie before the end of the linear part, which is checked as in
  the code.
\<close>

section \<open>Structures\<close>

record flow_verdict_value =
  fv_expires_monotonic_ns :: u64
  fv_policy_generation :: u64
  fv_flow_identity_hash :: "u8 list"
  fv_policy_identity_hash :: "u8 list"
  fv_policy_client_mac :: "u8 list"
  fv_policy_tag :: u32
  fv_verdict :: u8

definition read_flow_verdict :: "u8 list \<Rightarrow> flow_verdict_value" where
  "read_flow_verdict bytes =
     \<lparr>fv_expires_monotonic_ns = u64_from_ne (slice 0 8 bytes), fv_policy_generation = u64_from_ne (slice 8 8 bytes),
      fv_flow_identity_hash = slice 16 16 bytes, fv_policy_identity_hash = slice 32 16 bytes,
      fv_policy_client_mac = slice 48 6 bytes, fv_policy_tag = u32_from_ne (slice 56 4 bytes), fv_verdict = bytes ! 60\<rparr>"

record sample_budget =
  sb_first_seen_ns :: u64
  sb_last_seen_ns :: u64
  sb_bytes_seen :: u32
  sb_packets_seen0 :: u32
  sb_packets_seen1 :: u32
  sb_sampled :: u32

record dns_event =
  de_timestamp_ns :: u64
  de_ifindex :: u32
  de_packet_length :: u32
  de_payload_length :: u16
  de_ip_version :: u8
  de_truncated :: u8
  de_client_address :: "u8 list"
  de_payload :: "u8 list"

record dhcp_event =
  dhe_timestamp_ns :: u64
  dhe_ifindex :: u32
  dhe_packet_length :: u32
  dhe_payload_length :: u16
  dhe_payload :: "u8 list"

record discovery_event =
  dce_timestamp_ns :: u64
  dce_ifindex :: u32
  dce_packet_length :: u32
  dce_captured_payload_length :: u16
  dce_ip_version :: u8
  dce_truncated :: u8
  dce_source_address :: "u8 list"
  dce_source_mac :: "u8 list"
  dce_source_port :: u16
  dce_destination_port :: u16
  dce_original_payload_length :: u16
  dce_payload :: "u8 list"

record sample_event =
  se_key :: flow_key
  se_original_length :: u32
  se_timestamp_ns :: u64
  se_first_seen_ns :: u64
  se_flow_first_seen_ns :: u64
  se_captured_length :: u32
  se_payload :: "u8 list"

text \<open>The maps. The flow map and the sample budgets are keyed by the structure, the verdict maps and the drop
  counters by its bytes, as the Agent writes and reads them.\<close>

record flow_maps =
  fm_qos :: qos_maps
  fm_flow :: "(flow_key \<times> flow_counters) list"
  fm_verdicts :: "u8 list \<Rightarrow> u8 list option"
  fm_endpoint_blocks :: "u8 list \<Rightarrow> u8 list option"
  fm_drop_counters :: "(u8 list \<times> u64 \<times> u64) list"
  fm_observed_ifindexes :: "u32 set"
  fm_policy_enabled :: bool
  fm_policy_generation :: u64
  fm_dns_events :: "dns_event list"
  fm_dns_drop_count :: u64
  fm_dhcp_events :: "dhcp_event list"
  fm_discovery_events :: "discovery_event list"
  fm_sample_events :: "sample_event list"
  fm_sample_budgets :: "(flow_key \<times> sample_budget) list"
  fm_sample_counters :: "u64 list"

record bpf_env =
  be_now :: u64
  be_lru_insert :: "flow_key \<Rightarrow> flow_counters \<Rightarrow> (flow_key \<times> flow_counters) list \<Rightarrow> (flow_key \<times> flow_counters) list option"
  be_lru_insert_drop :: "u8 list \<Rightarrow> u64 \<times> u64 \<Rightarrow> (u8 list \<times> u64 \<times> u64) list \<Rightarrow> (u8 list \<times> u64 \<times> u64) list option"
  be_room_dns :: "dns_event list \<Rightarrow> bool"
  be_room_dhcp :: "dhcp_event list \<Rightarrow> bool"
  be_room_discovery :: "discovery_event list \<Rightarrow> bool"
  be_room_sample :: "sample_event list \<Rightarrow> bool"
  be_skb_load_bytes :: "sk_buff \<Rightarrow> nat \<Rightarrow> nat \<Rightarrow> u8 list option"
  be_sample_enabled :: bool
  be_sample_max_packets_per_direction :: u32
  be_sample_max_bytes_per_packet :: u32
  be_sample_max_bytes_per_flow :: u32

definition ipproto_hopopts :: u8 where "ipproto_hopopts = 0"
definition ipproto_tcp :: u8 where "ipproto_tcp = 6"
definition ipproto_udp :: u8 where "ipproto_udp = 17"
definition ipproto_routing :: u8 where "ipproto_routing = 43"
definition ipproto_fragment :: u8 where "ipproto_fragment = 44"
definition ipproto_gre :: u8 where "ipproto_gre = 47"
definition ipproto_esp :: u8 where "ipproto_esp = 50"
definition ipproto_ah :: u8 where "ipproto_ah = 51"
definition ipproto_dstopts :: u8 where "ipproto_dstopts = 60"
definition ipv6_max_extension_headers :: nat where "ipv6_max_extension_headers = 6"
definition application_mark_shift :: nat where "application_mark_shift = 25"
definition application_mark_mask :: u32 where "application_mark_mask = 0xfe000000"
definition dns_max_payload_length :: nat where "dns_max_payload_length = 512"
definition dhcp_max_payload_length :: nat where "dhcp_max_payload_length = 576"
definition discovery_max_payload_length :: nat where "discovery_max_payload_length = 2048"
definition sample_max_payload_length :: nat where "sample_max_payload_length = 4096"
definition sample_max_packets :: nat where "sample_max_packets = 32"
definition sample_max_bytes :: nat where "sample_max_bytes = 65536"
definition sample_budgets_max_entries :: nat where "sample_budgets_max_entries = 65536"

lemmas ipproto_defs = ipproto_hopopts_def ipproto_tcp_def ipproto_udp_def ipproto_routing_def ipproto_fragment_def
  ipproto_gre_def ipproto_esp_def ipproto_ah_def ipproto_dstopts_def

section \<open>Accounting\<close>

definition update_flow_value :: "flow_counters \<Rightarrow> u32 \<Rightarrow> u64 \<Rightarrow> u8 \<Rightarrow> flow_counters" where
  "update_flow_value value packet_length now tcp_flags =
     value\<lparr>fc_packets := fc_packets value + 1, fc_bytes := fc_bytes value + ucast packet_length,
           fc_last_seen_ns := now, fc_tcp_flags := fc_tcp_flags value OR ucast tcp_flags\<rparr>"

definition record_flow :: "bpf_env \<Rightarrow> flow_key \<Rightarrow> u32 \<Rightarrow> u8 \<Rightarrow> flow_maps \<Rightarrow> flow_maps \<times> u64" where
  "record_flow env key packet_length tcp_flags maps =
     (let now = be_now env in
      case map_of (fm_flow maps) key of
        Some existing \<Rightarrow>
          let value = update_flow_value existing packet_length now tcp_flags
          in (maps\<lparr>fm_flow := al_insert key value (fm_flow maps)\<rparr>, fc_packets value)
      | None \<Rightarrow>
          case be_lru_insert env key \<lparr>fc_packets = 1, fc_bytes = ucast packet_length, fc_first_seen_ns = now,
              fc_last_seen_ns = now, fc_tcp_flags = ucast tcp_flags\<rparr> (fm_flow maps) of
            Some flows \<Rightarrow> (maps\<lparr>fm_flow := flows\<rparr>, 1)
          | None \<Rightarrow> (maps, 1))"

definition add_drop :: "u32 \<Rightarrow> u64 \<times> u64 \<Rightarrow> u64 \<times> u64" where
  "add_drop packet_length counter = (fst counter + 1, snd counter + ucast packet_length)"

definition record_policy_drop :: "bpf_env \<Rightarrow> u8 list \<Rightarrow> u8 list \<Rightarrow> u32 \<Rightarrow> flow_maps \<Rightarrow> flow_maps" where
  "record_policy_drop env policy_hash client_mac packet_length maps =
     (let key = policy_hash @ client_mac @ [0, 0];
          counters = (if map_of (fm_drop_counters maps) key = None
                      then (case be_lru_insert_drop env key (0, 0) (fm_drop_counters maps) of
                              None \<Rightarrow> fm_drop_counters maps | Some inserted \<Rightarrow> inserted)
                      else fm_drop_counters maps)
      in case map_of counters key of
           None \<Rightarrow> maps\<lparr>fm_drop_counters := counters\<rparr>
         | Some counter \<Rightarrow> maps\<lparr>fm_drop_counters := al_insert key (add_drop packet_length counter) counters\<rparr>)"

section \<open>The flow policy\<close>

definition active_flow_verdict :: "bpf_env \<Rightarrow> flow_key \<Rightarrow> flow_maps \<Rightarrow> flow_maps \<times> flow_verdict_value option" where
  "active_flow_verdict env key maps =
     (case map_option read_flow_verdict (fm_verdicts maps (bpf_key_bytes key)) of
        None \<Rightarrow> (maps, None)
      | Some verdict \<Rightarrow>
          if fv_expires_monotonic_ns verdict \<le> be_now env \<or>
             (fm_policy_generation maps \<noteq> 0 \<and> fv_policy_generation verdict \<noteq> fm_policy_generation maps)
          then (maps\<lparr>fm_verdicts := (fm_verdicts maps)(bpf_key_bytes key := None)\<rparr>, None)
          else (maps, Some verdict))"

record flow_policy_packet =
  fpp_length :: u32
  fpp_ifindex :: u32
  fpp_mark :: u32
  fpp_priority :: u32
  fpp_ethernet_addresses :: "u8 list"

text \<open>The structure \<open>endpoint_block_key\<close> of a packet: the client is the source at ingress and the destination at
  egress.\<close>

definition endpoint_block_key :: "flow_policy_packet \<Rightarrow> flow_key \<Rightarrow> u8 list" where
  "endpoint_block_key packet key =
     [fk_ip_version key, fk_protocol key] @
     (if fk_hook key = 1
      then u16_be_bytes (fk_destination_port key) @ fk_source_address key @ fk_destination_address key @
           slice 6 6 (fpp_ethernet_addresses packet)
      else u16_be_bytes (fk_source_port key) @ fk_destination_address key @ fk_source_address key @
           slice 0 6 (fpp_ethernet_addresses packet)) @ [0, 0]"

definition endpoint_verdict :: "bpf_env \<Rightarrow> flow_policy_packet \<Rightarrow> flow_key \<Rightarrow> flow_maps \<Rightarrow> flow_maps \<times> flow_verdict_value option" where
  "endpoint_verdict env packet key maps =
     (let endpoint = endpoint_block_key packet key in
      case map_option read_flow_verdict (fm_endpoint_blocks maps endpoint) of
        None \<Rightarrow> (maps, None)
      | Some verdict \<Rightarrow>
          if fv_expires_monotonic_ns verdict \<le> be_now env \<or> fv_policy_generation verdict \<noteq> fm_policy_generation maps
          then (maps\<lparr>fm_endpoint_blocks := (fm_endpoint_blocks maps)(endpoint := None)\<rparr>, None)
          else (maps, Some verdict))"

text \<open>A shape verdict: the class of the priority backend where it is active, the mark of the legacy backend
  otherwise.\<close>

definition shape_packet :: "qos_maps \<Rightarrow> flow_key \<Rightarrow> flow_verdict_value \<Rightarrow> flow_policy_packet \<Rightarrow> flow_policy_packet" where
  "shape_packet qos key verdict packet =
     (let tag = fv_policy_tag verdict in
      if (case qm_priority_ifb qos of None \<Rightarrow> False | Some ifb \<Rightarrow> ifb \<noteq> 0) then
        if fpp_ifindex packet \<in> qm_priority_roots qos then
          let major = drop_bit 16 tag; minor = tag AND 0xffff in
          if ((fk_hook key = 1 \<and> major = upload_major) \<or> (fk_hook key = 2 \<and> major = download_major)) \<and>
             application_first \<le> minor \<and> minor \<le> application_last
          then packet\<lparr>fpp_priority := tag\<rparr> else packet
        else packet
      else if 0 < tag \<and> tag \<le> max_application_tag
      then packet\<lparr>fpp_mark := (fpp_mark packet AND NOT application_mark_mask) OR
                    (push_bit application_mark_shift tag AND application_mark_mask)\<rparr>
      else packet)"

definition evaluate_flow_policy ::
  "bpf_env \<Rightarrow> flow_policy_packet \<Rightarrow> flow_key \<Rightarrow> flow_maps \<Rightarrow> flow_maps \<times> flow_policy_packet \<times> int" where
  "evaluate_flow_policy env packet key maps =
     (let (maps, found) = active_flow_verdict env key maps;
          (maps, found) = (case found of None \<Rightarrow> endpoint_verdict env packet key maps | Some v \<Rightarrow> (maps, Some v))
      in case found of
           None \<Rightarrow> (maps, packet, tc_act_ok)
         | Some verdict \<Rightarrow>
             if fv_verdict verdict = verdict_shape then (maps, shape_packet (fm_qos maps) key verdict packet, tc_act_ok)
             else if fv_verdict verdict \<noteq> verdict_block then (maps, packet, tc_act_ok)
             else let maps = fst (record_flow env key (fpp_length packet) 0 maps);
                      maps = record_policy_drop env (fv_policy_identity_hash verdict) (fv_policy_client_mac verdict)
                        (fpp_length packet) maps
                  in (maps, packet, tc_act_shot))"

definition apply_flow_policy :: "bpf_env \<Rightarrow> flow_key \<Rightarrow> flow_maps \<Rightarrow> sk_buff \<Rightarrow> flow_maps \<times> sk_buff \<times> int" where
  "apply_flow_policy env key maps skb =
     (let (maps, packet, action) = evaluate_flow_policy env
            \<lparr>fpp_length = skb_len skb, fpp_ifindex = skb_ifindex skb, fpp_mark = skb_mark skb,
             fpp_priority = skb_priority skb, fpp_ethernet_addresses = slice 0 12 (skb_data skb)\<rparr> key maps
      in (maps, skb\<lparr>skb_mark := fpp_mark packet, skb_priority := fpp_priority packet\<rparr>, action))"

section \<open>Captures\<close>

definition record_dns_drop :: "flow_maps \<Rightarrow> flow_maps" where
  "record_dns_drop maps = maps\<lparr>fm_dns_drop_count := fm_dns_drop_count maps + 1\<rparr>"

definition sample_count :: "nat \<Rightarrow> u64 \<Rightarrow> flow_maps \<Rightarrow> flow_maps" where
  "sample_count index amount maps =
     (if index < length (fm_sample_counters maps)
      then maps\<lparr>fm_sample_counters := (fm_sample_counters maps)[index := fm_sample_counters maps ! index + amount]\<rparr>
      else maps)"

text \<open>The direction of a flow relative to the order of its endpoints. Ports are compared as they lie in memory.\<close>

definition raw_port :: "u16 \<Rightarrow> u16" where
  "raw_port port = u16_from_ne (u16_be_bytes port)"

definition sample_direction :: "flow_key \<Rightarrow> bool" where
  "sample_direction key \<longleftrightarrow>
     (case find (\<lambda>(s, d). s \<noteq> d) (zip (fk_source_address key) (fk_destination_address key)) of
        Some (s, d) \<Rightarrow> d < s
      | None \<Rightarrow> raw_port (fk_destination_port key) < raw_port (fk_source_port key))"

definition canonical_key :: "flow_key \<Rightarrow> flow_key" where
  "canonical_key key =
     (let canonical = key\<lparr>fk_ifindex := 0, fk_direction := 0\<rparr> in
      if sample_direction key
      then canonical\<lparr>fk_source_address := fk_destination_address key, fk_destination_address := fk_source_address key,
                     fk_source_port := fk_destination_port key, fk_destination_port := fk_source_port key\<rparr>
      else canonical)"

definition sample_length :: "bpf_env \<Rightarrow> u32 \<Rightarrow> nat" where
  "sample_length env original_length =
     min (min (unat original_length) (unat (be_sample_max_bytes_per_packet env))) sample_max_payload_length"

definition packets_seen :: "bool \<Rightarrow> sample_budget \<Rightarrow> u32" where
  "packets_seen direction budget = (if direction then sb_packets_seen1 budget else sb_packets_seen0 budget)"

definition count_packet :: "bool \<Rightarrow> sample_budget \<Rightarrow> sample_budget" where
  "count_packet direction budget =
     (if direction then budget\<lparr>sb_packets_seen1 := sb_packets_seen1 budget + 1\<rparr>
      else budget\<lparr>sb_packets_seen0 := sb_packets_seen0 budget + 1\<rparr>)"

definition sample_drop :: "nat \<Rightarrow> flow_maps \<Rightarrow> flow_maps" where
  "sample_drop len maps = sample_count 3 (of_nat len) (sample_count 2 1 maps)"

text \<open>The second half of \<open>maybe_capture_sample\<close>: the packet is charged to the budget and the event written.\<close>

definition submit_sample ::
  "bpf_env \<Rightarrow> sk_buff \<Rightarrow> flow_key \<Rightarrow> nat \<Rightarrow> u32 \<Rightarrow> nat \<Rightarrow> sample_budget \<Rightarrow> flow_maps \<Rightarrow> flow_maps" where
  "submit_sample env skb key network_offset original_length len budget maps =
     (if \<not> be_room_sample env (fm_sample_events maps) then sample_drop len maps
      else case be_skb_load_bytes env skb network_offset len of
        None \<Rightarrow> sample_drop len maps
      | Some payload \<Rightarrow>
          let event = \<lparr>se_key = key, se_original_length = original_length, se_timestamp_ns = be_now env,
                se_first_seen_ns = sb_first_seen_ns budget,
                se_flow_first_seen_ns = (case map_of (fm_flow maps) key of Some value \<Rightarrow> fc_first_seen_ns value
                  | None \<Rightarrow> sb_first_seen_ns budget),
                se_captured_length = of_nat len, se_payload = payload\<rparr>;
              maps = (if sb_sampled budget = 0
                      then sample_count 0 1 (maps\<lparr>fm_sample_budgets :=
                             al_insert (canonical_key key) (budget\<lparr>sb_sampled := 1\<rparr>) (fm_sample_budgets maps)\<rparr>)
                      else maps)
          in sample_count 4 1 (sample_count 1 (of_nat len) (maps\<lparr>fm_sample_events := fm_sample_events maps @ [event]\<rparr>)))"

definition charge_sample ::
  "bpf_env \<Rightarrow> sk_buff \<Rightarrow> flow_key \<Rightarrow> nat \<Rightarrow> u32 \<Rightarrow> nat \<Rightarrow> sample_budget \<Rightarrow> flow_maps \<Rightarrow> flow_maps" where
  "charge_sample env skb key network_offset original_length len budget maps =
     (let direction = sample_direction key;
          max_bytes = unat (be_sample_max_bytes_per_flow env);
          store = (\<lambda>b maps. maps\<lparr>fm_sample_budgets := al_insert (canonical_key key) b (fm_sample_budgets maps)\<rparr>);
          budget = budget\<lparr>sb_last_seen_ns := be_now env\<rparr>
      in if be_sample_max_packets_per_direction env \<le> packets_seen direction budget \<or>
            be_sample_max_bytes_per_flow env \<le> sb_bytes_seen budget
         then store budget maps
         else let previous = unat (sb_bytes_seen budget);
                  budget = (count_packet direction budget)\<lparr>sb_bytes_seen := sb_bytes_seen budget + of_nat len\<rparr>;
                  len = min len (max_bytes - previous);
                  maps = store budget maps
              in if len = 0 \<or> sample_max_payload_length < len then maps
                 else submit_sample env skb key network_offset original_length
                        ((len - 1) mod sample_max_payload_length + 1) budget maps)"

definition maybe_capture_sample ::
  "bpf_env \<Rightarrow> sk_buff \<Rightarrow> flow_key \<Rightarrow> nat \<Rightarrow> u32 \<Rightarrow> flow_maps \<Rightarrow> flow_maps" where
  "maybe_capture_sample env skb key network_offset original_length maps =
     (let max_bytes = unat (be_sample_max_bytes_per_flow env);
          max_packets = unat (be_sample_max_packets_per_direction env);
          len = sample_length env original_length;
          fresh = \<lparr>sb_first_seen_ns = be_now env, sb_last_seen_ns = be_now env, sb_bytes_seen = 0,
            sb_packets_seen0 = 0, sb_packets_seen1 = 0, sb_sampled = 0\<rparr>
      in if \<not> be_sample_enabled env \<or> original_length = 0 then maps
         else if max_bytes = 0 \<or> sample_max_bytes < max_bytes \<or> max_packets = 0 \<or> sample_max_packets < max_packets then maps
         else if len = 0 then maps
         else case map_of (fm_sample_budgets maps) (canonical_key key) of
           Some budget \<Rightarrow> charge_sample env skb key network_offset original_length len budget maps
         | None \<Rightarrow>
             if length (fm_sample_budgets maps) < sample_budgets_max_entries
             then charge_sample env skb key network_offset original_length len fresh
                    (maps\<lparr>fm_sample_budgets := al_insert (canonical_key key) fresh (fm_sample_budgets maps)\<rparr>)
             else sample_drop len maps)"

text \<open>The fields of a UDP header at an offset, if it lies in the linear part.\<close>

definition udp_complete :: "u8 list \<Rightarrow> nat \<Rightarrow> bool" where
  "udp_complete bytes cursor \<longleftrightarrow> cursor + 8 \<le> length bytes"

definition pad16 :: "u8 list \<Rightarrow> u8 list" where
  "pad16 address = address @ replicate (16 - length address) 0"

definition maybe_capture_dns ::
  "bpf_env \<Rightarrow> sk_buff \<Rightarrow> nat \<Rightarrow> u8 list \<Rightarrow> u8 \<Rightarrow> nat \<Rightarrow> flow_maps \<Rightarrow> flow_maps" where
  "maybe_capture_dns env skb udp client_address ip_version payload_offset maps =
     (let bytes = skb_data skb in
      if \<not> udp_complete bytes udp \<or> ntohs_at udp bytes \<noteq> 53 then maps
      else let udp_length = unat (ntohs_at (udp + 4) bytes) in
        if udp_length < 8 then maps
        else let wanted = udp_length - 8; available = length bytes - (udp + 8);
                 captured = min wanted available;
                 truncated = available < wanted \<or> dns_max_payload_length < captured;
                 captured' = min captured dns_max_payload_length
             in if captured = 0 then maps
                else if \<not> be_room_dns env (fm_dns_events maps) then record_dns_drop maps
                else case be_skb_load_bytes env skb payload_offset captured' of
                  None \<Rightarrow> record_dns_drop maps
                | Some payload \<Rightarrow> maps\<lparr>fm_dns_events := fm_dns_events maps @
                    [\<lparr>de_timestamp_ns = be_now env, de_ifindex = skb_ifindex skb, de_packet_length = skb_len skb,
                      de_payload_length = of_nat captured', de_ip_version = ip_version, de_truncated = of_bool truncated,
                      de_client_address = pad16 client_address, de_payload = payload\<rparr>]\<rparr>)"

definition maybe_capture_dhcp :: "bpf_env \<Rightarrow> sk_buff \<Rightarrow> nat \<Rightarrow> nat \<Rightarrow> nat \<Rightarrow> flow_maps \<Rightarrow> flow_maps" where
  "maybe_capture_dhcp env skb udp payload_offset available maps =
     (let bytes = skb_data skb in
      if \<not> udp_complete bytes udp then maps
      else let source = ntohs_at udp bytes; destination = ntohs_at (udp + 2) bytes;
               udp_length = unat (ntohs_at (udp + 4) bytes)
           in if \<not> ((source = 68 \<and> destination = 67) \<or> (source = 67 \<and> destination = 68)) then maps
              else if udp_length \<le> 8 then maps
              else let captured = min (min available (udp_length - 8)) dhcp_max_payload_length in
                if captured = 0 \<or> \<not> be_room_dhcp env (fm_dhcp_events maps) then maps
                else case be_skb_load_bytes env skb payload_offset captured of
                  None \<Rightarrow> maps
                | Some payload \<Rightarrow> maps\<lparr>fm_dhcp_events := fm_dhcp_events maps @
                    [\<lparr>dhe_timestamp_ns = be_now env, dhe_ifindex = skb_ifindex skb, dhe_packet_length = skb_len skb,
                      dhe_payload_length = of_nat captured, dhe_payload = payload\<rparr>]\<rparr>)"

text \<open>Both submissions of a discovery event.\<close>

definition submit_discovery ::
  "bpf_env \<Rightarrow> sk_buff \<Rightarrow> u16 \<Rightarrow> u16 \<Rightarrow> u8 list \<Rightarrow> u8 list \<Rightarrow> u8 \<Rightarrow> nat \<Rightarrow> nat \<Rightarrow> nat \<Rightarrow> flow_maps \<Rightarrow> flow_maps" where
  "submit_discovery env skb source destination source_address source_mac ip_version payload_offset original captured maps =
     (if \<not> be_room_discovery env (fm_discovery_events maps) then maps
      else case be_skb_load_bytes env skb payload_offset captured of
        None \<Rightarrow> maps
      | Some payload \<Rightarrow>
          let original_payload_length = (of_nat original :: u16) in
          maps\<lparr>fm_discovery_events := fm_discovery_events maps @
            [\<lparr>dce_timestamp_ns = be_now env, dce_ifindex = skb_ifindex skb, dce_packet_length = skb_len skb,
              dce_captured_payload_length = of_nat captured, dce_ip_version = ip_version,
              dce_truncated = of_bool (captured < unat original_payload_length),
              dce_source_address = pad16 source_address, dce_source_mac = source_mac, dce_source_port = source,
              dce_destination_port = destination, dce_original_payload_length = original_payload_length,
              dce_payload = payload\<rparr>]\<rparr>)"

definition maybe_capture_discovery ::
  "bpf_env \<Rightarrow> sk_buff \<Rightarrow> nat \<Rightarrow> nat \<Rightarrow> nat \<Rightarrow> u8 list \<Rightarrow> u8 list \<Rightarrow> u8 \<Rightarrow> flow_maps \<Rightarrow> flow_maps" where
  "maybe_capture_discovery env skb udp payload_offset available source_address source_mac ip_version maps =
     (let bytes = skb_data skb in
      if \<not> udp_complete bytes udp then maps
      else let source = ntohs_at udp bytes; destination = ntohs_at (udp + 2) bytes;
               udp_length = unat (ntohs_at (udp + 4) bytes)
           in if \<not> (source = 5353 \<or> destination = 5353 \<or> source = 1900 \<or> destination = 1900 \<or>
                    (source = 546 \<and> destination = 547)) then maps
              else if udp_length \<le> 8 then maps
              else let captured = min (min available (udp_length - 8)) discovery_max_payload_length in
                if captured = 0 then maps
                else submit_discovery env skb source destination source_address source_mac ip_version payload_offset
                       (udp_length - 8) captured maps)"

definition http_method :: "u8 list \<Rightarrow> bool" where
  "http_method method \<longleftrightarrow> method \<in> set (map as_bytes [''GET '', ''POST'', ''HEAD'', ''PUT '', ''PATC'', ''DELE'', ''OPTI'', ''CONN''])"

text \<open>The context that \<open>http_capture_context\<close> fills is passed as arguments: its map has one entry per processor.\<close>

definition maybe_capture_http_discovery ::
  "bpf_env \<Rightarrow> sk_buff \<Rightarrow> nat \<Rightarrow> nat \<Rightarrow> nat \<Rightarrow> u8 \<Rightarrow> u8 list \<Rightarrow> u8 list \<Rightarrow> flow_maps \<Rightarrow> flow_maps" where
  "maybe_capture_http_discovery env skb tcp transport_offset transport_available ip_version source_address source_mac maps =
     (let bytes = skb_data skb in
      if length bytes < tcp + 14 \<or> ntohs_at (tcp + 2) bytes \<noteq> 80 then maps
      else let data_offset = unat (drop_bit 2 (bytes ! (tcp + 12))) in
        if data_offset < 14 \<or> transport_available \<le> data_offset then maps
        else let available = transport_available - data_offset; payload_offset = transport_offset + data_offset in
          if available < 4 then maps
          else case be_skb_load_bytes env skb payload_offset 4 of
            None \<Rightarrow> maps
          | Some method \<Rightarrow>
              if \<not> http_method method then maps
              else submit_discovery env skb (ntohs_at tcp bytes) (ntohs_at (tcp + 2) bytes) source_address source_mac ip_version
                     payload_offset available (min available discovery_max_payload_length) maps)"

section \<open>Parsing\<close>

definition read_tcp_flags :: "u8 list \<Rightarrow> nat \<Rightarrow> u8" where
  "read_tcp_flags bytes cursor = (if length bytes < cursor + 14 then 0 else bytes ! (cursor + 13))"

text \<open>A sample is taken of the first packets of a flow.\<close>

definition sample_first ::
  "bpf_env \<Rightarrow> sk_buff \<Rightarrow> flow_key \<Rightarrow> nat \<Rightarrow> u32 \<Rightarrow> u64 \<Rightarrow> flow_maps \<Rightarrow> flow_maps" where
  "sample_first env skb key network_offset original_length flow_packets maps =
     (if be_sample_enabled env \<and> flow_packets \<le> ucast (be_sample_max_packets_per_direction env)
      then maybe_capture_sample env skb key network_offset original_length maps else maps)"

definition account ::
  "bpf_env \<Rightarrow> sk_buff \<Rightarrow> flow_key \<Rightarrow> nat \<Rightarrow> u8 \<Rightarrow> u32 \<Rightarrow> bool \<Rightarrow> flow_maps \<Rightarrow> flow_maps" where
  "account env skb key network_offset tcp_flags original_length may_sample maps =
     (let (maps, flow_packets) = record_flow env key (skb_len skb) tcp_flags maps
      in if may_sample then sample_first env skb key network_offset original_length flow_packets maps else maps)"

text \<open>The flow policy runs where policies are enabled; a packet it drops is not looked at further.\<close>

definition check_policy :: "bpf_env \<Rightarrow> flow_key \<Rightarrow> flow_maps \<Rightarrow> sk_buff \<Rightarrow> flow_maps \<times> sk_buff \<times> int" where
  "check_policy env key maps skb =
     (if fm_policy_enabled maps then apply_flow_policy env key maps skb else (maps, skb, tc_act_ok))"

definition capture_tcp ::
  "bpf_env \<Rightarrow> flow_key \<Rightarrow> nat \<Rightarrow> u8 list \<Rightarrow> sk_buff \<Rightarrow> flow_maps \<Rightarrow> flow_maps" where
  "capture_tcp env key transport source_address skb maps =
     (if fk_destination_port key = 80
      then maybe_capture_http_discovery env skb transport transport (unat (skb_len skb) - transport) (fk_ip_version key)
             source_address (eth_source (skb_data skb)) maps
      else maps)"

definition capture_udp ::
  "bpf_env \<Rightarrow> flow_key \<Rightarrow> nat \<Rightarrow> u8 list \<Rightarrow> u8 list \<Rightarrow> sk_buff \<Rightarrow> flow_maps \<Rightarrow> flow_maps" where
  "capture_udp env key transport source_address destination_address skb maps =
     (let payload_offset = transport + 8; available = unat (skb_len skb) - payload_offset;
          maps = maybe_capture_dns env skb transport destination_address (fk_ip_version key) payload_offset maps;
          maps = (if fk_ip_version key = 4 then maybe_capture_dhcp env skb transport payload_offset available maps else maps)
      in maybe_capture_discovery env skb transport payload_offset available source_address (eth_source (skb_data skb))
           (fk_ip_version key) maps)"

definition ipv4_key :: "u8 \<Rightarrow> sk_buff \<Rightarrow> nat \<Rightarrow> flow_key" where
  "ipv4_key hook skb cursor =
     \<lparr>fk_ip_version = 4, fk_protocol = skb_data skb ! (cursor + 9), fk_direction = 0, fk_hook = hook,
      fk_ifindex = skb_ifindex skb, fk_source_address = pad16 (slice (cursor + 12) 4 (skb_data skb)),
      fk_destination_address = pad16 (slice (cursor + 16) 4 (skb_data skb)), fk_source_port = 0, fk_destination_port = 0\<rparr>"

definition with_ports :: "u8 list \<Rightarrow> nat \<Rightarrow> flow_key \<Rightarrow> flow_key" where
  "with_ports bytes transport key =
     key\<lparr>fk_source_port := ntohs_at transport bytes, fk_destination_port := ntohs_at (transport + 2) bytes\<rparr>"

definition ipv4_transport :: "u8 list \<Rightarrow> nat \<Rightarrow> nat" where
  "ipv4_transport bytes cursor = cursor + unat (bytes ! cursor AND 0x0F) * 4"

definition ipv4_fragment_offset :: "u8 list \<Rightarrow> nat \<Rightarrow> u16" where
  "ipv4_fragment_offset bytes cursor = ntohs_at (cursor + 6) bytes AND 0x1FFF"

definition ipv4_header_ok :: "u8 list \<Rightarrow> nat \<Rightarrow> bool" where
  "ipv4_header_ok bytes cursor \<longleftrightarrow>
     cursor + 20 \<le> length bytes \<and> drop_bit 4 (bytes ! cursor) = 4 \<and>
     cursor + 20 \<le> ipv4_transport bytes cursor \<and> ipv4_transport bytes cursor \<le> length bytes \<and>
     bytes ! (cursor + 9) \<in> {ipproto_tcp, ipproto_udp, ipproto_esp, ipproto_gre}"

text \<open>A first fragment of TCP or UDP: the policy, then the captures.\<close>

definition ipv4_observe :: "bpf_env \<Rightarrow> flow_key \<Rightarrow> nat \<Rightarrow> sk_buff \<Rightarrow> flow_maps \<Rightarrow> flow_maps" where
  "ipv4_observe env key cursor skb maps =
     (let bytes = skb_data skb; transport = ipv4_transport bytes cursor;
          source = slice (cursor + 12) 4 bytes; destination = slice (cursor + 16) 4 bytes
      in if fk_protocol key = ipproto_tcp then capture_tcp env key transport source skb maps
         else capture_udp env key transport source destination skb maps)"

definition parse_ipv4 :: "bpf_env \<Rightarrow> u8 \<Rightarrow> bool \<Rightarrow> nat \<Rightarrow> flow_maps \<Rightarrow> sk_buff \<Rightarrow> flow_maps \<times> sk_buff \<times> int" where
  "parse_ipv4 env hook policy_only cursor maps skb =
     (let bytes = skb_data skb in
      if \<not> ipv4_header_ok bytes cursor then (maps, skb, tc_act_ok)
      else
        let key = ipv4_key hook skb cursor; transport = ipv4_transport bytes cursor;
            total_length = ntohs_at (cursor + 2) bytes
        in if ipv4_fragment_offset bytes cursor \<noteq> 0 then
             (if policy_only then maps else account env skb key cursor 0 (ucast total_length) False maps, skb, tc_act_ok)
           else if fk_protocol key \<in> {ipproto_esp, ipproto_gre} then
             (if policy_only then maps else account env skb key cursor 0 (ucast total_length) True maps, skb, tc_act_ok)
           else if length bytes < transport + 4 then (maps, skb, tc_act_ok)
           else
             let key = with_ports bytes transport key; (maps, skb, action) = check_policy env key maps skb in
             if action \<noteq> tc_act_ok \<or> policy_only then (maps, skb, action)
             else let maps = ipv4_observe env key cursor skb maps;
                      tcp_flags = (if fk_protocol key = ipproto_tcp then read_tcp_flags bytes transport else 0)
                  in (account env skb key cursor tcp_flags (ucast total_length)
                        (transport - cursor \<le> unat total_length) maps, skb, tc_act_ok))"

definition ipv6_key :: "u8 \<Rightarrow> sk_buff \<Rightarrow> nat \<Rightarrow> flow_key" where
  "ipv6_key hook skb cursor =
     \<lparr>fk_ip_version = 6, fk_protocol = 0, fk_direction = 0, fk_hook = hook, fk_ifindex = skb_ifindex skb,
      fk_source_address = slice (cursor + 8) 16 (skb_data skb), fk_destination_address = slice (cursor + 24) 16 (skb_data skb),
      fk_source_port = 0, fk_destination_port = 0\<rparr>"

text \<open>The loop over the extension headers: where it stops, the header it stops at, whether it stopped in front
  of a transport header within its bound, and whether the transport header may be read at all.\<close>

record ipv6_stop =
  is_cursor :: nat
  is_next_header :: u8
  is_transport :: bool
  is_can_parse :: bool

definition extension_length :: "u8 \<Rightarrow> u8 \<Rightarrow> nat option" where
  "extension_length next_header len =
     (if next_header \<in> {ipproto_hopopts, ipproto_routing, ipproto_dstopts} then Some ((unat len + 1) * 8)
      else if next_header = ipproto_ah then Some ((unat len + 2) * 4)
      else None)"

fun ipv6_walk :: "nat \<Rightarrow> u8 list \<Rightarrow> nat \<Rightarrow> u8 \<Rightarrow> ipv6_stop" where
  "ipv6_walk 0 bytes cursor next_header =
     \<lparr>is_cursor = cursor, is_next_header = next_header, is_transport = False, is_can_parse = True\<rparr>"
| "ipv6_walk (Suc n) bytes cursor next_header =
     (let stop = \<lparr>is_cursor = cursor, is_next_header = next_header, is_transport = False, is_can_parse = True\<rparr> in
      if next_header \<in> {ipproto_tcp, ipproto_udp} then stop\<lparr>is_transport := True\<rparr>
      else if length bytes < cursor + 2 then stop
      else if next_header = ipproto_fragment then
        if length bytes < cursor + 8 then stop
        else if ntohs_at (cursor + 2) bytes AND 0xFFF8 \<noteq> 0
        then stop\<lparr>is_cursor := cursor + 8, is_next_header := bytes ! cursor, is_can_parse := False\<rparr>
        else ipv6_walk n bytes (cursor + 8) (bytes ! cursor)
      else case extension_length next_header (bytes ! (cursor + 1)) of
        None \<Rightarrow> stop
      | Some len \<Rightarrow>
          if length bytes < cursor + len then stop else ipv6_walk n bytes (cursor + len) (bytes ! cursor))"

definition ipv6_observe :: "bpf_env \<Rightarrow> flow_key \<Rightarrow> nat \<Rightarrow> nat \<Rightarrow> sk_buff \<Rightarrow> flow_maps \<Rightarrow> flow_maps" where
  "ipv6_observe env key cursor transport skb maps =
     (let bytes = skb_data skb; source = slice (cursor + 8) 16 bytes; destination = slice (cursor + 24) 16 bytes;
          maps = (if fk_protocol key = ipproto_udp then capture_udp env key transport source destination skb maps
                  else capture_tcp env key transport source skb maps)
      in account env skb key cursor (if fk_protocol key = ipproto_tcp then read_tcp_flags bytes transport else 0)
           (40 + ucast (ntohs_at (cursor + 4) bytes)) True maps)"

text \<open>What follows the loop when it stopped elsewhere.\<close>

definition ipv6_rest :: "bpf_env \<Rightarrow> flow_key \<Rightarrow> nat \<Rightarrow> ipv6_stop \<Rightarrow> sk_buff \<Rightarrow> flow_maps \<Rightarrow> flow_maps" where
  "ipv6_rest env key cursor stop skb maps =
     (let bytes = skb_data skb; transport = is_cursor stop; next_header = is_next_header stop;
          readable = is_can_parse stop \<and> next_header \<in> {ipproto_tcp, ipproto_udp};
          key = key\<lparr>fk_protocol := next_header\<rparr>;
          key = (if readable \<and> transport + 4 \<le> length bytes then with_ports bytes transport key else key);
          maps = (if readable \<and> next_header = ipproto_udp
                  then maybe_capture_dns env skb transport (slice (cursor + 24) 16 bytes) 6 (transport + 8) maps else maps)
      in fst (record_flow env key (skb_len skb)
           (if is_can_parse stop \<and> next_header = ipproto_tcp then read_tcp_flags bytes transport else 0) maps))"

definition parse_ipv6 :: "bpf_env \<Rightarrow> u8 \<Rightarrow> bool \<Rightarrow> nat \<Rightarrow> flow_maps \<Rightarrow> sk_buff \<Rightarrow> flow_maps \<times> sk_buff \<times> int" where
  "parse_ipv6 env hook policy_only cursor maps skb =
     (let bytes = skb_data skb in
      if length bytes < cursor + 40 \<or> drop_bit 4 (bytes ! cursor) \<noteq> 6 then (maps, skb, tc_act_ok)
      else
        let key = ipv6_key hook skb cursor;
            stop = ipv6_walk ipv6_max_extension_headers bytes (cursor + 40) (bytes ! (cursor + 6));
            transport = is_cursor stop
        in if is_transport stop then
             let key = key\<lparr>fk_protocol := is_next_header stop\<rparr> in
             if transport + 4 \<le> length bytes then
               let key = with_ports bytes transport key; (maps, skb, action) = check_policy env key maps skb in
               if action \<noteq> tc_act_ok \<or> policy_only then (maps, skb, action)
               else (ipv6_observe env key cursor transport skb maps, skb, tc_act_ok)
             else (ipv6_observe env key cursor transport skb maps, skb, tc_act_ok)
           else if policy_only then (maps, skb, tc_act_ok)
           else (ipv6_rest env key cursor stop skb maps, skb, tc_act_ok))"

definition parse_packet :: "bpf_env \<Rightarrow> u8 \<Rightarrow> bool \<Rightarrow> flow_maps \<Rightarrow> sk_buff \<Rightarrow> flow_maps \<times> sk_buff \<times> int" where
  "parse_packet env hook policy_only maps skb =
     (let bytes = skb_data skb in
      if length bytes < 14 then (maps, skb, tc_act_ok)
      else case skip_vlans max_vlan_headers (ntohs_at 12 bytes) 14 bytes of
        None \<Rightarrow> (maps, skb, tc_act_ok)
      | Some (protocol, cursor) \<Rightarrow>
          if protocol = eth_p_ip then parse_ipv4 env hook policy_only cursor maps skb
          else if protocol = eth_p_ipv6 then parse_ipv6 env hook policy_only cursor maps skb
          else (maps, skb, tc_act_ok))"

section \<open>The programs\<close>

definition on_qos :: "(qos_maps \<Rightarrow> sk_buff \<Rightarrow> int \<Rightarrow> qos_maps \<times> sk_buff \<times> int) \<Rightarrow> flow_maps \<times> sk_buff \<times> int \<Rightarrow>
    flow_maps \<times> sk_buff \<times> int" where
  "on_qos f state =
     (let (maps, skb, action) = state; (qos, skb, action) = f (fm_qos maps) skb action
      in (maps\<lparr>fm_qos := qos\<rparr>, skb, action))"

definition netqmon_ingress :: "bpf_env \<Rightarrow> flow_maps \<Rightarrow> sk_buff \<Rightarrow> flow_maps \<times> sk_buff \<times> int" where
  "netqmon_ingress env maps skb =
     (let maps = maps\<lparr>fm_qos := qos_path_observe skb 1 (fm_qos maps)\<rparr>
      in on_qos (finish_ingress (be_now env)) (parse_packet env 1 False maps skb))"

definition netqmon_policy_account_egress :: "bpf_env \<Rightarrow> flow_maps \<Rightarrow> sk_buff \<Rightarrow> flow_maps \<times> sk_buff \<times> int" where
  "netqmon_policy_account_egress env maps skb =
     (let seen = (skb_ingress_ifindex skb \<noteq> 0 \<and> skb_ingress_ifindex skb \<in> fm_observed_ifindexes maps)
      in if seen \<and> (\<not> fm_policy_enabled maps \<or> qos_priority_upload_classid_valid (skb_priority skb))
         then (maps, skb, tc_act_ok)
         else parse_packet env 2 seen maps skb)"

definition netqmon_egress :: "bpf_env \<Rightarrow> flow_maps \<Rightarrow> sk_buff \<Rightarrow> flow_maps \<times> sk_buff \<times> int" where
  "netqmon_egress env maps skb =
     on_qos (qos_priority_finish_egress (be_now env)) (netqmon_policy_account_egress env maps skb)"

end
