(* ===== verification/Verdict_Ownership.thy ===== *)
theory Verdict_Ownership
  imports Flow_Verdict
begin

text \<open>
  What the writer of flow verdicts guarantees: installing and revoking blocks are transactions on the verdict
  map, flows that share an on-wire tuple do not disturb each other, and the table of owners stays consistent
  under every sequence of operations.
\<close>

section \<open>Staging\<close>

definition tally :: "block_claims \<Rightarrow> staged_alias list \<Rightarrow> nat \<Rightarrow> nat" where
  "tally registry staged = fold (\<lambda>sa n. n - length (registered registry (sa_alias sa)) + length (sa_claims sa)) staged"

lemma staged_fold:
  assumes "\<And>acc a acc'. step acc a = Ok acc' \<Longrightarrow> \<exists>sa. sa_alias sa = a \<and> P sa \<and>
      acc' = (fst acc - length (registered registry a) + length (sa_claims sa), snd acc @ [sa])"
    and "try_fold step (n0, done0) aliases = Ok (n, staged)"
  shows "\<exists>new. staged = done0 @ new \<and> map sa_alias new = aliases \<and> (\<forall>sa\<in>set new. P sa) \<and> n = tally registry new n0"
  using assms(2)
proof (induction aliases arbitrary: n0 done0)
  case Nil
  then show ?case by (auto simp: tally_def)
next
  case (Cons a aliases)
  from Cons.prems obtain acc' where "step (n0, done0) a = Ok acc'" and rest: "try_fold step acc' aliases = Ok (n, staged)"
    by (auto simp: and_then_eq_Inr)
  from assms(1) [OF this(1)] obtain sa where sa: "sa_alias sa = a" "P sa"
    "acc' = (n0 - length (registered registry a) + length (sa_claims sa), done0 @ [sa])" by auto
  from Cons.IH [of "fst acc'" "snd acc'"] rest obtain new where "staged = snd acc' @ new" "map sa_alias new = aliases"
    "\<forall>sa\<in>set new. P sa" "n = tally registry new (fst acc')" by auto
  with sa show ?case by (intro exI [of _ "sa # new"]) (auto simp: tally_def)
qed

section \<open>The registry\<close>

definition claim_total :: "(flow_key \<times> block_claim list) list \<Rightarrow> nat" where
  "claim_total m = sum_list (map (\<lambda>(_, claims). length claims) m)"

definition claims_at :: "(flow_key \<times> block_claim list) list \<Rightarrow> flow_key \<Rightarrow> block_claim list" where
  "claims_at m a = (case map_of m a of None \<Rightarrow> [] | Some claims \<Rightarrow> claims)"

lemma registered_claims_at: "registered registry a = claims_at (bcs_aliases registry) a"
  by (simp add: registered_def claims_at_def)

lemma claim_total_insert:
  "claim_total (al_insert a cs m) + length (claims_at m a) = claim_total m + length cs"
  by (induction a cs m rule: al_insert.induct) (auto simp: claim_total_def claims_at_def split: option.splits)

lemma al_remove_absent: "a \<notin> fst ` set m \<Longrightarrow> al_remove a m = m"
  by (auto simp: al_remove_def filter_id_conv image_iff)

lemma claim_total_remove:
  "distinct (map fst m) \<Longrightarrow> claim_total (al_remove a m) + length (claims_at m a) = claim_total m"
proof (induction m)
  case (Cons x m)
  show ?case
  proof (cases "fst x = a")
    case True
    then have "al_remove a (x # m) = m" using Cons.prems al_remove_absent [of a m] by (auto simp: al_remove_def)
    with True show ?thesis by (cases x) (simp add: claim_total_def claims_at_def)
  next
    case False
    then have "al_remove a (x # m) = x # al_remove a m" "claims_at (x # m) a = claims_at m a"
      by (cases x; auto simp: al_remove_def claims_at_def)+
    with Cons show ?thesis by (cases x) (simp add: claim_total_def)
  qed
qed (simp add: claim_total_def claims_at_def al_remove_def)

definition enter :: "staged_alias \<Rightarrow> (flow_key \<times> block_claim list) list \<Rightarrow> (flow_key \<times> block_claim list) list" where
  "enter sa m = (if sa_claims sa = [] then al_remove (sa_alias sa) m else al_insert (sa_alias sa) (sa_claims sa) m)"

lemma record_claims_enter:
  "record_claims staged n registry = registry\<lparr>bcs_aliases := fold enter staged (bcs_aliases registry), bcs_count := n\<rparr>"
  by (simp add: record_claims_def enter_def [abs_def])

lemma enter_keys: "distinct (map fst m) \<Longrightarrow> distinct (map fst (enter sa m))"
  by (simp add: enter_def)

lemma claims_at_enter: "claims_at (enter sa m) a = (if a = sa_alias sa then sa_claims sa else claims_at m a)"
  by (simp add: enter_def claims_at_def)

lemma enter_total:
  "distinct (map fst m) \<Longrightarrow> claim_total (enter sa m) + length (claims_at m (sa_alias sa)) = claim_total m + length (sa_claims sa)"
  using claim_total_insert [of "sa_alias sa" "sa_claims sa" m] claim_total_remove [of m "sa_alias sa"]
  by (auto simp: enter_def)

lemma fold_enter:
  assumes "distinct (map fst m)" and "distinct (map sa_alias staged)"
  shows "distinct (map fst (fold enter staged m)) \<and>
    claim_total (fold enter staged m) = fold (\<lambda>sa n. n - length (claims_at m (sa_alias sa)) + length (sa_claims sa)) staged (claim_total m) \<and>
    (\<forall>a. claims_at (fold enter staged m) a = (case find (\<lambda>sa. sa_alias sa = a) staged of None \<Rightarrow> claims_at m a | Some sa \<Rightarrow> sa_claims sa))"
  using assms
proof (induction staged arbitrary: m)
  case (Cons sa staged)
  let ?m = "enter sa m"
  note IH = Cons.IH [of ?m]
  have fresh: "sa_alias x \<noteq> sa_alias sa" if "x \<in> set staged" for x
    using that Cons.prems(2) by (metis distinct.simps(2) image_eqI list.map(2) set_map)
  then have ck: "claims_at ?m (sa_alias x) = claims_at m (sa_alias x)" if "x \<in> set staged" for x
    using that by (simp add: claims_at_enter)
  have "fold (\<lambda>sa n. n - length (claims_at ?m (sa_alias sa)) + length (sa_claims sa)) staged t =
        fold (\<lambda>sa n. n - length (claims_at m (sa_alias sa)) + length (sa_claims sa)) staged t" for t
    by (rule fold_cong) (simp_all add: ck)
  moreover have "claim_total ?m = claim_total m - length (claims_at m (sa_alias sa)) + length (sa_claims sa)"
    using enter_total [OF Cons.prems(1), of sa] claim_total_insert [of "sa_alias sa" "[]" m] by simp
  moreover have "find (\<lambda>x. sa_alias x = sa_alias sa) staged = None" using fresh by (simp add: find_None_iff)
  ultimately show ?case using IH Cons.prems enter_keys [of m sa] by (auto simp: claims_at_enter split: option.split)
qed simp

text \<open>The owners of one alias agree on the decision they enforce and are different flows.\<close>

definition owners_ok :: "block_claim list \<Rightarrow> bool" where
  "owners_ok cs \<longleftrightarrow> length cs \<le> max_block_owners_per_alias \<and> distinct (map (\<lambda>c. vi_flow_hash (bc_identity c)) cs) \<and>
     (\<forall>c\<in>set cs. identity_ok (bc_identity c)) \<and>
     (\<forall>c\<in>set cs. \<forall>d\<in>set cs. same_decision (bc_generation c) (bc_identity c) d)"

definition registry_ok :: "block_claims \<Rightarrow> bool" where
  "registry_ok registry \<longleftrightarrow>
     distinct (map fst (bcs_aliases registry)) \<and> bcs_count registry = claim_total (bcs_aliases registry) \<and>
     bcs_count registry \<le> max_block_claims \<and> (\<forall>a. owners_ok (registered registry a))"

lemma owners_ok_Nil [simp]: "owners_ok []"
  by (simp add: owners_ok_def)

lemma owners_ok_filter: "owners_ok cs \<Longrightarrow> owners_ok (filter P cs)"
  by (auto simp: owners_ok_def distinct_map_filter intro: le_trans [OF length_filter_le])

lemma joined_claims_member:
  assumes "c \<in> set (joined_claims now identity generation expires observed old previous)"
  shows "same_decision generation identity c" and "c \<in> set old \<or> bc_identity c = identity"
  using assms by (auto simp: joined_claims_def Let_def same_decision_def list_all_iff split: if_splits)

lemma owners_ok_joined:
  assumes "owners_ok old" and "identity_ok identity"
    and "length (joined_claims now identity generation expires observed old previous) \<le> max_block_owners_per_alias"
  shows "owners_ok (joined_claims now identity generation expires observed old previous)"
proof -
  let ?cs = "joined_claims now identity generation expires observed old previous"
  have "\<forall>c\<in>set ?cs. same_decision generation identity c" by (blast dest: joined_claims_member)
  then have "\<forall>c\<in>set ?cs. \<forall>d\<in>set ?cs. same_decision (bc_generation c) (bc_identity c) d" by (simp add: same_decision_def)
  moreover have "\<forall>c\<in>set ?cs. identity_ok (bc_identity c)"
    using assms(1,2) by (metis joined_claims_member(2) owners_ok_def)
  moreover have "distinct (map (\<lambda>c. vi_flow_hash (bc_identity c)) ?cs)"
    using assms(1) by (auto simp: joined_claims_def Let_def owners_ok_def distinct_map_filter)
  ultimately show ?thesis using assms(3) by (simp add: owners_ok_def)
qed

lemma sweep_registry_ok: "registry_ok registry \<Longrightarrow> registry_ok (sweep_expired now wanted registry)"
proof -
  assume ok: "registry_ok registry"
  let ?P = "\<lambda>(_, claims). list_ex (\<lambda>claim. bc_expires_monotonic_ns claim > now) claims"
  let ?m = "bcs_aliases registry" let ?f = "filter ?P ?m"
  have d: "distinct (map fst ?f)" using ok by (simp add: registry_ok_def distinct_map_filter)
  have "claim_total ?f \<le> claim_total ?m" unfolding claim_total_def by (rule sum_list_filter_le_nat)
  moreover have "claims_at ?f a \<in> {[], claims_at ?m a}" for a
  proof (cases "map_of ?f a")
    case (Some cs)
    then have "(a, cs) \<in> set ?m" by (auto dest: map_of_SomeD)
    then have "map_of ?m a = Some cs" using ok by (simp add: registry_ok_def)
    with Some show ?thesis by (simp add: claims_at_def)
  qed (simp add: claims_at_def)
  then have "owners_ok (claims_at ?f a)" for a using ok by (metis emptyE insertE owners_ok_Nil registered_claims_at registry_ok_def)
  ultimately show ?thesis using ok d
    by (auto simp: sweep_expired_def Let_def registry_ok_def registered_claims_at claim_total_def)
qed

lemma record_claims_ok:
  assumes "registry_ok registry" and "distinct (map sa_alias staged)" and "\<forall>sa\<in>set staged. owners_ok (sa_claims sa)"
    and "tally registry staged (bcs_count registry) \<le> max_block_claims"
  shows "registry_ok (record_claims staged (tally registry staged (bcs_count registry)) registry)"
proof -
  let ?m = "fold enter staged (bcs_aliases registry)"
  from assms(1) have d: "distinct (map fst (bcs_aliases registry))" by (simp add: registry_ok_def)
  note f = fold_enter [OF d assms(2)]
  then have "claim_total ?m = tally registry staged (bcs_count registry)"
    using assms(1) by (simp add: tally_def registered_claims_at registry_ok_def)
  moreover have "owners_ok (claims_at ?m a)" for a
  proof (cases "find (\<lambda>sa. sa_alias sa = a) staged")
    case None
    with f assms(1) show ?thesis by (simp add: registry_ok_def registered_claims_at)
  next
    case (Some sa)
    then have "sa \<in> set staged" by (auto simp: find_Some_iff)
    with Some f assms(3) show ?thesis by simp
  qed
  ultimately show ?thesis using f assms(4) by (simp add: record_claims_enter registry_ok_def registered_claims_at)
qed

section \<open>Installing blocks\<close>

lemma stage_block_Ok:
  assumes "stage_block K h k now obs identity generation expires registry acc a = Ok acc'"
  obtains sa where "sa_alias sa = a" "contents K h k (bpf_key_bytes a) = Ok (sa_previous sa)"
    "sa_claims sa = joined_claims now identity generation expires (list_ex (same_observed_orientation a) obs)
       (registered registry a) (sa_previous sa)"
    "length (sa_claims sa) \<le> max_block_owners_per_alias"
    "sa_next sa = map_option (\<lambda>winner. encode_block_claim winner (sa_claims sa)) (select_block_claim (sa_claims sa) (sa_previous sa))"
    "acc' = (fst acc - length (registered registry a) + length (sa_claims sa), snd acc @ [sa])"
proof -
  from assms obtain previous where p: "hk_lookup K h (bpf_key_bytes a) k = Ok previous"
    by (auto simp: stage_block_def and_then_eq_Inr map_err_eq_Inr)
  let ?cs = "joined_claims now identity generation expires (list_ex (same_observed_orientation a) obs) (registered registry a) previous"
  show thesis
    by (rule that [of "\<lparr>sa_alias = a, sa_previous = previous, sa_claims = ?cs,
          sa_next = map_option (\<lambda>winner. encode_block_claim winner ?cs) (select_block_claim ?cs previous)\<rparr>"])
      (use assms p in \<open>auto simp: stage_block_def contents_def Let_def res_simps split: if_splits\<close>)
qed

definition blocks_until :: "verdict_identity \<Rightarrow> u64 \<Rightarrow> u64 \<Rightarrow> u8 list \<Rightarrow> bool" where
  "blocks_until identity generation expires val \<longleftrightarrow>
     length val = verdict_value_size \<and> val ! 60 = verdict_block \<and> slice 8 8 val = u64_ne_bytes generation \<and>
     slice 32 16 val = vi_policy_hash identity \<and> slice 48 6 val = vi_client_mac identity \<and>
     expires \<le> u64_from_ne (slice 0 8 val)"

lemma encode_block_claim_blocks:
  assumes "identity_ok (bc_identity winner)" and "same_decision generation identity winner" and "c \<in> set claims"
  shows "blocks_until identity generation (bc_expires_monotonic_ns c) (encode_block_claim winner claims)"
proof -
  obtain e es where es: "map bc_expires_monotonic_ns claims = e # es" using assms(3) by (cases claims) auto
  have "bc_expires_monotonic_ns c \<in> set (e # es)" using assms(3) by (metis es image_eqI set_map)
  then have "bc_expires_monotonic_ns c \<le> foldl max e es" using foldl_max_ge foldl_max_ge_elem by auto
  with assms(2) es show ?thesis
    by (simp add: blocks_until_def encode_block_claim_def encode_verdict_fields [OF assms(1) refl] same_decision_def
        ne64.decode_encode)
qed

lemma joined_claims_new:
  "\<lparr>bc_identity = identity, bc_generation = generation, bc_expires_monotonic_ns = expires, bc_observed_orientation = observed\<rparr>
     \<in> set (joined_claims now identity generation expires observed old previous)"
  by (simp add: joined_claims_def Let_def)

lemma staged_next_blocks:
  assumes "owners_ok old" and "identity_ok identity"
    and "claims = joined_claims now identity generation expires observed old previous"
    and "select_block_claim claims current = Some winner"
  shows "blocks_until identity generation expires (encode_block_claim winner claims)"
proof -
  have w: "winner \<in> set claims" using assms(4) by (rule select_block_claim_in)
  then have "same_decision generation identity winner" "identity_ok (bc_identity winner)"
    using joined_claims_member assms(1-3) by (metis, metis owners_ok_def)
  from encode_block_claim_blocks [OF this(2,1)] joined_claims_new assms(3) show ?thesis by fastforce
qed

text \<open>The updates that the staged aliases ask for.\<close>

lemma verdict_updates_map_of:
  assumes "\<forall>sa\<in>set staged. flow_key_ok (sa_alias sa)" and "distinct (map sa_alias staged)"
  shows "distinct (map fst (verdict_updates staged))"
    and "sa \<in> set staged \<Longrightarrow> map_of (verdict_updates staged) (bpf_key_bytes (sa_alias sa)) = Some (sa_previous sa, sa_next sa)"
    and "key \<notin> (\<lambda>sa. bpf_key_bytes (sa_alias sa)) ` set staged \<Longrightarrow> map_of (verdict_updates staged) key = None"
proof -
  have "inj_on (\<lambda>sa. bpf_key_bytes (sa_alias sa)) (set staged)"
    using assms by (auto simp: inj_on_def bpf_key_bytes_inject distinct_map)
  then show d: "distinct (map fst (verdict_updates staged))"
    using assms(2) by (simp add: verdict_updates_def distinct_map o_def)
  show "sa \<in> set staged \<Longrightarrow> map_of (verdict_updates staged) (bpf_key_bytes (sa_alias sa)) = Some (sa_previous sa, sa_next sa)"
    by (rule map_of_is_SomeI [OF d]) (auto simp: verdict_updates_def)
  show "key \<notin> (\<lambda>sa. bpf_key_bytes (sa_alias sa)) ` set staged \<Longrightarrow> map_of (verdict_updates staged) key = None"
    by (auto simp: map_of_eq_None_iff verdict_updates_def)
qed

text \<open>A batch of staged aliases that is written to the map and entered into the registry.\<close>

definition commit_staged ::
  "('h, 'k) hash_kernel \<Rightarrow> 'h \<Rightarrow> staged_alias list \<Rightarrow> nat \<Rightarrow> ('k verdict_state, unit) io" where
  "commit_staged K h staged n =
     io_bind (on_hash (apply_verdict_updates K h (verdict_updates staged))) (\<lambda>_.
     io_modify (\<lambda>s. s\<lparr>vs_claims := record_claims staged n (vs_claims s)\<rparr>))"

lemma commit_staged_bind:
  "io_bind (on_hash (apply_verdict_updates K h (verdict_updates staged))) (\<lambda>_.
     io_bind (io_modify (\<lambda>s. s\<lparr>vs_claims := record_claims staged n (vs_claims s)\<rparr>)) (\<lambda>_. io_ok x)) =
   io_bind (commit_staged K h staged n) (\<lambda>_. io_ok x)"
  by (rule ext) (auto simp: commit_staged_def io_bind_run io_simps split: sum.splits)

lemma on_hash_run: "on_hash f s = (s\<lparr>vs_kernel := fst (f (vs_kernel s))\<rparr>, snd (f (vs_kernel s)))"
  by (simp add: on_hash_def split_def Let_def)

definition commit_staged_result ::
  "('h, 'k) hash_kernel \<Rightarrow> 'h \<Rightarrow> staged_alias list \<Rightarrow> nat \<Rightarrow> 'k verdict_state \<Rightarrow> 'k verdict_state \<Rightarrow> unit res \<Rightarrow> bool" where
  "commit_staged_result K h staged n s s' r = (case r of
      Inl e \<Rightarrow> vs_claims s' = vs_claims s \<and>
        (reports_rollback_error e \<or> contents K h (vs_kernel s') = contents K h (vs_kernel s))
    | Inr _ \<Rightarrow> vs_claims s' = record_claims staged n (vs_claims s) \<and>
        (\<forall>sa\<in>set staged. contents K h (vs_kernel s') (bpf_key_bytes (sa_alias sa)) = Ok (sa_next sa)) \<and>
        (\<forall>key. key \<notin> (\<lambda>sa. bpf_key_bytes (sa_alias sa)) ` set staged \<longrightarrow>
           contents K h (vs_kernel s') key = contents K h (vs_kernel s) key))"

lemma commit_staged_outcome:
  assumes "hash_map_laws K h" and "\<forall>sa\<in>set staged. flow_key_ok (sa_alias sa)" and "distinct (map sa_alias staged)"
    and "\<forall>sa\<in>set staged. contents K h (vs_kernel s) (bpf_key_bytes (sa_alias sa)) = Ok (sa_previous sa)"
    and "commit_staged K h staged n s = (s', r)"
  shows "commit_staged_result K h staged n s s' r"
proof -
  note keys = verdict_updates_map_of [OF assms(2,3)]
  obtain k1 r1 where a: "apply_verdict_updates K h (verdict_updates staged) (vs_kernel s) = (k1, r1)" by force
  have "\<forall>(key, previous, nxt)\<in>set (verdict_updates staged). contents K h (vs_kernel s) key = Ok previous"
    using assms(4) by (auto simp: verdict_updates_def)
  from apply_verdict_updates_outcome [OF assms(1) keys(1) this a] assms(5) keys(2,3) show ?thesis
    by (auto simp: commit_staged_result_def commit_staged_def io_bind_run io_simps on_hash_run a split: sum.splits)
qed

lemma install_staged:
  assumes "try_fold (stage_block K h k now obs identity generation expires registry) (n0, []) aliases = Ok (n, staged)"
    and "registry_ok registry" and "identity_ok identity"
  shows "map sa_alias staged = aliases" and "n = tally registry staged n0"
    and "\<forall>sa\<in>set staged. contents K h k (bpf_key_bytes (sa_alias sa)) = Ok (sa_previous sa) \<and> owners_ok (sa_claims sa) \<and>
      (\<exists>val. sa_next sa = Some val \<and> blocks_until identity generation expires val)"
proof -
  let ?P = "\<lambda>sa. contents K h k (bpf_key_bytes (sa_alias sa)) = Ok (sa_previous sa) \<and> owners_ok (sa_claims sa) \<and>
      (\<exists>val. sa_next sa = Some val \<and> blocks_until identity generation expires val)"
  have "\<exists>sa. sa_alias sa = a \<and> ?P sa \<and>
      acc' = (fst acc - length (registered registry a) + length (sa_claims sa), snd acc @ [sa])"
    if step: "stage_block K h k now obs identity generation expires registry acc a = Ok acc'" for acc a acc'
  proof -
    from stage_block_Ok [OF step] obtain sa where sa: "sa_alias sa = a" "contents K h k (bpf_key_bytes a) = Ok (sa_previous sa)"
      "sa_claims sa = joined_claims now identity generation expires (list_ex (same_observed_orientation a) obs)
         (registered registry a) (sa_previous sa)"
      "length (sa_claims sa) \<le> max_block_owners_per_alias"
      "sa_next sa = map_option (\<lambda>winner. encode_block_claim winner (sa_claims sa)) (select_block_claim (sa_claims sa) (sa_previous sa))"
      "acc' = (fst acc - length (registered registry a) + length (sa_claims sa), snd acc @ [sa])" .
    have old: "owners_ok (registered registry a)" using assms(2) by (simp add: registry_ok_def)
    have "sa_claims sa \<noteq> []" using joined_claims_new sa(3) by (metis empty_iff list.set(1))
    then obtain winner where w: "select_block_claim (sa_claims sa) (sa_previous sa) = Some winner"
      using select_block_claim_None by blast
    from staged_next_blocks [OF old assms(3) sa(3) w] owners_ok_joined [OF old assms(3)] sa w show ?thesis
      by (intro exI [of _ sa]) auto
  qed
  from staged_fold [where P = ?P and registry = registry, OF this assms(1)]
  show "map sa_alias staged = aliases" "n = tally registry staged n0" "\<forall>sa\<in>set staged. ?P sa" by auto
qed

text \<open>The outcome of an installation on the map and the registry.\<close>

lemma install_owned_block_outcome:
  assumes "hash_map_laws K h" and "fvw_verdict_map w = Some h" and "\<forall>a\<in>set aliases. flow_key_ok a"
    and "registry_ok (vs_claims s)" and "identity_ok identity"
    and "install_owned_block K w aliases obs identity generation expires s = (s', r)"
  shows "registry_ok (vs_claims s') \<and> (case r of
      Inl e \<Rightarrow> reports_rollback_error e \<or> contents K h (vs_kernel s') = contents K h (vs_kernel s)
    | Inr n \<Rightarrow> n = length aliases \<and>
        (\<forall>a\<in>set aliases. \<exists>val. contents K h (vs_kernel s') (bpf_key_bytes a) = Ok (Some val) \<and>
           blocks_until identity generation expires val) \<and>
        (\<forall>key. key \<notin> bpf_key_bytes ` set aliases \<longrightarrow> contents K h (vs_kernel s') key = contents K h (vs_kernel s) key))"
proof -
  let ?now = "hk_monotonic_ns K (vs_kernel s)"
  let ?s = "s\<lparr>vs_claims := sweep_expired ?now (length aliases) (vs_claims s)\<rparr>"
  let ?fold = "try_fold (stage_block K h (vs_kernel s) ?now obs identity generation expires (vs_claims ?s))
     (bcs_count (vs_claims ?s), []) aliases"
  have sw: "registry_ok (vs_claims ?s)" using sweep_registry_ok [OF assms(4)] by simp
  consider "s' = s" "\<exists>e. r = Inl e" | "s' = ?s" "\<exists>e. r = Inl e"
    | n staged where "distinct aliases" "?fold = Ok (n, staged)" "n \<le> max_block_claims"
        "io_bind (commit_staged K h staged n) (\<lambda>_. io_ok (length aliases)) ?s = (s', r)"
    using assms(2,6) unfolding install_owned_block_def commit_staged_bind
    by (auto simp: Let_def split: if_splits sum.splits)
  then show ?thesis
  proof cases
    case (3 n staged)
    note st = install_staged [OF 3(2) sw assms(5)]
    obtain s2 r2 where c: "commit_staged K h staged n ?s = (s2, r2)" by force
    have al: "set aliases = sa_alias ` set staged" using st(1) by auto
    have "distinct (map sa_alias staged)" "\<forall>sa\<in>set staged. flow_key_ok (sa_alias sa)" using 3(1) st(1) assms(3) al by auto
    moreover have "\<forall>sa\<in>set staged. contents K h (vs_kernel ?s) (bpf_key_bytes (sa_alias sa)) = Ok (sa_previous sa)"
      using st(3) by simp
    ultimately have out: "commit_staged_result K h staged n ?s s2 r2"
      using commit_staged_outcome [OF assms(1) _ _ _ c] by blast
    have "registry_ok (record_claims staged n (vs_claims ?s))"
      using record_claims_ok [OF sw \<open>distinct (map sa_alias staged)\<close>] st(2,3) 3(3) by simp
    with out sw 3(4) c st(3) show ?thesis
      by (cases r2) (auto simp: commit_staged_result_def io_bind_run io_simps al image_image)
  qed (use assms(4) sw in auto)
qed

section \<open>Revoking verdicts\<close>

text \<open>What a revocation leaves at an alias: no verdict of the revoked flow, and a block for every other flow
  that holds a live claim behind the verdict that was there.\<close>

definition revoked :: "u64 \<Rightarrow> u8 list option \<Rightarrow> block_claim list \<Rightarrow> u8 list option \<Rightarrow> u8 list option \<Rightarrow> bool" where
  "revoked now expected old previous nxt \<longleftrightarrow> (case expected of
      None \<Rightarrow> nxt = None
    | Some hash \<Rightarrow> (\<forall>val. nxt = Some val \<longrightarrow> \<not> names_flow hash val) \<and>
        (known_value old previous \<longrightarrow> (\<forall>c\<in>set old. now < bc_expires_monotonic_ns c \<and> vi_flow_hash (bc_identity c) \<noteq> hash \<longrightarrow>
           (\<exists>val. nxt = Some val \<and> blocks_until (bc_identity c) (bc_generation c) (bc_expires_monotonic_ns c) val))) \<and>
        (\<not> known_value old previous \<longrightarrow> (\<forall>val. previous = Some val \<longrightarrow> \<not> names_flow hash val \<longrightarrow> nxt = previous)))"

lemma owners_ok_block:
  assumes "owners_ok old" and "claims = filter P old" and "select_block_claim claims current = Some winner" and "c \<in> set claims"
  shows "blocks_until (bc_identity c) (bc_generation c) (bc_expires_monotonic_ns c) (encode_block_claim winner claims)"
proof -
  have "winner \<in> set old" "c \<in> set old" using select_block_claim_in [OF assms(3)] assms(2,4) by auto
  with assms(1) have "identity_ok (bc_identity winner)" "same_decision (bc_generation c) (bc_identity c) winner"
    by (auto simp: owners_ok_def)
  from encode_block_claim_blocks [OF this assms(4)] show ?thesis .
qed

lemma encode_block_claim_names:
  "identity_ok (bc_identity c) \<Longrightarrow> names_flow hash (encode_block_claim c cs) \<longleftrightarrow> vi_flow_hash (bc_identity c) = hash"
  by (auto simp: names_flow_def encode_block_claim_def encode_verdict_fields [OF _ refl] verdict_value_size_def)

lemma remaining_claims_ok:
  assumes "owners_ok old"
  shows "owners_ok (remaining_claims now expected old previous)"
    and "length (remaining_claims now expected old previous) \<le> length old"
  using owners_ok_filter [OF assms] by (auto simp: remaining_claims_def intro: order_trans [OF length_filter_le])

lemma revoked_known:
  assumes "owners_ok old" and "known_value old previous" and "claims = remaining_claims now (Some x) old previous"
  shows "revoked now (Some x) old previous (cleared_value (Some x) old previous claims)"
proof -
  let ?P = "\<lambda>c. bc_expires_monotonic_ns c > now \<and> vi_flow_hash (bc_identity c) \<noteq> x"
  let ?nxt = "cleared_value (Some x) old previous claims"
  have cs: "claims = filter ?P old" using assms(2,3) by (simp add: remaining_claims_def)
  have nxt: "?nxt = map_option (\<lambda>c. encode_block_claim c claims) (select_block_claim claims previous)"
    using assms(2) by (simp add: cleared_value_def)
  have "\<not> names_flow x val" if nv: "?nxt = Some val" for val
  proof -
    from nv nxt obtain c where c: "select_block_claim claims previous = Some c" "val = encode_block_claim c claims" by auto
    have "c \<in> set claims" using c(1) by (rule select_block_claim_in)
    then have "identity_ok (bc_identity c)" "vi_flow_hash (bc_identity c) \<noteq> x" using assms(1) cs by (auto simp: owners_ok_def)
    then show ?thesis using c(2) by (simp add: encode_block_claim_names)
  qed
  moreover have "\<exists>val. ?nxt = Some val \<and> blocks_until (bc_identity c) (bc_generation c) (bc_expires_monotonic_ns c) val"
    if c: "c \<in> set old" "now < bc_expires_monotonic_ns c" "vi_flow_hash (bc_identity c) \<noteq> x" for c
  proof -
    have "c \<in> set claims" using c cs by simp
    moreover from this obtain winner where "select_block_claim claims previous = Some winner"
      using select_block_claim_None [of claims previous] by fastforce
    ultimately show ?thesis using owners_ok_block [OF assms(1) cs] nxt by auto
  qed
  ultimately show ?thesis using assms(2) by (simp add: revoked_def)
qed

lemma revoked_cleared:
  assumes "owners_ok old" and "claims = remaining_claims now expected old previous"
  shows "revoked now expected old previous (cleared_value expected old previous claims)"
proof (cases expected)
  case None
  then show ?thesis using assms(2)
    by (auto simp: revoked_def cleared_value_def remaining_claims_def select_block_claim_None split: option.splits)
next
  case (Some x)
  show ?thesis
  proof (cases "known_value old previous")
    case True
    with revoked_known [OF assms(1)] assms(2) Some show ?thesis by simp
  qed (use Some in \<open>auto simp: revoked_def cleared_value_def split: option.splits\<close>)
qed

definition cleared_alias ::
  "('h, 'k) hash_kernel \<Rightarrow> 'h \<Rightarrow> 'k \<Rightarrow> u64 \<Rightarrow> u8 list option \<Rightarrow> block_claims \<Rightarrow> staged_alias \<Rightarrow> bool" where
  "cleared_alias K h k now expected registry sa \<longleftrightarrow>
     contents K h k (bpf_key_bytes (sa_alias sa)) = Ok (sa_previous sa) \<and> owners_ok (sa_claims sa) \<and>
     length (sa_claims sa) \<le> length (registered registry (sa_alias sa)) \<and>
     revoked now expected (registered registry (sa_alias sa)) (sa_previous sa) (sa_next sa)"

lemma stage_clear_Ok:
  assumes "stage_clear K h k now expected registry acc a = Ok acc'" and "owners_ok (registered registry a)"
  shows "\<exists>sa. sa_alias sa = a \<and> cleared_alias K h k now expected registry sa \<and>
    acc' = (fst acc - length (registered registry a) + length (sa_claims sa), snd acc @ [sa])"
proof -
  let ?old = "registered registry a"
  from assms(1) obtain previous where p: "hk_lookup K h (bpf_key_bytes a) k = Ok previous"
    by (auto simp: stage_clear_def and_then_eq_Inr map_err_eq_Inr)
  let ?cs = "remaining_claims now expected ?old previous"
  show ?thesis
    using assms(1) p remaining_claims_ok [OF assms(2)] revoked_cleared [OF assms(2) refl]
    by (intro exI [of _ "\<lparr>sa_alias = a, sa_previous = previous, sa_claims = ?cs,
          sa_next = cleared_value expected ?old previous ?cs\<rparr>"])
      (auto simp: stage_clear_def contents_def cleared_alias_def Let_def res_simps)
qed

lemma fold_enter_shrinks:
  assumes "distinct (map fst m)" and "distinct (map sa_alias staged)"
    and "\<forall>sa\<in>set staged. length (sa_claims sa) \<le> length (claims_at m (sa_alias sa))"
  shows "claim_total (fold enter staged m) \<le> claim_total m"
  using assms
proof (induction staged arbitrary: m)
  case (Cons sa staged)
  have "claims_at (enter sa m) (sa_alias x) = claims_at m (sa_alias x)" if "x \<in> set staged" for x
    using that Cons.prems(2) by (metis claims_at_enter distinct.simps(2) image_eqI list.map(2) set_map)
  then have "claim_total (fold enter staged (enter sa m)) \<le> claim_total (enter sa m)"
    using Cons.IH [of "enter sa m"] Cons.prems enter_keys by auto
  also have "\<dots> \<le> claim_total m" using enter_total [OF Cons.prems(1), of sa] Cons.prems(3) by simp
  finally show ?case by simp
qed simp

lemma set_first_occurrences [simp]: "set (first_occurrences xs) = set xs"
  by (induction xs rule: first_occurrences.induct) auto

lemma distinct_first_occurrences [simp]: "distinct (first_occurrences xs)"
  by (induction xs rule: first_occurrences.induct) auto

lemma clear_staged:
  assumes "try_fold (stage_clear K h k now expected registry) (bcs_count registry, []) aliases = Ok (n, staged)"
    and "registry_ok registry" and "distinct aliases"
  shows "map sa_alias staged = aliases" and "\<forall>sa\<in>set staged. cleared_alias K h k now expected registry sa"
    and "registry_ok (record_claims staged n registry)"
proof -
  have "\<exists>sa. sa_alias sa = a \<and> cleared_alias K h k now expected registry sa \<and>
      acc' = (fst acc - length (registered registry a) + length (sa_claims sa), snd acc @ [sa])"
    if "stage_clear K h k now expected registry acc a = Ok acc'" for acc a acc'
    using stage_clear_Ok [OF that] assms(2) by (simp add: registry_ok_def)
  from staged_fold [where P = "cleared_alias K h k now expected registry", OF this assms(1)]
  have st: "map sa_alias staged = aliases" "\<forall>sa\<in>set staged. cleared_alias K h k now expected registry sa"
    "n = tally registry staged (bcs_count registry)" by auto
  have d: "distinct (map fst (bcs_aliases registry))" "distinct (map sa_alias staged)" using assms(2,3) st(1) by (auto simp: registry_ok_def)
  have "claim_total (fold enter staged (bcs_aliases registry)) = n"
    using fold_enter [OF d] assms(2) st(3) by (simp add: tally_def registered_claims_at registry_ok_def)
  moreover have "claim_total (fold enter staged (bcs_aliases registry)) \<le> claim_total (bcs_aliases registry)"
    using st(2) by (intro fold_enter_shrinks d) (auto simp: cleared_alias_def registered_claims_at)
  ultimately have "n \<le> max_block_claims" using assms(2) by (simp add: registry_ok_def)
  with record_claims_ok [OF assms(2) d(2)] st show "registry_ok (record_claims staged n registry)"
    by (auto simp: cleared_alias_def)
  show "map sa_alias staged = aliases" "\<forall>sa\<in>set staged. cleared_alias K h k now expected registry sa" by (fact st)+
qed

lemma clear_aliases_outcome:
  assumes "hash_map_laws K h" and "fvw_verdict_map w = Some h" and "\<forall>a\<in>set aliases. flow_key_ok a"
    and "registry_ok (vs_claims s)" and "clear_aliases K w aliases flow s = (s', r)"
  shows "registry_ok (vs_claims s') \<and> (case r of
      Inl e \<Rightarrow> reports_rollback_error e \<or> contents K h (vs_kernel s') = contents K h (vs_kernel s)
    | Inr _ \<Rightarrow> \<exists>expected. revoked_hash flow = Ok expected \<and>
        (\<forall>a\<in>set aliases. \<exists>previous nxt. contents K h (vs_kernel s) (bpf_key_bytes a) = Ok previous \<and>
           contents K h (vs_kernel s') (bpf_key_bytes a) = Ok nxt \<and>
           revoked (hk_monotonic_ns K (vs_kernel s)) expected (registered (vs_claims s) a) previous nxt) \<and>
        (\<forall>key. key \<notin> bpf_key_bytes ` set aliases \<longrightarrow> contents K h (vs_kernel s') key = contents K h (vs_kernel s) key))"
proof -
  let ?now = "hk_monotonic_ns K (vs_kernel s)"
  let ?fold = "\<lambda>expected. try_fold (stage_clear K h (vs_kernel s) ?now expected (vs_claims s))
     (bcs_count (vs_claims s), []) (first_occurrences aliases)"
  consider "s' = s" "\<exists>e. r = Inl e"
    | expected n staged where "revoked_hash flow = Ok expected" "?fold expected = Ok (n, staged)"
        "io_bind (commit_staged K h staged n) (\<lambda>_.
           io_ok (length (filter (\<lambda>sa. sa_previous sa \<noteq> None \<and> sa_next sa = None) staged))) s = (s', r)"
    using assms(2,5) unfolding clear_aliases_def commit_staged_bind
    by (auto simp: Let_def split: if_splits sum.splits)
  then show ?thesis
  proof cases
    case (2 expected n staged)
    note st = clear_staged [OF 2(2) assms(4) distinct_first_occurrences]
    obtain s2 r2 where c: "commit_staged K h staged n s = (s2, r2)" by force
    have al: "set aliases = sa_alias ` set staged" using arg_cong [OF st(1), of set] by simp
    have "distinct (map sa_alias staged)" using st(1) by simp
    moreover have "\<forall>sa\<in>set staged. flow_key_ok (sa_alias sa)" using assms(3) al by auto
    ultimately have out: "commit_staged_result K h staged n s s2 r2"
      using commit_staged_outcome [OF assms(1) _ _ _ c] st(2) by (simp add: cleared_alias_def)
    show ?thesis
    proof (cases r2)
      case (Inl e)
      with out 2(3) c assms(4) show ?thesis by (auto simp: commit_staged_result_def io_bind_run io_simps)
    next
      case (Inr u)
      with out 2(3) c have s': "vs_claims s' = record_claims staged n (vs_claims s)" "is_ok r"
        "\<forall>sa\<in>set staged. contents K h (vs_kernel s') (bpf_key_bytes (sa_alias sa)) = Ok (sa_next sa)"
        "\<forall>key. key \<notin> (\<lambda>sa. bpf_key_bytes (sa_alias sa)) ` set staged \<longrightarrow>
           contents K h (vs_kernel s') key = contents K h (vs_kernel s) key"
        by (auto simp: commit_staged_result_def io_bind_run io_simps is_ok_iff)
      have "\<exists>previous nxt. contents K h (vs_kernel s) (bpf_key_bytes a) = Ok previous \<and>
           contents K h (vs_kernel s') (bpf_key_bytes a) = Ok nxt \<and>
           revoked ?now expected (registered (vs_claims s) a) previous nxt" if "a \<in> set aliases" for a
        using that al s'(3) st(2) by (auto simp: cleared_alias_def)
      with s' st(3) 2(1) show ?thesis by (auto simp: is_ok_iff al image_image)
    qed
  qed (use assms(4) in auto)
qed

section \<open>Shape verdicts and the registry\<close>

lemma forget_claims_ok: "registry_ok registry \<Longrightarrow> registry_ok (forget_claims aliases registry)"
proof (induction aliases arbitrary: registry)
  case Nil
  then show ?case by (simp add: forget_claims_def)
next
  case (Cons a aliases)
  let ?one = "case map_of (bcs_aliases registry) a of None \<Rightarrow> registry
      | Some removed \<Rightarrow> registry\<lparr>bcs_aliases := al_remove a (bcs_aliases registry), bcs_count := bcs_count registry - length removed\<rparr>"
  have "registry_ok ?one"
  proof (cases "map_of (bcs_aliases registry) a")
    case (Some removed)
    let ?m = "bcs_aliases registry"
    have d: "distinct (map fst ?m)" using Cons.prems by (simp add: registry_ok_def)
    have "claim_total (al_remove a ?m) + length removed = claim_total ?m"
      using claim_total_remove [OF d, of a] Some by (simp add: claims_at_def)
    moreover have "owners_ok (claims_at (al_remove a ?m) b)" for b
      using Cons.prems by (auto simp: claims_at_def registry_ok_def registered_def)
    ultimately show ?thesis using Cons.prems Some by (auto simp: registry_ok_def registered_claims_at)
  qed (use Cons.prems in simp)
  from Cons.IH [OF this] show ?case by (simp add: forget_claims_def)
qed

lemma claims_on_hash: "vs_claims (fst (on_hash f s)) = vs_claims s"
  by (simp add: on_hash_run)

lemma install_shape_registry:
  "registry_ok (vs_claims s) \<Longrightarrow> registry_ok (vs_claims (fst (install_shape K w aliases flow generation expires s)))"
  by (auto simp: install_shape_def io_bind_run io_simps forget_claims_ok claims_on_hash split: sum.splits)

lemma keeps_on_hash [keeps_intros]: "keeps (\<lambda>t. vs_claims t = c) (on_hash f)"
  by (rule keepsI) (simp add: claims_on_hash)

lemma endpoint_registry:
  "vs_claims (fst (remember_endpoint_blocks K sha256 w aliases flow policy mac generation expires s)) = vs_claims s"
  "vs_claims (fst (forget_endpoint_blocks K w aliases mac s)) = vs_claims s"
proof -
  show "vs_claims (fst (remember_endpoint_blocks K sha256 w aliases flow policy mac generation expires s)) = vs_claims s"
    by (auto simp: remember_endpoint_blocks_def io_bind_run io_simps claims_on_hash split: option.splits sum.splits)
  have "keeps (\<lambda>t. vs_claims t = vs_claims s) (io_each (forget_endpoint_block K h m) aliases)" for h m
    unfolding forget_endpoint_block_def by (intro keeps_intros)
  from keepsD [OF this] show "vs_claims (fst (forget_endpoint_blocks K w aliases mac s)) = vs_claims s"
    by (auto simp: forget_endpoint_blocks_def io_bind_run io_simps split: option.splits sum.splits)
qed

lemma registry_ok_default: "registry_ok block_claims_default"
  by (simp add: registry_ok_def block_claims_default_def claim_total_def registered_def)

section \<open>Resetting\<close>

text \<open>Writes to one map leave the others alone, and the listing of a map is complete.\<close>

definition hash_maps_separate :: "('h, 'k) hash_kernel \<Rightarrow> bool" where
  "hash_maps_separate K \<longleftrightarrow> (\<forall>h h' key val k. h \<noteq> h' \<longrightarrow> contents K h (fst (put K h' key val k)) = contents K h k)"

definition keys_complete :: "('h, 'k) hash_kernel \<Rightarrow> 'h \<Rightarrow> bool" where
  "keys_complete K h \<longleftrightarrow> (\<forall>k key val. contents K h k key = Ok (Some val) \<longrightarrow> key \<in> set (hk_keys K h k))"

lemma delete_is_put: "hk_delete K h key = put K h key None" and update_is_put: "hk_update K h key val = put K h key (Some val)"
  by (simp_all add: put_def)

lemma delete_keys_empties:
  assumes "hash_map_laws K h" and "delete_keys K h what keys k = (k', [])"
  shows "contents K h k' key = (if key \<in> set keys then Ok None else contents K h k key)"
  using assms(2)
proof (induction keys arbitrary: k)
  case (Cons x keys)
  obtain k1 r where p: "hk_delete K h x k = (k1, r)" by force
  obtain k2 e where q: "delete_keys K h what keys k1 = (k2, e)" by force
  from Cons.prems p q have "is_ok r" "k2 = k'" "e = []" by (auto simp: is_ok_iff split: sum.splits)
  with contents_put [OF assms(1) p [unfolded delete_is_put]] Cons.IH q show ?case by simp
qed simp

lemma delete_keys_other:
  assumes "hash_maps_separate K" and "h \<noteq> h'"
  shows "contents K h (fst (delete_keys K h' what keys k)) = contents K h k"
proof (induction keys arbitrary: k)
  case (Cons x keys)
  have "contents K h (fst (hk_delete K h' x k)) = contents K h k"
    using assms by (simp add: delete_is_put hash_maps_separate_def)
  with Cons [of "fst (hk_delete K h' x k)"] show ?case by (simp add: split_def Let_def)
qed simp

lemma write_policy_state_other:
  assumes "hash_maps_separate K" and "fvw_policy_state_map w \<noteq> Some h"
  shows "contents K h (fst (write_policy_state K w enabled generation k)) = contents K h k"
  using assms by (auto simp: write_policy_state_def update_is_put hash_maps_separate_def split_def Let_def split: option.split)

lemma write_policy_state_Ok:
  assumes "hash_map_laws K h" and "fvw_policy_state_map w = Some h"
    and "snd (write_policy_state K w enabled generation k) = Ok ()"
  shows "contents K h (fst (write_policy_state K w enabled generation k)) (u32_ne_bytes 0) = Ok (Some (encode_policy_state enabled generation))"
proof -
  obtain k' r where p: "put K h (u32_ne_bytes 0) (Some (encode_policy_state enabled generation)) k = (k', r)" by force
  with assms(2,3) have "is_ok r" by (simp add: write_policy_state_def update_is_put is_ok_iff map_err_def split: sum.splits)
  with contents_put [OF assms(1) p] assms(2) p show ?thesis by (simp add: write_policy_state_def update_is_put)
qed

lemma error_list_Nil: "error_list r = [] \<longleftrightarrow> r = Ok ()"
  by (simp add: error_list_def split: sum.split)

lemma reset_outcome:
  assumes "hash_map_laws K h" "hash_map_laws K ph" and "hash_maps_separate K" and "keys_complete K h"
    and "fvw_verdict_map w = Some h" "fvw_policy_state_map w = Some ph"
    and "ph \<noteq> h" "fvw_endpoint_map w \<noteq> Some h" "fvw_endpoint_map w \<noteq> Some ph"
    and "reset K w generation enabled s = (s', Ok ())"
  shows "vs_claims s' = block_claims_default \<and>
    (\<forall>key val. contents K h (vs_kernel s') key \<noteq> Ok (Some val)) \<and>
    contents K ph (vs_kernel s') (u32_ne_bytes 0) = Ok (Some (encode_policy_state enabled generation))"
proof -
  obtain k1 r1 where w1: "write_policy_state K w False generation (vs_kernel s) = (k1, r1)" by force
  obtain k2 e2 where d2: "delete_keys K h ''clear BPF flow verdict: '' (hk_keys K h k1) k1 = (k2, e2)" by force
  obtain k3 e3 where d3: "(case fvw_endpoint_map w of None \<Rightarrow> (k2, [])
      | Some eh \<Rightarrow> delete_keys K eh ''clear BPF endpoint block: '' (hk_keys K eh k2) k2) = (k3, e3)" by force
  let ?errors = "error_list r1 @ e2 @ e3"
  obtain k4 r4 where w4: "write_policy_state K w (enabled \<and> ?errors = []) generation k3 = (k4, r4)" by force
  from assms(10) assms(5) w1 d2 d3 w4
  have ok: "?errors @ error_list r4 = []" "vs_claims s' = block_claims_default" "vs_kernel s' = k4"
    by (auto simp: reset_def Let_def split: if_splits)
  then have e: "e2 = []" "r4 = Ok ()" "?errors = []" by (simp_all add: error_list_Nil)
  have sep: "contents K h k3 = contents K h k2"
  proof (cases "fvw_endpoint_map w")
    case (Some eh)
    with assms(8) have "h \<noteq> eh" by auto
    from delete_keys_other [OF assms(3) this, of "''clear BPF endpoint block: ''" "hk_keys K eh k2" k2] d3 Some
    show ?thesis by simp
  qed (use d3 in simp)
  have ps: "fvw_policy_state_map w \<noteq> Some h" using assms(6,7) by simp
  have "contents K h k4 = contents K h k3"
    using write_policy_state_other [OF assms(3) ps, of "enabled \<and> ?errors = []" generation k3] w4 by simp
  moreover have "contents K h k2 key \<noteq> Ok (Some val)" for key val
  proof (cases "key \<in> set (hk_keys K h k1)")
    case False
    then have "contents K h k1 key \<noteq> Ok (Some val)" using assms(4) by (auto simp: keys_complete_def)
    with False delete_keys_empties [OF assms(1) d2 [unfolded e(1)], of key] show ?thesis by simp
  qed (simp add: delete_keys_empties [OF assms(1) d2 [unfolded e(1)]])
  ultimately have "\<forall>key val. contents K h k4 key \<noteq> Ok (Some val)" using sep by simp
  moreover have "contents K ph k4 (u32_ne_bytes 0) = Ok (Some (encode_policy_state enabled generation))"
    using write_policy_state_Ok [OF assms(2,6), of enabled generation k3] w4 e(2) unfolding e(3) by simp
  ultimately show ?thesis using ok by simp
qed

section \<open>All operations of the writer\<close>

inductive verdict_step ::
  "('h, 'k) hash_kernel \<Rightarrow> (u8 list \<Rightarrow> u8 list) \<Rightarrow> 'h flow_verdict_writer \<Rightarrow> 'k verdict_state \<Rightarrow> 'k verdict_state \<Rightarrow> bool"
  for K sha256 w where
  step_reset: "reset K w generation enabled s = (s', r) \<Longrightarrow> verdict_step K sha256 w s s'"
| step_block: "install_block K sha256 w aliases obs flow policy mac generation expires s = (s', r) \<Longrightarrow>
    \<forall>a\<in>set aliases. flow_key_ok a \<Longrightarrow> verdict_step K sha256 w s s'"
| step_shape: "install_shape K w tags flow generation expires s = (s', r) \<Longrightarrow> verdict_step K sha256 w s s'"
| step_clear: "clear_aliases K w aliases expected s = (s', r) \<Longrightarrow> \<forall>a\<in>set aliases. flow_key_ok a \<Longrightarrow> verdict_step K sha256 w s s'"
| step_remember: "remember_endpoint_blocks K sha256 w aliases flow policy mac generation expires s = (s', r) \<Longrightarrow>
    verdict_step K sha256 w s s'"
| step_forget: "forget_endpoint_blocks K w aliases mac s = (s', r) \<Longrightarrow> verdict_step K sha256 w s s'"

lemma flow_identity_hash_length: "flow_identity_hash flow = Ok hash \<Longrightarrow> length hash = 16"
  by (auto simp: flow_identity_hash_def split: if_splits dest: try_map_length)

lemma client_mac_identity_length: "client_mac_identity mac = Ok bytes \<Longrightarrow> length bytes = 6"
  by (auto simp: client_mac_identity_def split: if_splits dest: try_map_length)

lemma install_block_cases:
  assumes "install_block K sha256 w aliases obs flow policy mac generation expires s = (s', r)" and "\<forall>b. length (sha256 b) = 32"
  obtains e where "s' = s" "r = Inl e"
  | identity where "identity_ok identity" "flow_identity_hash flow = Ok (vi_flow_hash identity)"
      "client_mac_identity mac = Ok (vi_client_mac identity)" "vi_policy_hash identity = policy_identity_hash sha256 policy"
      "install_owned_block K w aliases obs identity generation expires s = (s', r)"
proof (cases "flow_identity_hash flow")
  case (Inr fh)
  show thesis
  proof (cases "client_mac_identity mac")
    case (Inr m)
    with \<open>flow_identity_hash flow = Inr fh\<close> assms(1) flow_identity_hash_length client_mac_identity_length assms(2)
    show ?thesis by (intro that(2) [of "\<lparr>vi_flow_hash = fh, vi_policy_hash = policy_identity_hash sha256 policy, vi_client_mac = m\<rparr>"])
      (auto simp: identity_ok_def policy_identity_hash_def install_block_def io_bind_run io_simps)
  qed (use assms(1) Inr that(1) in \<open>auto simp: install_block_def io_bind_run io_simps\<close>)
qed (use assms(1) that(1) in \<open>auto simp: install_block_def io_bind_run io_simps\<close>)

lemma reset_registry: "registry_ok (vs_claims s) \<Longrightarrow> reset K w generation enabled s = (s', r) \<Longrightarrow> registry_ok (vs_claims s')"
  by (auto simp: reset_def Let_def registry_ok_default split: if_splits option.splits prod.splits)

lemma verdict_step_registry:
  assumes "hash_map_laws K h" and "fvw_verdict_map w = Some h" and "\<forall>b. length (sha256 b) = 32"
    and "verdict_step K sha256 w s s'" and "registry_ok (vs_claims s)"
  shows "registry_ok (vs_claims s')"
  using assms(4)
proof cases
  case (step_reset generation enabled r)
  with reset_registry assms(5) show ?thesis by metis
next
  case (step_block aliases obs flow policy mac generation expires r)
  from step_block(1) assms(3) show ?thesis
  proof (cases rule: install_block_cases)
    case (2 identity)
    from install_owned_block_outcome [OF assms(1,2) step_block(2) assms(5) 2(1,5)] show ?thesis by simp
  qed (use assms(5) in simp)
next
  case (step_shape tags flow generation expires r)
  with install_shape_registry [OF assms(5)] show ?thesis by (metis fst_conv)
next
  case (step_clear aliases expected r)
  from clear_aliases_outcome [OF assms(1,2) step_clear(2) assms(5) step_clear(1)] show ?thesis by simp
next
  case (step_remember aliases flow policy mac generation expires r)
  with endpoint_registry(1) assms(5) show ?thesis by (metis fst_conv)
next
  case (step_forget aliases mac r)
  with endpoint_registry(2) assms(5) show ?thesis by (metis fst_conv)
qed

section \<open>Properties\<close>

text \<open>C6. Installing a block is a transaction: either every alias of the flow has a block verdict in the map that names
  the policy and the client, is of the given generation and lasts at least as long as requested, and no other key
  changes; or the installation fails, and then the map is unchanged unless the error lists failures of the
  rollback.\<close>

theorem block_install_atomic:
  assumes "hash_map_laws K h" and "fvw_verdict_map w = Some h" and "\<forall>a\<in>set aliases. flow_key_ok a"
    and "registry_ok (vs_claims s)" and "\<forall>b. length (sha256 b) = 32"
    and "install_block K sha256 w aliases obs flow policy mac generation expires s = (s', r)"
  shows "case r of
      Inl e \<Rightarrow> reports_rollback_error e \<or> contents K h (vs_kernel s') = contents K h (vs_kernel s)
    | Inr n \<Rightarrow> n = length aliases \<and>
        (\<exists>identity. client_mac_identity mac = Ok (vi_client_mac identity) \<and>
           vi_policy_hash identity = policy_identity_hash sha256 policy \<and>
           (\<forall>a\<in>set aliases. \<exists>val. contents K h (vs_kernel s') (bpf_key_bytes a) = Ok (Some val) \<and>
              blocks_until identity generation expires val)) \<and>
        (\<forall>key. key \<notin> bpf_key_bytes ` set aliases \<longrightarrow> contents K h (vs_kernel s') key = contents K h (vs_kernel s) key)"
  using assms(6,5)
proof (cases rule: install_block_cases)
  case (2 identity)
  from install_owned_block_outcome [OF assms(1-4) 2(1,5)] 2(3,4) show ?thesis by (cases r) auto
qed simp

text \<open>C5. Revoking the verdict of a flow removes exactly that flow: afterwards no alias carries a verdict of the flow,
  every other flow with a live claim behind the replaced verdict is still blocked at least until its own
  expiry, a verdict that the flow does not own stays as it is, and no other key changes.\<close>

theorem revoke_keeps_other_owners:
  assumes "hash_map_laws K h" and "fvw_verdict_map w = Some h" and "\<forall>a\<in>set aliases. flow_key_ok a"
    and "registry_ok (vs_claims s)" and "flow_identity_hash flow = Ok hash"
    and "clear_aliases K w aliases (Some flow) s = (s', Ok n)"
  shows "(\<forall>a\<in>set aliases. \<exists>previous nxt. contents K h (vs_kernel s) (bpf_key_bytes a) = Ok previous \<and>
      contents K h (vs_kernel s') (bpf_key_bytes a) = Ok nxt \<and> (\<forall>val. nxt = Some val \<longrightarrow> \<not> names_flow hash val) \<and>
      (known_value (registered (vs_claims s) a) previous \<longrightarrow>
        (\<forall>c\<in>set (registered (vs_claims s) a).
           hk_monotonic_ns K (vs_kernel s) < bc_expires_monotonic_ns c \<and> vi_flow_hash (bc_identity c) \<noteq> hash \<longrightarrow>
           (\<exists>val. nxt = Some val \<and> blocks_until (bc_identity c) (bc_generation c) (bc_expires_monotonic_ns c) val))) \<and>
      (\<not> known_value (registered (vs_claims s) a) previous \<longrightarrow>
        (\<forall>val. previous = Some val \<longrightarrow> \<not> names_flow hash val \<longrightarrow> nxt = previous))) \<and>
    (\<forall>key. key \<notin> bpf_key_bytes ` set aliases \<longrightarrow> contents K h (vs_kernel s') key = contents K h (vs_kernel s) key)"
  using clear_aliases_outcome [OF assms(1-4,6)] assms(5) by (auto simp: revoked_hash_def res_simps revoked_def)

text \<open>C11. The table of block owners stays consistent under every sequence of operations of the writer, failing ones
  included: its counter is the number of claims, which never exceeds 32768, no alias has more than 16 owners, the
  owners of an alias are different flows, and they agree on the policy, the client and the generation.\<close>

theorem verdict_registry_invariant:
  assumes "hash_map_laws K h" and "fvw_verdict_map w = Some h" and "\<forall>b. length (sha256 b) = 32"
    and "rtranclp (verdict_step K sha256 w) s s'" and "registry_ok (vs_claims s)"
  shows "registry_ok (vs_claims s')"
  using assms(4,5)
proof (induction rule: rtranclp_induct)
  case (step s1 s2)
  with verdict_step_registry [OF assms(1-3)] show ?case by blast
qed simp

text \<open>C24. A reset that succeeds leaves no verdict in the map and no claim in the table, and publishes the new generation;
  enforcement is switched off while the map is cleared and comes back only if nothing failed.\<close>

theorem reset_clears_verdicts:
  assumes "hash_map_laws K h" "hash_map_laws K ph" and "hash_maps_separate K" and "keys_complete K h"
    and "fvw_verdict_map w = Some h" "fvw_policy_state_map w = Some ph"
    and "ph \<noteq> h" "fvw_endpoint_map w \<noteq> Some h" "fvw_endpoint_map w \<noteq> Some ph"
    and "reset K w generation enabled s = (s', Ok ())"
  shows "vs_claims s' = block_claims_default \<and>
    (\<forall>key val. contents K h (vs_kernel s') key \<noteq> Ok (Some val)) \<and>
    contents K ph (vs_kernel s') (u32_ne_bytes 0) = Ok (Some (encode_policy_state enabled generation))"
  using reset_outcome [OF assms] .

section \<open>A block in an empty table\<close>

text \<open>The first block of a flow succeeds where the map takes the entry.\<close>

lemma install_first_block:
  assumes "fvw_ready w" "fvw_verdict_map w = Some h" "supported_alias a" "\<not> vs_poisoned s"
    and "vs_claims s = block_claims_default" "hk_lookup K h (bpf_key_bytes a) (vs_kernel s) = Ok None"
    and "\<And>val. snd (hk_update K h (bpf_key_bytes a) val (vs_kernel s)) = Ok ()"
  shows "snd (install_owned_block K w [a] observed identity generation expires s) = Ok 1"
proof -
  let ?c = "\<lparr>bc_identity = identity, bc_generation = generation, bc_expires_monotonic_ns = expires,
    bc_observed_orientation = list_ex (same_observed_orientation a) observed\<rparr>"
  have swept: "sweep_expired now 1 block_claims_default = block_claims_default" for now
    by (simp add: sweep_expired_def block_claims_default_def max_block_claims_def max_verdict_entries_def)
  have staged: "stage_block K h (vs_kernel s) now observed identity generation expires block_claims_default (0, []) a =
      Ok (1, [\<lparr>sa_alias = a, sa_previous = None, sa_claims = [?c], sa_next = Some (encode_block_claim ?c [?c])\<rparr>])" for now
    using assms(6)
    by (simp add: stage_block_def res_simps map_err_def registered_def block_claims_default_def joined_claims_def known_value_def
        max_block_owners_per_alias_def select_block_claim_def max_by_key_def Let_def)
  have "snd (apply_verdict_updates K h [(bpf_key_bytes a, None, Some v)] (vs_kernel s)) = Ok ()" for v
    using assms(7) [of v] by (simp add: apply_verdict_updates_def put_def split_def Let_def split: sum.split)
  with assms(1-5) swept staged show ?thesis
    by (simp add: install_owned_block_def res_simps Let_def max_block_claims_def max_verdict_entries_def verdict_updates_def on_hash_def io_bind_def
        io_simps block_claims_default_def split_def split: sum.split)
qed

section \<open>Examples\<close>

text \<open>A kernel that keeps its maps in one association list and never runs out of memory.\<close>

definition ex_hash_kernel :: "(u32, ((u32 \<times> u8 list) \<times> u8 list) list) hash_kernel" where
  "ex_hash_kernel =
     \<lparr>hk_shape = (\<lambda>h. \<lparr>mh_type = HashMap, mh_key_size = if h = 3 then 4 else 44, mh_value_size = if h = 3 then 16 else 64,
        mh_max_entries = if h = 1 then 16384 else if h = 2 then 8192 else 1\<rparr>),
      hk_monotonic_ns = (\<lambda>_. 1000), hk_lookup = (\<lambda>h key k. Ok (map_of k (h, key))),
      hk_update = (\<lambda>h key val k. (al_insert (h, key) val k, Ok ())),
      hk_delete = (\<lambda>h key k. if map_of k (h, key) = None then (k, Err ''No such file or directory'')
        else (al_remove (h, key) k, Ok ())),
      hk_keys = (\<lambda>h k. map (snd \<circ> fst) (filter (\<lambda>((h', _), _). h' = h) k))\<rparr>"

lemma ex_hash_kernel_laws:
  "hash_map_laws ex_hash_kernel h" "hash_maps_separate ex_hash_kernel" "keys_complete ex_hash_kernel h"
proof -
  have put: "put ex_hash_kernel h key val k = (case val of Some v \<Rightarrow> (al_insert (h, key) v k, Ok ())
      | None \<Rightarrow> if map_of k (h, key) = None then (k, Err ''No such file or directory'') else (al_remove (h, key) k, Ok ()))"
    for h key val k by (simp add: put_def ex_hash_kernel_def split: option.split)
  have c: "contents ex_hash_kernel h k = (\<lambda>key. Ok (map_of k (h, key)))" for h k
    by (rule ext) (simp add: contents_def ex_hash_kernel_def)
  show "hash_map_laws ex_hash_kernel h"
    by (auto simp: hash_map_laws_def fun_eq_iff c put is_ok_def split: option.split)
  show "hash_maps_separate ex_hash_kernel"
    by (auto simp: hash_maps_separate_def fun_eq_iff c put split: option.split)
  show "keys_complete ex_hash_kernel h" unfolding keys_complete_def c
  proof (intro allI impI)
    fix k :: "((u32 \<times> u8 list) \<times> u8 list) list" and key val assume "Ok (map_of k (h, key)) = (Ok (Some val) :: u8 list option res)"
    then have "((h, key), val) \<in> set k" by (simp add: map_of_SomeD)
    then show "key \<in> set (hk_keys ex_hash_kernel h k)" by (force simp: ex_hash_kernel_def)
  qed
qed

definition ex_writer :: "u32 flow_verdict_writer" where
  "ex_writer = flow_verdict_writer_new ex_hash_kernel 1 2 3 None"

definition ex_key :: flow_key where
  "ex_key = \<lparr>fk_ip_version = 4, fk_protocol = 6, fk_direction = 0, fk_hook = 1, fk_ifindex = 2,
     fk_source_address = [192, 168, 1, 10] @ replicate 12 0, fk_destination_address = [1, 1, 1, 1] @ replicate 12 0,
     fk_source_port = 50000, fk_destination_port = 443\<rparr>"

definition ex_flow :: string where
  "ex_flow = replicate 32 (CHR ''a'')"

definition ex_verdicts :: "((u32 \<times> u8 list) \<times> u8 list) list verdict_state" where
  "ex_verdicts = \<lparr>vs_kernel = [], vs_claims = block_claims_default, vs_poisoned = False\<rparr>"

definition ex_digest :: "u8 list \<Rightarrow> u8 list" where
  "ex_digest bytes = take 32 (bytes @ replicate 32 0)"

definition ex_blocked :: "((u32 \<times> u8 list) \<times> u8 list) list verdict_state \<times> nat res" where
  "ex_blocked = install_block ex_hash_kernel ex_digest ex_writer [ex_key] [ex_key] ex_flow ''p1'' ''02:00:00:00:00:01'' 7 2000 ex_verdicts"

lemma ex_key_ok: "flow_key_ok ex_key"
  by (simp add: flow_key_ok_def ex_key_def)

lemma ex_writer_map: "fvw_verdict_map ex_writer = Some 1"
  by (simp add: ex_writer_def flow_verdict_writer_new_def)

lemma ex_digest_length: "length (ex_digest b) = 32"
  by (simp add: ex_digest_def)

lemma ex_flow_hash: "flow_identity_hash ex_flow = Ok (replicate 16 0xaa)"
  by code_simp

lemma ex_cleared: "snd (clear_aliases ex_hash_kernel ex_writer [ex_key] (Some ex_flow) ex_verdicts) = Ok 0"
  by code_simp

lemma ex_reset: "snd (reset ex_hash_kernel ex_writer 7 True ex_verdicts) = Ok ()"
  by code_simp

lemma ex_registry: "registry_ok (vs_claims ex_verdicts)"
  by (simp add: ex_verdicts_def registry_ok_default)

lemma ex_writer_ready: "fvw_ready ex_writer"
  by code_simp

lemma ex_client_identity: "client_mac_identity ''02:00:00:00:00:01'' = Ok [2, 0, 0, 0, 0, 1]"
  by code_simp

lemma ex_blocked_ok: "snd ex_blocked = Ok 1"
proof -
  have k: "hk_lookup ex_hash_kernel 1 key (vs_kernel ex_verdicts) = Ok None"
    "snd (hk_update ex_hash_kernel 1 key val k) = Ok ()" for key val k
    by (simp_all add: ex_hash_kernel_def ex_verdicts_def)
  have "\<not> vs_poisoned ex_verdicts" "vs_claims ex_verdicts = block_claims_default" by (simp_all add: ex_verdicts_def)
  moreover have "supported_alias ex_key" by (simp add: supported_alias_def ex_key_def)
  ultimately show ?thesis unfolding ex_blocked_def install_block_def io_bind_def
    using install_first_block [OF ex_writer_ready ex_writer_map _ _ _ k(1), of ex_key]
    by (simp add: io_lift_def ex_flow_hash ex_client_identity k)
qed

theorem block_install_atomic_witness:
  "\<exists>identity. vi_policy_hash identity = policy_identity_hash ex_digest ''p1'' \<and> vi_client_mac identity = [2, 0, 0, 0, 0, 1] \<and>
     (\<exists>val. contents ex_hash_kernel 1 (vs_kernel (fst ex_blocked)) (bpf_key_bytes ex_key) = Ok (Some val) \<and>
        blocks_until identity 7 2000 val)"
proof -
  have "install_block ex_hash_kernel ex_digest ex_writer [ex_key] [ex_key] ex_flow ''p1'' ''02:00:00:00:00:01'' 7 2000 ex_verdicts =
      (fst ex_blocked, Ok 1)" using ex_blocked_ok by (metis ex_blocked_def prod.collapse)
  from block_install_atomic [OF ex_hash_kernel_laws(1) ex_writer_map _ ex_registry _ this] ex_key_ok ex_digest_length
  show ?thesis by (auto simp: ex_client_identity)
qed

theorem revoke_keeps_other_owners_witness:
  "\<exists>nxt. contents ex_hash_kernel 1 (vs_kernel (fst (clear_aliases ex_hash_kernel ex_writer [ex_key] (Some ex_flow) ex_verdicts)))
     (bpf_key_bytes ex_key) = Ok nxt \<and> (\<forall>val. nxt = Some val \<longrightarrow> \<not> names_flow (replicate 16 0xaa) val)"
proof -
  let ?c = "clear_aliases ex_hash_kernel ex_writer [ex_key] (Some ex_flow) ex_verdicts"
  have "?c = (fst ?c, Ok 0)" using ex_cleared by (metis prod.collapse)
  from revoke_keeps_other_owners [OF ex_hash_kernel_laws(1) ex_writer_map _ ex_registry ex_flow_hash this] ex_key_ok
  show ?thesis by auto
qed

theorem verdict_registry_invariant_witness: "registry_ok (vs_claims (fst ex_blocked))"
proof (rule verdict_registry_invariant [OF ex_hash_kernel_laws(1) ex_writer_map _ _ ex_registry])
  show "\<forall>b. length (ex_digest b) = 32" by (simp add: ex_digest_length)
  show "rtranclp (verdict_step ex_hash_kernel ex_digest ex_writer) ex_verdicts (fst ex_blocked)"
    by (rule r_into_rtranclp, rule step_block) (auto simp: ex_blocked_def ex_key_ok intro: prod.collapse [symmetric])
qed

theorem reset_clears_verdicts_witness:
  "contents ex_hash_kernel 3 (vs_kernel (fst (reset ex_hash_kernel ex_writer 7 True ex_verdicts))) (u32_ne_bytes 0) =
     Ok (Some (encode_policy_state True 7))"
proof -
  let ?r = "reset ex_hash_kernel ex_writer 7 True ex_verdicts"
  have "?r = (fst ?r, Ok ())" using ex_reset by (metis prod.collapse)
  moreover have "fvw_policy_state_map ex_writer = Some 3" "fvw_endpoint_map ex_writer = Some 2"
    by (simp_all add: ex_writer_def flow_verdict_writer_new_def)
  ultimately show ?thesis
    using reset_clears_verdicts [OF ex_hash_kernel_laws(1) ex_hash_kernel_laws(1) ex_hash_kernel_laws(2,3) ex_writer_map, of 3 7 True ex_verdicts "fst ?r"]
    by simp
qed

end
