(* ===== verification/Flow_Enforcement.thy ===== *)
theory Flow_Enforcement
  imports Bpf_Flow Verdict_Ownership
begin

text \<open>What the flow programs of \<open>bpf/flow.bpf.c\<close> do with the verdicts that \<open>policy/flow_verdict.rs\<close> writes: which
  packets are dropped, that an installed block is enforced on both hooks until it expires, that drops are counted, and
  that the payload samples of a flow stay within their budget.\<close>

section \<open>Specification of the decision\<close>

text \<open>The verdict in force for a packet: the one of its exact key, or else the one of its endpoint.\<close>

definition live_verdict :: "bpf_env \<Rightarrow> flow_maps \<Rightarrow> flow_key \<Rightarrow> flow_verdict_value option" where
  "live_verdict env maps key =
     (case map_option read_flow_verdict (fm_verdicts maps (bpf_key_bytes key)) of
        None \<Rightarrow> None
      | Some v \<Rightarrow> if be_now env < fv_expires_monotonic_ns v \<and>
                    (fm_policy_generation maps = 0 \<or> fv_policy_generation v = fm_policy_generation maps)
                 then Some v else None)"

definition live_endpoint :: "bpf_env \<Rightarrow> flow_maps \<Rightarrow> flow_policy_packet \<Rightarrow> flow_key \<Rightarrow> flow_verdict_value option" where
  "live_endpoint env maps packet key =
     (case map_option read_flow_verdict (fm_endpoint_blocks maps (endpoint_block_key packet key)) of
        None \<Rightarrow> None
      | Some v \<Rightarrow> if be_now env < fv_expires_monotonic_ns v \<and> fv_policy_generation v = fm_policy_generation maps
                 then Some v else None)"

definition policy_verdict :: "bpf_env \<Rightarrow> flow_maps \<Rightarrow> flow_policy_packet \<Rightarrow> flow_key \<Rightarrow> flow_verdict_value option" where
  "policy_verdict env maps packet key =
     (case live_verdict env maps key of Some v \<Rightarrow> Some v | None \<Rightarrow> live_endpoint env maps packet key)"

definition policy_packet :: "sk_buff \<Rightarrow> flow_policy_packet" where
  "policy_packet skb = \<lparr>fpp_length = skb_len skb, fpp_ifindex = skb_ifindex skb, fpp_mark = skb_mark skb,
     fpp_priority = skb_priority skb, fpp_ethernet_addresses = slice 0 12 (skb_data skb)\<rparr>"

text \<open>The key under which the policy looks at a packet: TCP or UDP with readable ports, in IPv4 a first fragment, in
  IPv6 with fewer than six extension headers.\<close>

definition ipv4_policy_key :: "u8 \<Rightarrow> sk_buff \<Rightarrow> nat \<Rightarrow> flow_key option" where
  "ipv4_policy_key hook skb cursor =
     (let bytes = skb_data skb; key = ipv4_key hook skb cursor; transport = ipv4_transport bytes cursor in
      if ipv4_header_ok bytes cursor \<and> ipv4_fragment_offset bytes cursor = 0 \<and>
         fk_protocol key \<notin> {ipproto_esp, ipproto_gre} \<and> transport + 4 \<le> length bytes
      then Some (with_ports bytes transport key) else None)"

definition ipv6_policy_key :: "u8 \<Rightarrow> sk_buff \<Rightarrow> nat \<Rightarrow> flow_key option" where
  "ipv6_policy_key hook skb cursor =
     (let bytes = skb_data skb; stop = ipv6_walk ipv6_max_extension_headers bytes (cursor + 40) (bytes ! (cursor + 6)) in
      if cursor + 40 \<le> length bytes \<and> drop_bit 4 (bytes ! cursor) = 6 \<and> is_transport stop \<and> is_cursor stop + 4 \<le> length bytes
      then Some (with_ports bytes (is_cursor stop) ((ipv6_key hook skb cursor)\<lparr>fk_protocol := is_next_header stop\<rparr>)) else None)"

definition packet_key :: "u8 \<Rightarrow> sk_buff \<Rightarrow> flow_key option" where
  "packet_key hook skb =
     (let bytes = skb_data skb in
      if length bytes < 14 then None
      else case skip_vlans max_vlan_headers (ntohs_at 12 bytes) 14 bytes of
        None \<Rightarrow> None
      | Some (protocol, cursor) \<Rightarrow>
          if protocol = eth_p_ip then ipv4_policy_key hook skb cursor
          else if protocol = eth_p_ipv6 then ipv6_policy_key hook skb cursor
          else None)"

definition drops :: "bpf_env \<Rightarrow> flow_maps \<Rightarrow> sk_buff \<Rightarrow> flow_key \<Rightarrow> bool" where
  "drops env maps skb key \<longleftrightarrow> fm_policy_enabled maps \<and>
     (\<exists>v. policy_verdict env maps (policy_packet skb) key = Some v \<and> fv_verdict v = verdict_block)"

section \<open>The policy decision\<close>

lemma active_flow_verdict_snd: "snd (active_flow_verdict env key maps) = live_verdict env maps key"
  by (auto simp: active_flow_verdict_def live_verdict_def not_le split: option.split)

lemma endpoint_verdict_snd: "snd (endpoint_verdict env packet key maps) = live_endpoint env maps packet key"
  by (auto simp: endpoint_verdict_def live_endpoint_def not_le Let_def split: option.split)

lemma active_flow_verdict_fst: "\<exists>v. fst (active_flow_verdict env key maps) = maps\<lparr>fm_verdicts := v\<rparr>"
  by (rule exI [of _ "fm_verdicts (fst (active_flow_verdict env key maps))"])
    (simp add: active_flow_verdict_def split: option.split)

lemma endpoint_verdict_fst: "\<exists>b. fst (endpoint_verdict env packet key maps) = maps\<lparr>fm_endpoint_blocks := b\<rparr>"
  by (rule exI [of _ "fm_endpoint_blocks (fst (endpoint_verdict env packet key maps))"])
    (simp add: endpoint_verdict_def Let_def split: option.split)

text \<open>Looking for a verdict changes the maps of verdicts only, where it removes expired ones.\<close>

lemma evaluate_flow_policy_eq:
  "\<exists>v b. evaluate_flow_policy env packet key maps =
     (let m = maps\<lparr>fm_verdicts := v, fm_endpoint_blocks := b\<rparr> in
      case policy_verdict env maps packet key of
        None \<Rightarrow> (m, packet, tc_act_ok)
      | Some verdict \<Rightarrow>
          if fv_verdict verdict = verdict_shape then (m, shape_packet (fm_qos maps) key verdict packet, tc_act_ok)
          else if fv_verdict verdict \<noteq> verdict_block then (m, packet, tc_act_ok)
          else (record_policy_drop env (fv_policy_identity_hash verdict) (fv_policy_client_mac verdict) (fpp_length packet)
                  (fst (record_flow env key (fpp_length packet) 0 m)), packet, tc_act_shot))"
proof -
  obtain m1 f1 where a: "active_flow_verdict env key maps = (m1, f1)" by force
  obtain m2 f2 where e: "endpoint_verdict env packet key m1 = (m2, f2)" by force
  obtain v where m1: "m1 = maps\<lparr>fm_verdicts := v\<rparr>" using active_flow_verdict_fst [of env key maps] a by auto
  obtain b where m2: "m2 = m1\<lparr>fm_endpoint_blocks := b\<rparr>" using endpoint_verdict_fst [of env packet key m1] e by auto
  have f1: "f1 = live_verdict env maps key" using active_flow_verdict_snd [of env key maps] a by simp
  have f2: "f2 = live_endpoint env maps packet key"
    using endpoint_verdict_snd [of env packet key m1] e m1 by (simp add: live_endpoint_def split: option.split)
  show ?thesis
  proof (cases f1)
    case None
    then have "live_verdict env maps key = None" using f1 by simp
    with None f2 a e m1 m2 show ?thesis
      by - (rule exI [of _ v], rule exI [of _ b], simp add: evaluate_flow_policy_def policy_verdict_def Let_def split: option.split)
  next
    case (Some w)
    then have "live_verdict env maps key = Some w" using f1 by simp
    with Some a m1 show ?thesis
      by - (rule exI [of _ v], rule exI [of _ "fm_endpoint_blocks maps"],
        simp add: evaluate_flow_policy_def policy_verdict_def Let_def)
  qed
qed

lemma evaluate_action:
  "snd (snd (evaluate_flow_policy env packet key maps)) =
     (case policy_verdict env maps packet key of
        Some v \<Rightarrow> if fv_verdict v = verdict_block then tc_act_shot else tc_act_ok
      | None \<Rightarrow> tc_act_ok)"
  using evaluate_flow_policy_eq [of env packet key maps]
  by (auto simp: Let_def verdict_block_def verdict_shape_def split: option.split)

lemma apply_flow_policy_action:
  "snd (snd (apply_flow_policy env key maps skb)) = snd (snd (evaluate_flow_policy env (policy_packet skb) key maps))"
  by (simp add: apply_flow_policy_def policy_packet_def split_def Let_def)

lemma check_policy_action:
  "snd (snd (check_policy env key maps skb)) = (if drops env maps skb key then tc_act_shot else tc_act_ok)"
  by (auto simp: check_policy_def apply_flow_policy_action evaluate_action drops_def split: option.split)

lemma check_policy_skb:
  assumes "check_policy env key maps skb = (maps', skb', action)"
  shows "skb_data skb' = skb_data skb" "skb_len skb' = skb_len skb" "skb_ifindex skb' = skb_ifindex skb"
  using assms by (auto simp: check_policy_def apply_flow_policy_def Let_def split: if_splits prod.splits)

lemma parse_ipv4_action:
  "snd (snd (parse_ipv4 env hook policy_only cursor maps skb)) =
     (case ipv4_policy_key hook skb cursor of
        Some key \<Rightarrow> if drops env maps skb key then tc_act_shot else tc_act_ok | None \<Rightarrow> tc_act_ok)"
proof (cases "ipv4_policy_key hook skb cursor")
  case None
  then show ?thesis by (auto simp: parse_ipv4_def ipv4_policy_key_def Let_def not_le split: if_splits)
next
  case (Some key)
  obtain m s a where c: "check_policy env key maps skb = (m, s, a)" by (cases "check_policy env key maps skb") auto
  then have "a = (if drops env maps skb key then tc_act_shot else tc_act_ok)" using check_policy_action [of env key maps skb] by simp
  with Some c show ?thesis
    by (auto simp: parse_ipv4_def ipv4_policy_key_def Let_def bpf_consts split: if_splits)
qed

lemma parse_ipv6_action:
  "snd (snd (parse_ipv6 env hook policy_only cursor maps skb)) =
     (case ipv6_policy_key hook skb cursor of
        Some key \<Rightarrow> if drops env maps skb key then tc_act_shot else tc_act_ok | None \<Rightarrow> tc_act_ok)"
proof (cases "ipv6_policy_key hook skb cursor")
  case None
  then show ?thesis by (auto simp: parse_ipv6_def ipv6_policy_key_def Let_def not_le split: if_splits)
next
  case (Some key)
  obtain m s a where c: "check_policy env key maps skb = (m, s, a)" by (cases "check_policy env key maps skb") auto
  then have "a = (if drops env maps skb key then tc_act_shot else tc_act_ok)" using check_policy_action [of env key maps skb] by simp
  with Some c show ?thesis
    by (auto simp: parse_ipv6_def ipv6_policy_key_def Let_def bpf_consts split: if_splits)
qed

lemma parse_packet_action:
  "snd (snd (parse_packet env hook policy_only maps skb)) =
     (case packet_key hook skb of
        Some key \<Rightarrow> if drops env maps skb key then tc_act_shot else tc_act_ok | None \<Rightarrow> tc_act_ok)"
  by (auto simp: parse_packet_def packet_key_def Let_def parse_ipv4_action parse_ipv6_action split: option.split)

lemma on_qos_action: "snd (snd (on_qos f state)) = snd (snd (f (fm_qos (fst state)) (fst (snd state)) (snd (snd state))))"
  by (simp add: on_qos_def split_def Let_def)

lemma finish_drop:
  "action \<noteq> tc_act_ok \<Longrightarrow> snd (snd (finish_ingress now qos skb action)) = action"
  "action \<noteq> tc_act_ok \<Longrightarrow> snd (snd (qos_priority_finish_egress now qos skb action)) = action"
  by (simp_all add: finish_ingress_def qos_priority_finish_egress_def)

lemma tc_act_distinct: "tc_act_shot \<noteq> tc_act_ok"
  by (simp add: bpf_consts)

lemma policy_verdict_qos: "policy_verdict env (maps\<lparr>fm_qos := q\<rparr>) = policy_verdict env maps"
  by (rule ext)+ (simp add: policy_verdict_def live_verdict_def live_endpoint_def split: option.split)

lemma drops_qos [simp]: "drops env (maps\<lparr>fm_qos := q\<rparr>) = drops env maps"
  by (rule ext)+ (simp add: drops_def policy_verdict_qos)

lemma ingress_drops:
  assumes "packet_key 1 skb = Some key" and "drops env maps skb key"
  shows "snd (snd (netqmon_ingress env maps skb)) = tc_act_shot"
  using assms tc_act_distinct
  by (simp add: netqmon_ingress_def Let_def on_qos_action finish_drop parse_packet_action)

text \<open>At egress a packet that crossed an observed interface and carries an upload class has been decided before.\<close>

definition decided_before :: "flow_maps \<Rightarrow> sk_buff \<Rightarrow> bool" where
  "decided_before maps skb \<longleftrightarrow> skb_ingress_ifindex skb \<noteq> 0 \<and> skb_ingress_ifindex skb \<in> fm_observed_ifindexes maps \<and>
     qos_priority_upload_classid_valid (skb_priority skb)"

lemma egress_drops:
  assumes "packet_key 2 skb = Some key" and "drops env maps skb key" and "\<not> decided_before maps skb"
  shows "snd (snd (netqmon_egress env maps skb)) = tc_act_shot"
proof -
  have "fm_policy_enabled maps" using assms(2) by (simp add: drops_def)
  with assms have "snd (snd (netqmon_policy_account_egress env maps skb)) = tc_act_shot"
    by (auto simp: netqmon_policy_account_egress_def Let_def decided_before_def parse_packet_action)
  then show ?thesis using tc_act_distinct by (simp add: netqmon_egress_def on_qos_action finish_drop)
qed

section \<open>Packets without a verdict\<close>

lemma check_policy_untouched:
  assumes "policy_verdict env maps (policy_packet skb) key = None"
  shows "fst (snd (check_policy env key maps skb)) = skb"
  using evaluate_flow_policy_eq [of env "policy_packet skb" key maps] assms
  by (auto simp: check_policy_def apply_flow_policy_def policy_packet_def Let_def)

lemma parse_ipv4_skb:
  "(case ipv4_policy_key hook skb cursor of None \<Rightarrow> True | Some key \<Rightarrow> policy_verdict env maps (policy_packet skb) key = None) \<Longrightarrow>
   fst (snd (parse_ipv4 env hook policy_only cursor maps skb)) = skb"
  using check_policy_untouched [of env maps skb "with_ports (skb_data skb) (ipv4_transport (skb_data skb) cursor) (ipv4_key hook skb cursor)"]
  by (auto simp: parse_ipv4_def ipv4_policy_key_def Let_def split: if_splits prod.splits)

lemma parse_ipv6_skb:
  assumes "case ipv6_policy_key hook skb cursor of None \<Rightarrow> True | Some key \<Rightarrow> policy_verdict env maps (policy_packet skb) key = None"
  shows "fst (snd (parse_ipv6 env hook policy_only cursor maps skb)) = skb"
proof -
  define stop where "stop = ipv6_walk ipv6_max_extension_headers (skb_data skb) (cursor + 40) (skb_data skb ! (cursor + 6))"
  show ?thesis
    using assms check_policy_untouched [of env maps skb
      "with_ports (skb_data skb) (is_cursor stop) ((ipv6_key hook skb cursor)\<lparr>fk_protocol := is_next_header stop\<rparr>)"]
    by (auto simp: parse_ipv6_def ipv6_policy_key_def Let_def stop_def [symmetric] split: if_splits prod.splits)
qed

lemma parse_packet_skb:
  "(case packet_key hook skb of None \<Rightarrow> True | Some key \<Rightarrow> policy_verdict env maps (policy_packet skb) key = None) \<Longrightarrow>
   fst (snd (parse_packet env hook policy_only maps skb)) = skb"
  by (auto simp: parse_packet_def packet_key_def Let_def parse_ipv4_skb parse_ipv6_skb split: option.splits if_splits)

section \<open>Drop counters\<close>

text \<open>A dropped packet changes the maps by the policy only.\<close>

lemma dropped_action: "drops env maps skb key \<Longrightarrow> snd (snd (check_policy env key maps skb)) \<noteq> tc_act_ok"
  using tc_act_distinct by (simp add: check_policy_action)

lemma parse_ipv4_dropped:
  assumes "ipv4_policy_key hook skb cursor = Some key" and "drops env maps skb key"
  shows "fst (parse_ipv4 env hook policy_only cursor maps skb) = fst (check_policy env key maps skb)"
proof -
  obtain m s a where c: "check_policy env key maps skb = (m, s, a)" by (cases "check_policy env key maps skb") auto
  with dropped_action [OF assms(2)] have "a \<noteq> tc_act_ok" by simp
  with assms(1) c show ?thesis by (auto simp: parse_ipv4_def ipv4_policy_key_def Let_def split: if_splits)
qed

lemma parse_ipv6_dropped:
  assumes "ipv6_policy_key hook skb cursor = Some key" and "drops env maps skb key"
  shows "fst (parse_ipv6 env hook policy_only cursor maps skb) = fst (check_policy env key maps skb)"
proof -
  obtain m s a where c: "check_policy env key maps skb = (m, s, a)" by (cases "check_policy env key maps skb") auto
  with dropped_action [OF assms(2)] have "a \<noteq> tc_act_ok" by simp
  with assms(1) c show ?thesis by (auto simp: parse_ipv6_def ipv6_policy_key_def Let_def split: if_splits)
qed

lemma parse_packet_dropped:
  "packet_key hook skb = Some key \<Longrightarrow> drops env maps skb key \<Longrightarrow>
   fst (parse_packet env hook policy_only maps skb) = fst (check_policy env key maps skb)"
  by (auto simp: packet_key_def parse_packet_def Let_def parse_ipv4_dropped parse_ipv6_dropped split: option.splits if_splits)

lemma record_policy_drop_counter:
  assumes "be_lru_insert_drop env = (\<lambda>k c m. Some (al_insert k c m))"
  shows "map_of (fm_drop_counters (record_policy_drop env hash mac len maps)) (hash @ mac @ [0, 0]) =
    Some (add_drop len (case map_of (fm_drop_counters maps) (hash @ mac @ [0, 0]) of None \<Rightarrow> (0, 0) | Some c \<Rightarrow> c))"
  using assms by (auto simp: record_policy_drop_def Let_def split: option.split)

lemma record_flow_drop_counters: "fm_drop_counters (fst (record_flow env key len flags maps)) = fm_drop_counters maps"
  by (auto simp: record_flow_def Let_def split: option.split)

lemma evaluate_drop_counted:
  assumes "policy_verdict env maps packet key = Some v" and "fv_verdict v = verdict_block"
    and "be_lru_insert_drop env = (\<lambda>k c m. Some (al_insert k c m))"
  defines "counter \<equiv> fv_policy_identity_hash v @ fv_policy_client_mac v @ [0, 0]"
  shows "map_of (fm_drop_counters (fst (evaluate_flow_policy env packet key maps))) counter =
    Some (add_drop (fpp_length packet) (case map_of (fm_drop_counters maps) counter of None \<Rightarrow> (0, 0) | Some c \<Rightarrow> c))"
proof -
  obtain m where m: "fst (evaluate_flow_policy env packet key maps) =
      record_policy_drop env (fv_policy_identity_hash v) (fv_policy_client_mac v) (fpp_length packet)
        (fst (record_flow env key (fpp_length packet) 0 m))" "fm_drop_counters m = fm_drop_counters maps"
    using evaluate_flow_policy_eq [of env packet key maps] assms(1,2)
    by (auto simp: Let_def verdict_block_def verdict_shape_def)
  show ?thesis unfolding m(1) counter_def record_policy_drop_counter [OF assms(3)] record_flow_drop_counters m(2) ..
qed

section \<open>The sampling budget\<close>

definition captured_bytes :: "flow_maps \<Rightarrow> flow_key \<Rightarrow> nat" where
  "captured_bytes maps flow =
     sum_list (map (\<lambda>e. unat (se_captured_length e)) (filter (\<lambda>e. canonical_key (se_key e) = flow) (fm_sample_events maps)))"

definition allowance :: "nat \<Rightarrow> flow_maps \<Rightarrow> flow_key \<Rightarrow> nat" where
  "allowance max_bytes maps flow =
     (case map_of (fm_sample_budgets maps) flow of None \<Rightarrow> 0 | Some budget \<Rightarrow> min (unat (sb_bytes_seen budget)) max_bytes)"

definition within_budget :: "nat \<Rightarrow> flow_maps \<Rightarrow> bool" where
  "within_budget max_bytes maps \<longleftrightarrow> (\<forall>flow. captured_bytes maps flow \<le> allowance max_bytes maps flow)"

text \<open>The part of the state that the budget is about.\<close>

definition sample_state :: "flow_maps \<Rightarrow> sample_event list \<times> (flow_key \<times> sample_budget) list" where
  "sample_state maps = (fm_sample_events maps, fm_sample_budgets maps)"

lemma within_budget_cong: "sample_state m = sample_state m' \<Longrightarrow> within_budget n m = within_budget n m'"
  by (simp add: within_budget_def captured_bytes_def allowance_def sample_state_def)

lemma sample_state_frame [simp]:
  "sample_state (maps\<lparr>fm_qos := q\<rparr>) = sample_state maps" "sample_state (maps\<lparr>fm_flow := f\<rparr>) = sample_state maps"
  "sample_state (maps\<lparr>fm_verdicts := v\<rparr>) = sample_state maps" "sample_state (maps\<lparr>fm_endpoint_blocks := b\<rparr>) = sample_state maps"
  "sample_state (maps\<lparr>fm_drop_counters := d\<rparr>) = sample_state maps" "sample_state (maps\<lparr>fm_dns_events := de\<rparr>) = sample_state maps"
  "sample_state (maps\<lparr>fm_dns_drop_count := dd\<rparr>) = sample_state maps" "sample_state (maps\<lparr>fm_dhcp_events := dh\<rparr>) = sample_state maps"
  "sample_state (maps\<lparr>fm_discovery_events := di\<rparr>) = sample_state maps" "sample_state (maps\<lparr>fm_sample_counters := sc\<rparr>) = sample_state maps"
  by (simp_all add: sample_state_def)

lemma sample_state_record_flow [simp]: "sample_state (fst (record_flow env key len flags maps)) = sample_state maps"
  by (auto simp: record_flow_def Let_def split: option.split)

lemma sample_state_record_drop [simp]: "sample_state (record_policy_drop env h m len maps) = sample_state maps"
  by (simp add: record_policy_drop_def Let_def split: option.split)

lemma sample_state_evaluate [simp]: "sample_state (fst (evaluate_flow_policy env packet key maps)) = sample_state maps"
  using evaluate_flow_policy_eq [of env packet key maps] by (auto simp: Let_def split: option.split)

lemma sample_state_check_policy [simp]: "sample_state (fst (check_policy env key maps skb)) = sample_state maps"
  by (simp add: check_policy_def apply_flow_policy_def split_def Let_def)

lemma sample_state_captures [simp]:
  "sample_state (maybe_capture_dns env skb udp a v off maps) = sample_state maps"
  "sample_state (maybe_capture_dhcp env skb udp off avail maps) = sample_state maps"
  "sample_state (submit_discovery env skb sp dp a mac v off orig cap maps) = sample_state maps"
  by (simp_all add: maybe_capture_dns_def maybe_capture_dhcp_def submit_discovery_def record_dns_drop_def Let_def split: option.split)

lemma sample_state_discovery [simp]:
  "sample_state (maybe_capture_discovery env skb udp off avail a mac v maps) = sample_state maps"
  "sample_state (maybe_capture_http_discovery env skb tcp off avail v a mac maps) = sample_state maps"
  by (simp_all add: maybe_capture_discovery_def maybe_capture_http_discovery_def Let_def split: option.split)

lemma sample_state_transport [simp]:
  "sample_state (capture_tcp env key transport a skb maps) = sample_state maps"
  "sample_state (capture_udp env key transport a b skb maps) = sample_state maps"
  by (simp_all add: capture_tcp_def capture_udp_def Let_def)

lemma sample_state_count [simp]:
  "sample_state (sample_count i n maps) = sample_state maps" "sample_state (sample_drop len maps) = sample_state maps"
  by (simp_all add: sample_count_def sample_drop_def)

lemma sample_count_fields [simp]:
  "fm_sample_events (sample_count i n maps) = fm_sample_events maps"
  "fm_sample_budgets (sample_count i n maps) = fm_sample_budgets maps"
  "fm_sample_events (sample_drop len maps) = fm_sample_events maps"
  "fm_sample_budgets (sample_drop len maps) = fm_sample_budgets maps"
  by (simp_all add: sample_count_def sample_drop_def)

text \<open>One event of at most the given length for the flow, whose budget keeps its bytes.\<close>

lemma submit_sample_captured:
  "captured_bytes (submit_sample env skb key off ol len budget maps) flow
     \<le> captured_bytes maps flow + (if flow = canonical_key key then len else 0)"
proof -
  have "unat (of_nat len :: u32) \<le> len" by (simp add: unat_of_nat)
  then show ?thesis
    by (auto simp: submit_sample_def captured_bytes_def Let_def split: option.split)
qed

lemma submit_sample_allowance:
  "map_of (fm_sample_budgets maps) (canonical_key key) = Some budget \<Longrightarrow>
   allowance n (submit_sample env skb key off ol len budget maps) flow = allowance n maps flow"
  by (simp add: submit_sample_def allowance_def map_of_al_insert Let_def split: option.split)

lemma captured_bytes_budgets [simp]: "captured_bytes (maps\<lparr>fm_sample_budgets := b\<rparr>) flow = captured_bytes maps flow"
  by (simp add: captured_bytes_def)

lemma allowance_store:
  "allowance n (maps\<lparr>fm_sample_budgets := al_insert flow b (fm_sample_budgets maps)\<rparr>) other =
     (if other = flow then min (unat (sb_bytes_seen b)) n else allowance n maps other)"
  by (simp add: allowance_def map_of_al_insert)

lemma bytes_after_packet:
  fixes seen :: u32
  assumes "unat seen < max_bytes" "max_bytes \<le> sample_max_bytes" "len \<le> sample_max_payload_length"
  shows "unat (seen + of_nat len) = unat seen + len"
proof -
  have "len < 2 ^ 32" "unat seen + len < 2 ^ 32" using assms by (simp_all add: sample_max_bytes_def sample_max_payload_length_def)
  then show ?thesis by (simp add: unat_word_ariths unat_of_nat)
qed

lemma charge_sample_within:
  assumes inv: "within_budget (unat (be_sample_max_bytes_per_flow env)) maps"
    and budget: "map_of (fm_sample_budgets maps) (canonical_key key) = Some budget"
    and max: "unat (be_sample_max_bytes_per_flow env) \<le> sample_max_bytes" and len: "len \<le> sample_max_payload_length"
  shows "within_budget (unat (be_sample_max_bytes_per_flow env)) (charge_sample env skb key off ol len budget maps)"
proof -
  let ?n = "unat (be_sample_max_bytes_per_flow env)" and ?seen = "unat (sb_bytes_seen budget)"
  let ?used = "budget\<lparr>sb_last_seen_ns := be_now env\<rparr>"
  let ?charged = "(count_packet (sample_direction key) ?used)\<lparr>sb_bytes_seen := sb_bytes_seen budget + of_nat len\<rparr>"
  let ?store = "\<lambda>b. maps\<lparr>fm_sample_budgets := al_insert (canonical_key key) b (fm_sample_budgets maps)\<rparr>"
  have old: "captured_bytes maps flow \<le> allowance ?n maps flow" for flow using inv by (simp add: within_budget_def)
  have own: "captured_bytes maps (canonical_key key) \<le> min ?seen ?n"
    using old [of "canonical_key key"] budget by (simp add: allowance_def)
  show ?thesis
  proof (cases "be_sample_max_packets_per_direction env \<le> packets_seen (sample_direction key) ?used \<or>
      be_sample_max_bytes_per_flow env \<le> sb_bytes_seen budget")
    case True
    have "within_budget ?n (?store ?used)" using old own by (auto simp: within_budget_def allowance_store)
    with True show ?thesis by (simp add: charge_sample_def Let_def)
  next
    case False
    then have less: "?seen < ?n" by (simp add: word_le_nat_alt)
    have bytes: "unat (sb_bytes_seen ?charged) = ?seen + len" using bytes_after_packet [OF less max len] by simp
    let ?len = "min len (?n - ?seen)"
    have room: "allowance ?n (?store ?charged) (canonical_key key) = ?seen + ?len"
      using bytes less by (simp add: allowance_store)
    have stored: "captured_bytes (?store ?charged) flow + (if flow = canonical_key key then ?len else 0)
        \<le> allowance ?n (?store ?charged) flow" for flow
      using old [of flow] own room less by (auto simp: allowance_store)
    have plain: "within_budget ?n (?store ?charged)"
      unfolding within_budget_def using stored by (meson add_leD1)
    have len': "(?len - 1) mod sample_max_payload_length + 1 = ?len" if "?len \<noteq> 0"
      using that len by (simp add: sample_max_payload_length_def)
    have found: "map_of (fm_sample_budgets (?store ?charged)) (canonical_key key) = Some ?charged"
      by (simp add: map_of_al_insert)
    have "within_budget ?n (submit_sample env skb key off ol ?len ?charged (?store ?charged))"
      unfolding within_budget_def submit_sample_allowance [OF found]
      using submit_sample_captured stored order_trans by blast
    with plain len' False show ?thesis by (simp add: charge_sample_def Let_def)
  qed
qed

lemma maybe_capture_sample_within:
  assumes inv: "within_budget (unat (be_sample_max_bytes_per_flow env)) maps"
  shows "within_budget (unat (be_sample_max_bytes_per_flow env)) (maybe_capture_sample env skb key off ol maps)"
proof -
  let ?n = "unat (be_sample_max_bytes_per_flow env)"
  have len: "sample_length env ol \<le> sample_max_payload_length" by (simp add: sample_length_def)
  let ?fresh = "\<lparr>sb_first_seen_ns = be_now env, sb_last_seen_ns = be_now env, sb_bytes_seen = 0,
     sb_packets_seen0 = 0, sb_packets_seen1 = 0, sb_sampled = 0\<rparr>"
  let ?new = "maps\<lparr>fm_sample_budgets := al_insert (canonical_key key) ?fresh (fm_sample_budgets maps)\<rparr>"
  have drop: "within_budget ?n (sample_drop l maps)" for l using inv within_budget_cong sample_state_count(2) by metis
  show ?thesis
  proof (cases "map_of (fm_sample_budgets maps) (canonical_key key)")
    case None
    have "allowance ?n maps (canonical_key key) = 0" using None by (simp add: allowance_def)
    then have "captured_bytes maps (canonical_key key) = 0" using inv by (metis le_zero_eq within_budget_def)
    then have "within_budget ?n ?new" using inv by (auto simp: within_budget_def allowance_store)
    then have "unat (be_sample_max_bytes_per_flow env) \<le> sample_max_bytes \<Longrightarrow>
        within_budget ?n (charge_sample env skb key off ol (sample_length env ol) ?fresh ?new)"
      using charge_sample_within [OF _ _ _ len, of env ?new key ?fresh skb off ol] by (simp add: map_of_al_insert)
    with None inv drop show ?thesis by (simp add: maybe_capture_sample_def Let_def)
  next
    case (Some budget)
    with inv charge_sample_within [OF inv Some _ len] show ?thesis by (simp add: maybe_capture_sample_def Let_def)
  qed
qed

lemma within_budget_same: "within_budget n m \<Longrightarrow> sample_state m' = sample_state m \<Longrightarrow> within_budget n m'"
  using within_budget_cong by blast

lemma account_within:
  assumes "within_budget (unat (be_sample_max_bytes_per_flow env)) maps"
  shows "within_budget (unat (be_sample_max_bytes_per_flow env)) (account env skb key off flags ol may maps)"
proof -
  have "within_budget (unat (be_sample_max_bytes_per_flow env)) (fst (record_flow env key (skb_len skb) flags maps))"
    using within_budget_same [OF assms] by simp
  then show ?thesis
    by (simp add: account_def sample_first_def split_def Let_def maybe_capture_sample_within)
qed

lemma parse_ipv4_within:
  assumes "within_budget (unat (be_sample_max_bytes_per_flow env)) maps"
  shows "within_budget (unat (be_sample_max_bytes_per_flow env)) (fst (parse_ipv4 env hook policy_only cursor maps skb))"
proof -
  have checked: "within_budget (unat (be_sample_max_bytes_per_flow env)) (fst (check_policy env key maps s))" for key s
    using within_budget_same [OF assms] by simp
  have "within_budget (unat (be_sample_max_bytes_per_flow env)) (ipv4_observe env key c s (fst (check_policy env k maps s')))" for key k c s s'
    by (rule within_budget_same [OF checked]) (simp add: ipv4_observe_def Let_def)
  with assms checked show ?thesis by (simp add: parse_ipv4_def split_def Let_def account_within)
qed

lemma parse_ipv6_within:
  assumes "within_budget (unat (be_sample_max_bytes_per_flow env)) maps"
  shows "within_budget (unat (be_sample_max_bytes_per_flow env)) (fst (parse_ipv6 env hook policy_only cursor maps skb))"
proof -
  have checked: "within_budget (unat (be_sample_max_bytes_per_flow env)) (fst (check_policy env key maps s))" for key s
    using within_budget_same [OF assms] by simp
  have observed: "within_budget (unat (be_sample_max_bytes_per_flow env)) (ipv6_observe env key c t s m)"
    if "within_budget (unat (be_sample_max_bytes_per_flow env)) m" for key c t s m
    unfolding ipv6_observe_def Let_def by (rule account_within, rule within_budget_same [OF that]) simp
  have "within_budget (unat (be_sample_max_bytes_per_flow env)) (ipv6_rest env key c stop s maps)" for key c stop s
    by (rule within_budget_same [OF assms]) (simp add: ipv6_rest_def Let_def)
  with assms checked observed show ?thesis by (simp add: parse_ipv6_def split_def Let_def)
qed

lemma parse_packet_within:
  assumes "within_budget (unat (be_sample_max_bytes_per_flow env)) maps"
  shows "within_budget (unat (be_sample_max_bytes_per_flow env)) (fst (parse_packet env hook policy_only maps skb))"
  using assms parse_ipv4_within parse_ipv6_within by (simp add: parse_packet_def split_def Let_def split: option.split)

lemma on_qos_within: "within_budget n (fst state) \<Longrightarrow> within_budget n (fst (on_qos f state))"
  by (rule within_budget_same, assumption) (simp add: on_qos_def split_def Let_def)

definition packet_step :: "bool \<Rightarrow> bpf_env \<Rightarrow> sk_buff \<Rightarrow> flow_maps \<Rightarrow> flow_maps" where
  "packet_step ingress env skb maps =
     (if ingress then fst (netqmon_ingress env maps skb) else fst (netqmon_egress env maps skb))"

lemma packet_step_within:
  assumes "within_budget (unat (be_sample_max_bytes_per_flow env)) maps"
  shows "within_budget (unat (be_sample_max_bytes_per_flow env)) (packet_step ingress env skb maps)"
proof -
  have "within_budget (unat (be_sample_max_bytes_per_flow env)) (maps\<lparr>fm_qos := q\<rparr>)" for q
    using within_budget_same [OF assms] by simp
  with assms show ?thesis
    by (simp add: packet_step_def netqmon_ingress_def netqmon_egress_def netqmon_policy_account_egress_def Let_def
        on_qos_within parse_packet_within)
qed

lemma within_budget_bound: "within_budget n maps \<Longrightarrow> captured_bytes maps flow \<le> n"
proof -
  assume "within_budget n maps"
  then have "captured_bytes maps flow \<le> allowance n maps flow" by (simp add: within_budget_def)
  also have "\<dots> \<le> n" by (simp add: allowance_def split: option.split)
  finally show ?thesis .
qed

lemma within_budget_start: "fm_sample_events maps = [] \<Longrightarrow> within_budget n maps"
  by (simp add: within_budget_def captured_bytes_def)

section \<open>Both directions of a flow\<close>

definition reverse_key :: "flow_key \<Rightarrow> flow_key" where
  "reverse_key key =
     key\<lparr>fk_source_address := fk_destination_address key, fk_destination_address := fk_source_address key,
         fk_source_port := fk_destination_port key, fk_destination_port := fk_source_port key\<rparr>"

lemma find_differing_swap:
  "find (\<lambda>(s, d). s \<noteq> d) (zip ys xs) = map_option prod.swap (find (\<lambda>(s, d). s \<noteq> d) (zip xs ys))"
proof (induction xs arbitrary: ys)
  case (Cons x xs)
  then show ?case by (cases ys) auto
qed simp

lemma find_differing_None: "length xs = length ys \<Longrightarrow> find (\<lambda>(s, d). s \<noteq> d) (zip xs ys) = None \<Longrightarrow> xs = ys"
  by (induction xs ys rule: list_induct2) (auto split: if_splits)

lemma find_differing_same: "find (\<lambda>(s, d). s \<noteq> d) (zip xs xs) = None"
  by (induction xs) simp_all

lemma find_differing_Some: "find (\<lambda>(s, d). s \<noteq> d) xs = Some (s, d) \<Longrightarrow> s \<noteq> d"
  by (induction xs) (auto split: if_splits)

lemma le_bytes_le_value: "le_bytes (length bs) (le_value bs) = bs"
proof (induction bs)
  case (Cons b bs)
  have "unat b < 256" using unsigned_less [of b, where ?'a = nat] by simp
  with Cons show ?case by simp
qed simp

lemma raw_port_inject: "raw_port p = raw_port q \<longleftrightarrow> p = q"
proof
  assume "raw_port p = raw_port q"
  moreover have "le_value (u16_be_bytes x) < 65536" for x
    using le_value_less [of "u16_be_bytes x"] by (simp add: be16.length_encode)
  ultimately have "le_value (u16_be_bytes p) = le_value (u16_be_bytes q)"
    by (simp add: raw_port_def u16_from_ne_def word_unat_eq_iff unat_of_nat)
  then have "u16_be_bytes p = u16_be_bytes q" by (metis be16.length_encode le_bytes_le_value)
  then show "p = q" by (metis be16.decode_encode)
qed simp

lemma sample_direction_reverse:
  assumes "flow_key_ok key"
  shows "sample_direction (reverse_key key) = (\<not> sample_direction key \<and> reverse_key key \<noteq> key)"
proof (cases "find (\<lambda>(s, d). s \<noteq> d) (zip (fk_source_address key) (fk_destination_address key))")
  case None
  then have same: "fk_source_address key = fk_destination_address key"
    using find_differing_None assms by (metis flow_key_ok_def)
  have ports: "raw_port (fk_source_port key) = raw_port (fk_destination_port key) \<longleftrightarrow> reverse_key key = key"
    using same by (cases key) (auto simp: reverse_key_def raw_port_inject)
  show ?thesis unfolding sample_direction_def
    using None same ports by (auto simp: reverse_key_def)
next
  case (Some sd)
  obtain s d where sd: "sd = (s, d)" by (cases sd)
  have "s \<noteq> d" using find_differing_Some [OF Some [unfolded sd]] .
  moreover have "reverse_key key \<noteq> key"
  proof
    assume "reverse_key key = key"
    moreover have "fk_source_address (reverse_key key) = fk_destination_address key" by (simp add: reverse_key_def)
    ultimately have "fk_source_address key = fk_destination_address key" by simp
    with Some show False by (simp add: find_differing_same)
  qed
  moreover have "find (\<lambda>(s, d). s \<noteq> d) (zip (fk_destination_address key) (fk_source_address key)) = Some (d, s)"
    using Some sd by (subst find_differing_swap) simp
  ultimately show ?thesis using Some sd by (auto simp: sample_direction_def reverse_key_def)
qed

lemma canonical_key_reverse:
  assumes "flow_key_ok key"
  shows "canonical_key ((reverse_key key)\<lparr>fk_ifindex := i\<rparr>) = canonical_key key"
proof -
  have dir: "sample_direction ((reverse_key key)\<lparr>fk_ifindex := i\<rparr>) = sample_direction (reverse_key key)"
    by (simp add: sample_direction_def split: option.split)
  show ?thesis
  proof (cases "reverse_key key = key")
    case True
    then have "(reverse_key key)\<lparr>fk_ifindex := i\<rparr> = key\<lparr>fk_ifindex := i\<rparr>" "sample_direction (key\<lparr>fk_ifindex := i\<rparr>) = sample_direction key"
      by (simp_all add: sample_direction_def split: option.split)
    then show ?thesis by (simp add: canonical_key_def Let_def)
  next
    case False
    then show ?thesis using sample_direction_reverse [OF assms] dir
      by (cases key) (auto simp: canonical_key_def reverse_key_def Let_def)
  qed
qed

section \<open>Endpoint blocks\<close>

lemma endpoint_key_append:
  assumes "flow_key_ok alias" and "length mac = 6"
  shows "endpoint_key alias mac = [fk_ip_version alias, fk_protocol alias] @ u16_be_bytes (fk_destination_port alias) @
    fk_source_address alias @ fk_destination_address alias @ mac @ [0, 0]"
proof -
  have "(replicate endpoint_key_size 0)[0 := a, 1 := b] = [a, b] @ replicate 42 0" for a b :: u8
    by (simp add: endpoint_key_size_def numeral_eq_Suc)
  moreover have "replicate 2 (0 :: u8) = [0, 0]" by (simp add: numeral_eq_Suc)
  ultimately show ?thesis using assms
    by (simp add: endpoint_key_def Let_def copy_at_fill flow_key_ok_def del: append_assoc append_Cons append_Nil)
qed

text \<open>The packets of a client and an endpoint: from the client at ingress, to the client at egress.\<close>

definition of_endpoint :: "flow_key \<Rightarrow> u8 list \<Rightarrow> sk_buff \<Rightarrow> flow_key \<Rightarrow> bool" where
  "of_endpoint alias mac skb key \<longleftrightarrow>
     (let k = if fk_hook key = 1 then key else reverse_key key in
      fk_ip_version k = fk_ip_version alias \<and> fk_protocol k = fk_protocol alias \<and>
      fk_source_address k = fk_source_address alias \<and> fk_destination_address k = fk_destination_address alias \<and>
      fk_destination_port k = fk_destination_port alias) \<and>
     slice (if fk_hook key = 1 then 6 else 0) 6 (slice 0 12 (skb_data skb)) = mac"

lemma endpoint_key_agrees:
  assumes "flow_key_ok alias" "length mac = 6" "of_endpoint alias mac skb key"
  shows "endpoint_block_key (policy_packet skb) key = endpoint_key alias mac"
  using assms(3)
  by (simp add: endpoint_key_append [OF assms(1,2)] endpoint_block_key_def of_endpoint_def policy_packet_def reverse_key_def
      Let_def split: if_splits)

lemma write_endpoints_contents:
  assumes "hash_map_laws K h" and "write_endpoints_from K h val mac applied aliases k = (k', Ok n)"
  shows "(\<forall>key. contents K h k key = Ok (Some val) \<longrightarrow> contents K h k' key = Ok (Some val)) \<and>
    (\<forall>a\<in>set aliases. contents K h k' (endpoint_key a mac) = Ok (Some val))"
  using assms(2)
proof (induction aliases arbitrary: applied k)
  case (Cons a aliases)
  let ?key = "endpoint_key a mac"
  obtain previous where l: "hk_lookup K h ?key k = Ok previous"
    using Cons.prems by (auto simp: Let_def split: sum.splits)
  obtain k1 r where u: "hk_update K h ?key val k = (k1, r)" by force
  then have ok: "r = Ok ()" and rest: "write_endpoints_from K h val mac ((?key, previous) # applied) aliases k1 = (k', Ok n)"
    using Cons.prems l by (auto simp: Let_def split: sum.splits prod.splits)
  have "put K h ?key (Some val) k = (k1, r)" using u by (simp add: put_def)
  from contents_put [OF assms(1) this] ok have "contents K h k1 = (contents K h k)(?key := Ok (Some val))" by (simp add: is_ok_def)
  with Cons.IH [OF rest] show ?case by auto
qed simp

section \<open>Enforcement\<close>

text \<open>The maps that the programs read are the ones the Agent wrote, with this generation in force.\<close>

definition reads_verdicts :: "('h, 'k) hash_kernel \<Rightarrow> 'h \<Rightarrow> 'k \<Rightarrow> u64 \<Rightarrow> flow_maps \<Rightarrow> bool" where
  "reads_verdicts K h k generation maps \<longleftrightarrow>
     (\<forall>key. contents K h k key = Ok (fm_verdicts maps key)) \<and> fm_policy_enabled maps \<and> fm_policy_generation maps = generation"

definition reads_endpoints :: "('h, 'k) hash_kernel \<Rightarrow> 'h \<Rightarrow> 'k \<Rightarrow> u64 \<Rightarrow> flow_maps \<Rightarrow> bool" where
  "reads_endpoints K h k generation maps \<longleftrightarrow>
     (\<forall>key. contents K h k key = Ok (fm_endpoint_blocks maps key)) \<and> fm_policy_enabled maps \<and> fm_policy_generation maps = generation"

definition shot :: "bpf_env \<Rightarrow> flow_maps \<Rightarrow> sk_buff \<Rightarrow> u8 \<Rightarrow> bool" where
  "shot env maps skb hook \<longleftrightarrow>
     (if hook = 1 then snd (snd (netqmon_ingress env maps skb)) = tc_act_shot
      else snd (snd (netqmon_egress env maps skb)) = tc_act_shot)"

lemma drops_shot:
  "packet_key hook skb = Some key \<Longrightarrow> drops env maps skb key \<Longrightarrow> hook = 1 \<or> hook = 2 \<and> \<not> decided_before maps skb \<Longrightarrow>
   shot env maps skb hook"
  by (auto simp: shot_def ingress_drops egress_drops)

lemma blocks_until_drops:
  assumes "fm_verdicts maps (bpf_key_bytes key) = Some val" and "blocks_until identity generation expires val"
    and "be_now env < expires" and "fm_policy_enabled maps" and "fm_policy_generation maps = generation"
  shows "drops env maps skb key"
proof -
  have "be_now env < u64_from_ne (slice 0 8 val)" using assms(2,3) by (auto simp: blocks_until_def)
  moreover have "u64_from_ne (slice 8 8 val) = generation" "val ! 60 = verdict_block"
    using assms(2) by (simp_all add: blocks_until_def ne64.decode_encode)
  ultimately show ?thesis using assms(1,4,5)
    by (simp add: drops_def policy_verdict_def live_verdict_def read_flow_verdict_def)
qed

lemma install_block_value:
  assumes "hash_map_laws K h" and "fvw_verdict_map w = Some h" and "\<forall>a\<in>set aliases. flow_key_ok a"
    and "registry_ok (vs_claims s)" and "\<forall>b. length (sha256 b) = 32"
    and "install_block K sha256 w aliases obs flow policy mac generation expires s = (s', Ok n)" and "a \<in> set aliases"
  obtains val identity where "contents K h (vs_kernel s') (bpf_key_bytes a) = Ok (Some val)" "blocks_until identity generation expires val"
  using assms(6,5)
proof (cases rule: install_block_cases)
  case (2 identity)
  from install_owned_block_outcome [OF assms(1-4) 2(1,5)] assms(7) that show ?thesis by auto
qed simp




text \<open>A packet without a verdict in force passes the flow policy untouched: its mark, priority and data stay as they
  are and it is not dropped.\<close>

theorem unlisted_packet_passes:
  assumes "\<forall>key. packet_key hook skb = Some key \<longrightarrow> policy_verdict env maps (policy_packet skb) key = None"
  shows "snd (parse_packet env hook policy_only maps skb) = (skb, tc_act_ok)"
proof (rule prod_eqI)
  show "fst (snd (parse_packet env hook policy_only maps skb)) = fst (skb, tc_act_ok)"
    using assms by (simp add: parse_packet_skb split: option.split)
  show "snd (snd (parse_packet env hook policy_only maps skb)) = snd (skb, tc_act_ok)"
    using assms by (simp add: parse_packet_action drops_def split: option.split)
qed



section \<open>Limits of the programs\<close>

text \<open>The budget of a flow is shared by its directions at one hook, on whatever interfaces, and not across the hooks.\<close>

theorem sample_budget_per_hook:
  assumes "flow_key_ok key" and "hook \<noteq> fk_hook key"
  shows "canonical_key ((reverse_key key)\<lparr>fk_ifindex := i\<rparr>) = canonical_key key"
    and "canonical_key ((reverse_key key)\<lparr>fk_hook := hook\<rparr>) \<noteq> canonical_key key"
proof -
  show "canonical_key ((reverse_key key)\<lparr>fk_ifindex := i\<rparr>) = canonical_key key" by (rule canonical_key_reverse [OF assms(1)])
  have "fk_hook (canonical_key k) = fk_hook k" for k by (simp add: canonical_key_def Let_def)
  from this [of "(reverse_key key)\<lparr>fk_hook := hook\<rparr>"] this [of key] assms(2)
  show "canonical_key ((reverse_key key)\<lparr>fk_hook := hook\<rparr>) \<noteq> canonical_key key" by auto
qed

section \<open>Examples\<close>

definition ex_bpf_env :: bpf_env where
  "ex_bpf_env = \<lparr>be_now = 1500, be_lru_insert = (\<lambda>k v m. Some (al_insert k v m)), be_lru_insert_drop = (\<lambda>k c m. Some (al_insert k c m)),
     be_room_dns = (\<lambda>_. True), be_room_dhcp = (\<lambda>_. True), be_room_discovery = (\<lambda>_. True), be_room_sample = (\<lambda>_. True),
     be_skb_load_bytes = (\<lambda>skb off len. if off + len \<le> length (skb_data skb) then Some (slice off len (skb_data skb)) else None),
     be_sample_enabled = True, be_sample_max_packets_per_direction = 8, be_sample_max_bytes_per_packet = 256,
     be_sample_max_bytes_per_flow = 4096\<rparr>"

definition ex_flow_maps :: "(u8 list \<Rightarrow> u8 list option) \<Rightarrow> (u8 list \<Rightarrow> u8 list option) \<Rightarrow> flow_maps" where
  "ex_flow_maps verdicts endpoints =
     \<lparr>fm_qos = ex_qos_maps [2, 0, 0, 0, 0, 1], fm_flow = [], fm_verdicts = verdicts, fm_endpoint_blocks = endpoints, fm_drop_counters = [],
      fm_observed_ifindexes = {2}, fm_policy_enabled = True, fm_policy_generation = 7, fm_dns_events = [], fm_dns_drop_count = 0,
      fm_dhcp_events = [], fm_discovery_events = [], fm_sample_events = [], fm_sample_budgets = [],
      fm_sample_counters = replicate 5 0\<rparr>"

text \<open>A TCP packet of the client 192.168.1.10 to 1.1.1.1, port 443.\<close>

definition ex_packet :: sk_buff where
  "ex_packet = \<lparr>skb_len = 54, skb_mark = 0, skb_priority = 0, skb_ingress_ifindex = 2, skb_ifindex = 2, skb_cb0 = 0, skb_cb1 = 0,
     skb_data = [2, 0, 0, 0, 0, 9, 2, 0, 0, 0, 0, 1, 8, 0, 0x45, 0, 0, 40, 0, 0, 0x40, 0, 64, 6, 0, 0, 192, 168, 1, 10, 1, 1, 1, 1,
       0xc3, 0x50, 1, 0xbb, 0, 0, 0, 0, 0, 0, 0, 0, 0x50, 2, 0, 0, 0, 0, 0, 0]\<rparr>"

lemma ex_packet_key: "packet_key 1 ex_packet = Some ex_key"
  by code_simp

definition ex_remembered :: "((u32 \<times> u8 list) \<times> u8 list) list verdict_state \<times> nat res" where
  "ex_remembered = remember_endpoint_blocks ex_hash_kernel ex_digest ex_writer [ex_key] ex_flow ''p1'' ''02:00:00:00:00:01'' 7 2000 ex_verdicts"

lemma ex_remembered_ok: "snd ex_remembered = Ok 1"
proof -
  have "snd (write_endpoints_from ex_hash_kernel 2 val mac [] [ex_key] []) = Ok 1" for val mac
    by (simp add: ex_hash_kernel_def Let_def)
  moreover have "fvw_endpoint_map ex_writer = Some 2" by (simp add: ex_writer_def flow_verdict_writer_new_def)
  ultimately show ?thesis unfolding ex_remembered_def remember_endpoint_blocks_def
    by (simp add: ex_writer_ready ex_client_identity ex_flow_hash io_bind_def io_lift_def on_hash_def ex_verdicts_def
        split_def Let_def del: write_endpoints_from.simps)
qed

text \<open>A block of the packet's flow as the programs read it.\<close>

definition ex_block :: "u8 list" where
  "ex_block = encode_verdict 2000 7 \<lparr>vi_flow_hash = replicate 16 0xaa, vi_policy_hash = replicate 16 3, vi_client_mac = [2, 0, 0, 0, 0, 1]\<rparr>
     0 verdict_block"

lemma ex_block_read:
  "read_flow_verdict ex_block = \<lparr>fv_expires_monotonic_ns = 2000, fv_policy_generation = 7, fv_flow_identity_hash = replicate 16 0xaa,
     fv_policy_identity_hash = replicate 16 3, fv_policy_client_mac = [2, 0, 0, 0, 0, 1], fv_policy_tag = 0, fv_verdict = verdict_block\<rparr>"
  by code_simp



theorem unlisted_packet_passes_witness:
  "snd (parse_packet ex_bpf_env 1 False (ex_flow_maps (\<lambda>_. None) (\<lambda>_. None)) ex_packet) = (ex_packet, tc_act_ok)"
  by (rule unlisted_packet_passes) (simp add: policy_verdict_def live_verdict_def live_endpoint_def ex_flow_maps_def)



text \<open>An IPv6 packet with six extension headers in front of its TCP header.\<close>

definition ex_chain :: sk_buff where
  "ex_chain = ex_packet\<lparr>skb_len := 122, skb_data := [2, 0, 0, 0, 0, 9, 2, 0, 0, 0, 0, 1, 0x86, 0xdd, 0x60, 0, 0, 0, 0, 68, 0, 64] @
     (0xfd # replicate 14 0 @ [10]) @ (0xfd # replicate 14 0 @ [1]) @
     concat (replicate 5 [60, 0, 1, 4, 0, 0, 0, 0]) @ [6, 0, 1, 4, 0, 0, 0, 0] @
     [0xc3, 0x50, 1, 0xbb, 0, 0, 0, 0, 0, 0, 0, 0, 0x50, 2, 0, 0, 0, 0, 0, 0]\<rparr>"

definition ex_chain_key :: flow_key where
  "ex_chain_key = \<lparr>fk_ip_version = 6, fk_protocol = 6, fk_direction = 0, fk_hook = 1, fk_ifindex = 2,
     fk_source_address = 0xfd # replicate 14 0 @ [10], fk_destination_address = 0xfd # replicate 14 0 @ [1],
     fk_source_port = 50000, fk_destination_port = 443\<rparr>"

text \<open>The packet is accounted to its TCP flow, but no verdict applies to it: the policy is evaluated inside the loop
  over the extension headers, and the sixth header uses up the last iteration.\<close>

theorem long_header_chain_not_dropped:
  "snd (snd (parse_packet env 1 False maps ex_chain)) = tc_act_ok"
  "fst (parse_packet env 1 False maps ex_chain) = fst (record_flow env ex_chain_key 122 2 maps)"
proof -
  have "packet_key 1 ex_chain = None" by code_simp
  then show "snd (snd (parse_packet env 1 False maps ex_chain)) = tc_act_ok" by (simp add: parse_packet_action)
  show "fst (parse_packet env 1 False maps ex_chain) = fst (record_flow env ex_chain_key 122 2 maps)"
  proof -
    let ?bytes = "skb_data ex_chain"
    have "length ?bytes = 122" "drop_bit 4 (?bytes ! 14) = 6" "skb_len ex_chain = 122" by code_simp+
    moreover have "skip_vlans max_vlan_headers (ntohs_at 12 ?bytes) 14 ?bytes = Some (eth_p_ipv6, 14)" by code_simp
    moreover have "ipv6_walk ipv6_max_extension_headers ?bytes (14 + 40) (?bytes ! (14 + 6)) =
        \<lparr>is_cursor = 102, is_next_header = ipproto_tcp, is_transport = False, is_can_parse = True\<rparr>" by code_simp
    moreover have "with_ports ?bytes 102 ((ipv6_key 1 ex_chain 14)\<lparr>fk_protocol := ipproto_tcp\<rparr>) = ex_chain_key" by code_simp
    moreover have "read_tcp_flags ?bytes 102 = 2" by code_simp
    ultimately show ?thesis
      by (simp add: parse_packet_def parse_ipv6_def ipv6_rest_def Let_def bpf_consts ipproto_tcp_def ipproto_udp_def)
  qed
qed

end
