(* ===== verification/Flow_Runtime.thy ===== *)
theory Flow_Runtime
  imports Flow_Key
begin

text \<open>
  The runtime of the Agent that turns successive readings of the kernel's flow counters into deltas and lifecycle
  events (\<open>agent/src/flow.rs\<close>, \<open>lifecycle.rs\<close>), and the reading itself, which removes idle flows from the kernel
  (\<open>read_flow_map\<close> of \<open>agent/src/linux.rs\<close>).
\<close>

definition monotonic_delta :: "u64 \<Rightarrow> u64 \<Rightarrow> u64" where
  "monotonic_delta current previous = (case checked_sub_w current previous of None \<Rightarrow> current | Some d \<Rightarrow> d)"

section \<open>The runtime\<close>

datatype flow_state = FlowActive | FlowIdle | FlowEnd

record flow_lifecycle_event =
  fle_key :: flow_key
  fle_policy_flow_id :: "string option"
  fle_state :: flow_state

record flow_delta =
  fd_key :: flow_key
  fd_policy_flow_id :: "string option"
  fd_packets :: u64
  fd_bytes :: u64
  fd_counters :: flow_counters

record flow_runtime_state =
  frs_counters :: flow_counters
  frs_last_activity :: nat
  frs_lifecycle_state :: flow_state

text \<open>Durations are natural numbers of nanoseconds. The hash map of flows is an association list; the order
  in which the code walks over it is unspecified and no property depends on it.\<close>

record flow_runtime =
  fr_flows :: "(flow_key \<times> flow_runtime_state) list"
  fr_boot_id :: string
  fr_tcp_idle_timeout :: nat
  fr_udp_idle_timeout :: nat

record flow_runtime_update =
  fru_deltas :: "flow_delta list"
  fru_lifecycle_events :: "flow_lifecycle_event list"

definition flow_runtime_new_for_boot :: "string \<Rightarrow> nat \<Rightarrow> nat \<Rightarrow> flow_runtime" where
  "flow_runtime_new_for_boot boot_id tcp_idle_timeout udp_idle_timeout =
     \<lparr>fr_flows = [], fr_boot_id = boot_id, fr_tcp_idle_timeout = tcp_idle_timeout,
      fr_udp_idle_timeout = udp_idle_timeout\<rparr>"

text \<open>The event of a flow and the identity it carries, if the Agent executes policies.\<close>

definition lifecycle_event ::
  "(u8 list \<Rightarrow> u8 list) \<Rightarrow> string \<Rightarrow> bool \<Rightarrow> flow_key \<Rightarrow> u64 \<Rightarrow> flow_state \<Rightarrow> flow_lifecycle_event" where
  "lifecycle_event sha256 boot_id policy_ids_enabled key first_seen_ns state =
     \<lparr>fle_key = key,
      fle_policy_flow_id = (if policy_ids_enabled then Some (policy_flow_id sha256 boot_id key first_seen_ns) else None),
      fle_state = state\<rparr>"

text \<open>A kernel entry that was evicted and created again shows another first-seen time; the old flow ends.\<close>

definition restarted :: "flow_counters \<Rightarrow> flow_runtime_state option \<Rightarrow> bool" where
  "restarted counters previous =
     (case previous of None \<Rightarrow> False
      | Some p \<Rightarrow> fc_first_seen_ns counters \<noteq> 0 \<and> fc_first_seen_ns (frs_counters p) \<noteq> 0 \<and>
          fc_first_seen_ns counters \<noteq> fc_first_seen_ns (frs_counters p))"

text \<open>The state of a flow before a reading is counted: fresh if it is unknown, reset if it was restarted.\<close>

definition reading_base :: "nat \<Rightarrow> flow_counters \<Rightarrow> flow_runtime_state option \<Rightarrow> flow_runtime_state" where
  "reading_base now counters previous =
     (case previous of None \<Rightarrow> \<lparr>frs_counters = flow_counters_default, frs_last_activity = now, frs_lifecycle_state = FlowIdle\<rparr>
      | Some p \<Rightarrow> if restarted counters previous
                 then p\<lparr>frs_counters := flow_counters_default, frs_lifecycle_state := FlowIdle\<rparr> else p)"

text \<open>One pass of the first loop of \<open>update_with_policy_ids\<close>.\<close>

definition observe_reading ::
  "(u8 list \<Rightarrow> u8 list) \<Rightarrow> string \<Rightarrow> nat \<Rightarrow> bool \<Rightarrow> flow_key \<times> flow_counters \<Rightarrow>
    (flow_key \<times> flow_runtime_state) list \<times> flow_runtime_update \<Rightarrow>
    (flow_key \<times> flow_runtime_state) list \<times> flow_runtime_update" where
  "observe_reading sha256 boot_id now ids reading acc =
     (let (key, counters) = reading; (flows, update) = acc;
          previous = map_of flows key;
          ended = (if restarted counters previous
                   then [lifecycle_event sha256 boot_id ids key (fc_first_seen_ns (frs_counters (the previous))) FlowEnd]
                   else []);
          state = reading_base now counters previous;
          packets = monotonic_delta (fc_packets counters) (fc_packets (frs_counters state));
          bytes = monotonic_delta (fc_bytes counters) (fc_bytes (frs_counters state));
          state = state\<lparr>frs_counters := counters\<rparr>
      in if packets \<noteq> 0 \<or> bytes \<noteq> 0
         then let started = (if frs_lifecycle_state state \<noteq> FlowActive
                             then [lifecycle_event sha256 boot_id ids key (fc_first_seen_ns counters) FlowActive] else []);
                  delta = \<lparr>fd_key = key,
                    fd_policy_flow_id = (if ids then Some (policy_flow_id sha256 boot_id key (fc_first_seen_ns counters)) else None),
                    fd_packets = packets, fd_bytes = bytes, fd_counters = counters\<rparr>
              in (al_insert key (state\<lparr>frs_last_activity := now, frs_lifecycle_state := FlowActive\<rparr>) flows,
                  update\<lparr>fru_deltas := fru_deltas update @ [delta],
                         fru_lifecycle_events := fru_lifecycle_events update @ ended @ started\<rparr>)
         else (al_insert key state flows,
               update\<lparr>fru_lifecycle_events := fru_lifecycle_events update @ ended\<rparr>))"

definition idle_timeout :: "flow_runtime \<Rightarrow> flow_key \<Rightarrow> nat" where
  "idle_timeout rt key = (if fk_protocol key = 17 then fr_udp_idle_timeout rt else fr_tcp_idle_timeout rt)"

text \<open>The closure of \<open>retain\<close>: the events and the flow that stays.\<close>

definition retain_flow ::
  "(u8 list \<Rightarrow> u8 list) \<Rightarrow> flow_runtime \<Rightarrow> nat \<Rightarrow> bool \<Rightarrow> flow_key \<times> flow_runtime_state \<Rightarrow>
    (flow_key \<times> flow_runtime_state) list \<times> flow_lifecycle_event list" where
  "retain_flow sha256 rt now ids flow =
     (let (key, state) = flow;
          inactive_for = now - frs_last_activity state;
          event = lifecycle_event sha256 (fr_boot_id rt) ids key (fc_first_seen_ns (frs_counters state))
      in if idle_timeout rt key \<le> inactive_for then ([], [event FlowEnd])
         else if 0 < inactive_for \<and> frs_lifecycle_state state = FlowActive
         then ([(key, state\<lparr>frs_lifecycle_state := FlowIdle\<rparr>)], [event FlowIdle])
         else ([(key, state)], []))"

definition update_with_policy_ids ::
  "(u8 list \<Rightarrow> u8 list) \<Rightarrow> (flow_key \<times> flow_counters) list \<Rightarrow> nat \<Rightarrow> bool \<Rightarrow> flow_runtime \<Rightarrow>
    flow_runtime \<times> flow_runtime_update" where
  "update_with_policy_ids sha256 current now ids rt =
     (let (flows, update) = fold (observe_reading sha256 (fr_boot_id rt) now ids) current
            (fr_flows rt, \<lparr>fru_deltas = [], fru_lifecycle_events = []\<rparr>);
          kept = map (retain_flow sha256 rt now ids) flows
      in (rt\<lparr>fr_flows := concat (map fst kept)\<rparr>,
          update\<lparr>fru_lifecycle_events := fru_lifecycle_events update @ concat (map snd kept)\<rparr>))"

section \<open>Reading the kernel's flows\<close>

definition flow_is_idle :: "flow_key \<Rightarrow> flow_counters \<Rightarrow> u64 \<Rightarrow> u64 \<Rightarrow> u64 \<Rightarrow> bool" where
  "flow_is_idle key counters now_ns tcp_idle_timeout_seconds udp_idle_timeout_seconds \<longleftrightarrow>
     (let timeout_seconds = (if fk_protocol key = 6 then tcp_idle_timeout_seconds else udp_idle_timeout_seconds)
      in saturating_mul_w timeout_seconds 1000000000 < saturating_sub_w now_ns (fc_last_seen_ns counters))"

text \<open>One entry of the flow map: an idle one leaves the map with its latest counters, an entry that does not decode is
  skipped. The snapshot and the number of entries that stay in the map are threaded through.\<close>

definition process_flow_entry ::
  "(u8 list \<Rightarrow> 'k \<Rightarrow> 'k \<times> u8 list option res) \<Rightarrow> u8 list \<Rightarrow> u8 list \<Rightarrow> u64 \<Rightarrow> u64 \<Rightarrow> u64 \<Rightarrow>
    'k \<times> (flow_key \<times> flow_counters) list \<times> u64 \<Rightarrow> 'k \<times> (flow_key \<times> flow_counters) list \<times> u64" where
  "process_flow_entry lookup_and_delete raw_key raw_value now_ns tcp_idle udp_idle acc =
     (let (k, snapshot, retained_entries) = acc in
      case (flow_key_try_from raw_key, flow_counters_try_from raw_value) of
        (Inr key, Inr counters) \<Rightarrow>
          if flow_is_idle key counters now_ns tcp_idle udp_idle
          then let (k, latest) = lookup_and_delete raw_key k in
            case latest of
              Inr (Some value) \<Rightarrow>
                (k, snapshot @ [(key, case flow_counters_try_from value of Inr c \<Rightarrow> c | Inl _ \<Rightarrow> counters)], retained_entries)
            | Inr None \<Rightarrow> (k, snapshot @ [(key, counters)], retained_entries)
            | Inl _ \<Rightarrow> (k, snapshot @ [(key, counters)], saturating_add_w retained_entries 1)
          else (k, snapshot @ [(key, counters)], saturating_add_w retained_entries 1)
      | _ \<Rightarrow> acc)"

section \<open>Accounting\<close>

text \<open>What an update reports of a flow, and a sequence of updates.\<close>

definition reported :: "(flow_delta \<Rightarrow> u64) \<Rightarrow> flow_key \<Rightarrow> flow_runtime_update \<Rightarrow> nat" where
  "reported amount key update = sum_list (map (\<lambda>d. unat (amount d)) (filter (\<lambda>d. fd_key d = key) (fru_deltas update)))"

fun run_updates ::
  "(u8 list \<Rightarrow> u8 list) \<Rightarrow> bool \<Rightarrow> ((flow_key \<times> flow_counters) list \<times> nat) list \<Rightarrow> flow_runtime \<Rightarrow>
    flow_runtime \<times> flow_runtime_update list" where
  "run_updates sha256 ids [] rt = (rt, [])"
| "run_updates sha256 ids ((current, now) # ticks) rt =
     (let (rt, update) = update_with_policy_ids sha256 current now ids rt;
          (rt, updates) = run_updates sha256 ids ticks rt
      in (rt, update # updates))"

text \<open>The flow is not ended before the last update.\<close>

fun tracked ::
  "(u8 list \<Rightarrow> u8 list) \<Rightarrow> bool \<Rightarrow> flow_key \<Rightarrow> ((flow_key \<times> flow_counters) list \<times> nat) list \<Rightarrow> flow_runtime \<Rightarrow> bool" where
  "tracked sha256 ids key [] rt = True"
| "tracked sha256 ids key ((current, now) # ticks) rt =
     (let rt' = fst (update_with_policy_ids sha256 current now ids rt)
      in ticks = [] \<or> map_of (fr_flows rt') key \<noteq> None \<and> tracked sha256 ids key ticks rt')"

text \<open>The two amounts, as a counter of the kernel and as a delta.\<close>

definition amounts :: "((flow_counters \<Rightarrow> u64) \<times> (flow_delta \<Rightarrow> u64)) set" where
  "amounts = {(fc_packets, fd_packets), (fc_bytes, fd_bytes)}"

lemma observe_reading_other:
  assumes "k \<noteq> key" and "observe_reading sha256 boot now ids (k, c) (flows, update) = (flows', update')"
  shows "map_of flows' key = map_of flows key" and "reported amount key update' = reported amount key update"
  using assms by (auto simp: observe_reading_def Let_def reported_def map_of_al_insert split: if_splits)

lemma observe_reading_same:
  assumes "(cnt, amount) \<in> amounts" and "observe_reading sha256 boot now ids (key, c) (flows, update) = (flows', update')"
  shows "\<exists>st. map_of flows' key = Some st \<and> frs_counters st = c"
    and "reported amount key update' = reported amount key update +
      unat (monotonic_delta (cnt c) (cnt (frs_counters (reading_base now c (map_of flows key)))))"
  using assms by (auto simp: amounts_def observe_reading_def Let_def reported_def map_of_al_insert split: if_splits)

lemma observe_reading_distinct:
  "distinct (map fst flows) \<Longrightarrow> distinct (map fst (fst (observe_reading sha256 boot now ids reading (flows, update))))"
  by (auto simp: observe_reading_def Let_def distinct_al_insert split: prod.split)

lemma fold_observe_other:
  assumes "key \<notin> fst ` set current" and "fold (observe_reading sha256 boot now ids) current (flows, update) = (flows', update')"
  shows "map_of flows' key = map_of flows key \<and> reported amount key update' = reported amount key update"
  using assms
proof (induction current arbitrary: flows update)
  case (Cons r current)
  obtain k c where r: "r = (k, c)" by (cases r)
  obtain f1 u1 where o: "observe_reading sha256 boot now ids (k, c) (flows, update) = (f1, u1)" by (metis surj_pair)
  have "k \<noteq> key" using Cons.prems(1) r by auto
  from observe_reading_other [OF this o] Cons.IH [of f1 u1] Cons.prems o r show ?case by auto
qed simp

lemma fold_observe_same:
  assumes "(cnt, amount) \<in> amounts" and "distinct (map fst current)" and "map_of current key = Some c"
    and "fold (observe_reading sha256 boot now ids) current (flows, update) = (flows', update')"
  shows "(\<exists>st. map_of flows' key = Some st \<and> frs_counters st = c) \<and> reported amount key update' = reported amount key update +
      unat (monotonic_delta (cnt c) (cnt (frs_counters (reading_base now c (map_of flows key)))))"
  using assms(2-)
proof (induction current arbitrary: flows update)
  case (Cons r current)
  obtain k d where r: "r = (k, d)" by (cases r)
  obtain f1 u1 where o: "observe_reading sha256 boot now ids (k, d) (flows, update) = (f1, u1)" by (metis surj_pair)
  have rest: "fold (observe_reading sha256 boot now ids) current (f1, u1) = (flows', update')" using Cons.prems(3) o r by simp
  show ?case
  proof (cases "k = key")
    case True
    with Cons.prems r have "d = c" "key \<notin> fst ` set current" by auto
    from fold_observe_other [OF this(2) rest, of amount] observe_reading_same [OF assms(1), of sha256 boot now ids key c flows update f1 u1]
      o True \<open>d = c\<close> show ?thesis by auto
  next
    case False
    with Cons.prems r have "map_of current key = Some c" "distinct (map fst current)" by auto
    from Cons.IH [OF this(2,1) rest] observe_reading_other [OF False o] show ?thesis by simp
  qed
qed simp

lemma fold_observe_distinct:
  "distinct (map fst flows) \<Longrightarrow> distinct (map fst (fst (fold (observe_reading sha256 boot now ids) current (flows, update))))"
proof (induction current arbitrary: flows update)
  case (Cons r current)
  from observe_reading_distinct [OF Cons.prems, of sha256 boot now ids r update] Cons.IH show ?case
    by (cases "observe_reading sha256 boot now ids r (flows, update)") auto
qed simp

lemma retain_flow_cases:
  obtains "fst (retain_flow sha256 rt now ids (k, s)) = []"
  | s' where "fst (retain_flow sha256 rt now ids (k, s)) = [(k, s')]" "frs_counters s' = frs_counters s"
  by (cases "idle_timeout rt k \<le> now - frs_last_activity s"; cases "0 < now - frs_last_activity s \<and> frs_lifecycle_state s = FlowActive")
    (auto simp: retain_flow_def Let_def)

text \<open>The flows after the second loop.\<close>

definition retained :: "(u8 list \<Rightarrow> u8 list) \<Rightarrow> flow_runtime \<Rightarrow> nat \<Rightarrow> bool \<Rightarrow> (flow_key \<times> flow_runtime_state) list \<Rightarrow>
    (flow_key \<times> flow_runtime_state) list" where
  "retained sha256 rt now ids flows = concat (map (fst \<circ> retain_flow sha256 rt now ids) flows)"

lemma retained_simps:
  "retained sha256 rt now ids [] = []"
  "retained sha256 rt now ids (f # flows) = fst (retain_flow sha256 rt now ids f) @ retained sha256 rt now ids flows"
  by (simp_all add: retained_def)

lemma retained_keys: "fst ` set (retained sha256 rt now ids flows) \<subseteq> fst ` set flows"
proof (induction flows)
  case (Cons f flows)
  obtain k s where "f = (k, s)" by (cases f)
  with Cons show ?case by (cases rule: retain_flow_cases [of sha256 rt now ids k s]) (auto simp: retained_simps)
qed (simp add: retained_simps)

lemma retained_distinct: "distinct (map fst flows) \<Longrightarrow> distinct (map fst (retained sha256 rt now ids flows))"
proof (induction flows)
  case (Cons f flows)
  obtain k s where "f = (k, s)" by (cases f)
  with Cons retained_keys [of sha256 rt now ids flows] show ?case
    by (cases rule: retain_flow_cases [of sha256 rt now ids k s]) (auto simp: retained_simps)
qed (simp add: retained_simps)

lemma retained_counters:
  "map_of (retained sha256 rt now ids flows) key = Some st \<Longrightarrow> distinct (map fst flows) \<Longrightarrow>
   \<exists>st0. map_of flows key = Some st0 \<and> frs_counters st = frs_counters st0"
proof (induction flows)
  case (Cons f flows)
  obtain k s where f: "f = (k, s)" by (cases f)
  have "map_of (retained sha256 rt now ids flows) key = None" if "k = key"
    using Cons.prems(2) f that retained_keys [of sha256 rt now ids flows] by (auto simp: map_of_eq_None_iff)
  with Cons f show ?case
    by (cases rule: retain_flow_cases [of sha256 rt now ids k s]) (auto simp: retained_simps split: if_splits)
qed (simp add: retained_simps)

text \<open>One update: what it reports of a flow is the increase of the counter over the counters of the flow so far.\<close>

definition counted :: "(flow_counters \<Rightarrow> u64) \<Rightarrow> flow_runtime \<Rightarrow> flow_key \<Rightarrow> nat" where
  "counted cnt rt key = (case map_of (fr_flows rt) key of None \<Rightarrow> 0 | Some st \<Rightarrow> unat (cnt (frs_counters st)))"

lemma update_eq:
  assumes "fold (observe_reading sha256 (fr_boot_id rt) now ids) current (fr_flows rt, \<lparr>fru_deltas = [], fru_lifecycle_events = []\<rparr>) =
    (flows, update)"
  shows "fr_flows (fst (update_with_policy_ids sha256 current now ids rt)) = retained sha256 rt now ids flows"
    and "reported amount key (snd (update_with_policy_ids sha256 current now ids rt)) = reported amount key update"
  using assms by (simp_all add: update_with_policy_ids_def retained_def reported_def Let_def)

lemma unat_monotonic_delta: "previous \<le> current \<Longrightarrow> unat (monotonic_delta current previous) = unat current - unat previous"
  by (simp add: monotonic_delta_def checked_sub_w_def unat_sub)

lemma update_reports:
  assumes amt: "(cnt, amount) \<in> amounts" and "distinct (map fst (fr_flows rt))" and "distinct (map fst current)"
    and "map_of current key = Some c"
    and same: "\<forall>st. map_of (fr_flows rt) key = Some st \<longrightarrow>
      cnt (frs_counters st) \<le> cnt c \<and> fc_first_seen_ns (frs_counters st) = fc_first_seen_ns c"
    and "update_with_policy_ids sha256 current now ids rt = (rt', update)"
  shows "counted cnt rt key + reported amount key update = unat (cnt c)"
    and "distinct (map fst (fr_flows rt'))"
    and "\<forall>st. map_of (fr_flows rt') key = Some st \<longrightarrow> frs_counters st = c"
proof -
  let ?start = "(fr_flows rt, \<lparr>fru_deltas = [], fru_lifecycle_events = []\<rparr>)"
  obtain flows u where fold: "fold (observe_reading sha256 (fr_boot_id rt) now ids) current ?start = (flows, u)" by force
  from update_eq [OF fold] assms(6) have eq: "fr_flows rt' = retained sha256 rt now ids flows"
    "reported amount key update = reported amount key u" by simp_all
  from fold_observe_same [OF amt assms(3,4) fold] obtain st where st: "map_of flows key = Some st" "frs_counters st = c"
    and rep: "reported amount key u = unat (monotonic_delta (cnt c) (cnt (frs_counters (reading_base now c (map_of (fr_flows rt) key)))))"
    by (auto simp: reported_def)
  have distinct: "distinct (map fst flows)" using fold_observe_distinct [OF assms(2)] fold by (metis fst_conv)
  have "cnt flow_counters_default = 0" using amt by (auto simp: amounts_def flow_counters_default_def)
  with rep eq same show "counted cnt rt key + reported amount key update = unat (cnt c)"
    by (auto simp: counted_def reading_base_def restarted_def unat_monotonic_delta word_le_nat_alt split: option.split)
  show "distinct (map fst (fr_flows rt'))" unfolding eq by (rule retained_distinct [OF distinct])
  show "\<forall>st. map_of (fr_flows rt') key = Some st \<longrightarrow> frs_counters st = c"
    using retained_counters [OF _ distinct, of sha256 rt now ids key] st eq(1) by auto
qed

lemma run_updates_reports:
  assumes amt: "(cnt, amount) \<in> amounts" and "distinct (map fst (fr_flows rt))"
    and "\<forall>(current, now)\<in>set ticks. distinct (map fst current)"
    and "map (\<lambda>(current, now). map_of current key) ticks = map Some cs" and "cs \<noteq> []"
    and "sorted (map cnt cs)" and "\<forall>c\<in>set cs. fc_first_seen_ns c = first"
    and "\<forall>st. map_of (fr_flows rt) key = Some st \<longrightarrow> cnt (frs_counters st) \<le> cnt (hd cs) \<and> fc_first_seen_ns (frs_counters st) = first"
    and "tracked sha256 ids key ticks rt"
  shows "counted cnt rt key + sum_list (map (reported amount key) (snd (run_updates sha256 ids ticks rt))) = unat (cnt (last cs))"
  using assms(2-)
proof (induction ticks arbitrary: rt cs)
  case (Cons tick ticks)
  obtain current now where tick: "tick = (current, now)" by (cases tick)
  obtain c cs' where cs: "cs = c # cs'" using Cons.prems(4) by (cases cs) auto
  obtain rt' u where up: "update_with_policy_ids sha256 current now ids rt = (rt', u)" by force
  note prems = Cons.prems [unfolded tick cs, simplified]
  have cur: "distinct (map fst current)" "map_of current key = Some c"
    "\<forall>st. map_of (fr_flows rt) key = Some st \<longrightarrow> cnt (frs_counters st) \<le> cnt c \<and> fc_first_seen_ns (frs_counters st) = fc_first_seen_ns c"
    using prems by auto
  note one = update_reports [OF amt Cons.prems(1) cur up]
  show ?case
  proof (cases "ticks = []")
    case True
    then show ?thesis using one(1) prems(3) up tick cs by simp
  next
    case False
    then obtain st where st: "map_of (fr_flows rt') key = Some st" and tr: "tracked sha256 ids key ticks rt'"
      using Cons.prems(8) tick up by auto
    with one(3) have "frs_counters st = c" by blast
    have cs': "cs' \<noteq> []" "map (\<lambda>(current, now). map_of current key) ticks = map Some cs'" using False prems(3) by auto
    have le: "cnt c \<le> cnt (hd cs')" using Cons.prems(5) cs cs'(1) by (cases cs') auto
    have "counted cnt rt' key + sum_list (map (reported amount key) (snd (run_updates sha256 ids ticks rt'))) = unat (cnt (last cs'))"
      using Cons.IH [of rt' cs'] one(2) prems cs' le st tr \<open>frs_counters st = c\<close> by auto
    with one(1) st \<open>frs_counters st = c\<close> cs cs'(1) up tick show ?thesis by (simp add: counted_def split_def Let_def)
  qed
qed simp

lemma unat_timeout:
  fixes seconds :: u64
  assumes "unat seconds * 1000000000 \<le> n" "n < 2 ^ 64"
  shows "unat (saturating_mul_w seconds 1000000000) = unat seconds * 1000000000"
  using assms by (simp add: saturating_mul_w_def unat_word_ariths)

text \<open>C13. Accounting is exact: over any sequence of updates that read a flow, with nondecreasing counters and the same
  first-seen time, and in which the flow is not ended for inactivity before the last one, the reported packets and the
  reported bytes of a flow that was unknown add up to the kernel's last counters: nothing is lost or counted twice.\<close>

theorem flow_accounting_exact:
  assumes "distinct (map fst (fr_flows rt))" and "map_of (fr_flows rt) key = None"
    and "\<forall>(current, now)\<in>set ticks. distinct (map fst current)"
    and "map (\<lambda>(current, now). map_of current key) ticks = map Some cs" and "cs \<noteq> []"
    and "sorted (map fc_packets cs)" and "sorted (map fc_bytes cs)" and "\<forall>c\<in>set cs. fc_first_seen_ns c = first"
    and "tracked sha256 ids key ticks rt"
  shows "sum_list (map (reported fd_packets key) (snd (run_updates sha256 ids ticks rt))) = unat (fc_packets (last cs)) \<and>
    sum_list (map (reported fd_bytes key) (snd (run_updates sha256 ids ticks rt))) = unat (fc_bytes (last cs))"
proof
  have "counted cnt rt key = 0" for cnt using assms(2) by (simp add: counted_def)
  with run_updates_reports [OF _ assms(1,3-5) _ assms(8) _ assms(9)] assms(2,6,7)
  show "sum_list (map (reported fd_packets key) (snd (run_updates sha256 ids ticks rt))) = unat (fc_packets (last cs))"
    and "sum_list (map (reported fd_bytes key) (snd (run_updates sha256 ids ticks rt))) = unat (fc_bytes (last cs))"
    by (simp_all add: amounts_def)
qed


section \<open>Examples\<close>

definition ex_traffic :: "u8 \<Rightarrow> flow_key" where
  "ex_traffic protocol = \<lparr>fk_ip_version = 4, fk_protocol = protocol, fk_direction = 0, fk_hook = 1, fk_ifindex = 2,
     fk_source_address = [192, 168, 1, 10] @ replicate 12 0, fk_destination_address = [1, 1, 1, 1] @ replicate 12 0,
     fk_source_port = 0, fk_destination_port = 0\<rparr>"

definition ex_counters :: "u64 \<Rightarrow> flow_counters" where
  "ex_counters packets = \<lparr>fc_packets = packets, fc_bytes = packets * 100, fc_first_seen_ns = 5, fc_last_seen_ns = 8, fc_tcp_flags = 0\<rparr>"

definition ex_traffic_runtime :: flow_runtime where
  "ex_traffic_runtime = flow_runtime_new_for_boot ''boot'' 60000000000 180000000000"

definition ex_ticks :: "u8 \<Rightarrow> ((flow_key \<times> flow_counters) list \<times> nat) list" where
  "ex_ticks protocol = [([(ex_traffic protocol, ex_counters 10)], 10), ([(ex_traffic protocol, ex_counters 25)], 20)]"

theorem flow_accounting_exact_witness:
  "sum_list (map (reported fd_packets (ex_traffic 6)) (snd (run_updates (\<lambda>_. []) False (ex_ticks 6) ex_traffic_runtime))) = 25"
proof -
  have "tracked (\<lambda>_. []) False (ex_traffic 6) (ex_ticks 6) ex_traffic_runtime" by code_simp
  with flow_accounting_exact [of ex_traffic_runtime "ex_traffic 6" "ex_ticks 6" "[ex_counters 10, ex_counters 25]" 5 "\<lambda>_. []" False]
  show ?thesis by (simp add: ex_ticks_def ex_traffic_runtime_def flow_runtime_new_for_boot_def ex_counters_def)
qed


text \<open>For other protocols the runtime uses the timeout of TCP and the reading that of UDP. Where the first is the
  shorter one, a flow ends while the kernel keeps its counters, and they are reported a second time: a GRE flow of ten
  packets that is idle for seventy seconds is reported with twenty.\<close>

theorem idle_tunnel_reported_twice:
  defines "reading \<equiv> [(ex_traffic 47, ex_counters 10)]"
  defines "ticks \<equiv> [(reading, 10), (reading, 70000000000), (reading, 80000000000)]"
  shows "sum_list (map (reported fd_packets (ex_traffic 47)) (snd (run_updates (\<lambda>_. []) False ticks ex_traffic_runtime))) = 20"
    and "\<not> flow_is_idle (ex_traffic 47) (ex_counters 10) 70000000000 60 180"
    and "\<not> flow_is_idle (ex_traffic 47) (ex_counters 10) 80000000000 60 180"
  unfolding ticks_def reading_def by code_simp+

end
