(* ===== verification/Spec2Isabelle.thy ===== *)
theory Spec2Isabelle
  imports Policy_Compiler Agent_Schedule Priority_Runtime Flow_Enforcement Flow_Runtime
begin

text \<open>
  Verification of the policy engine of netqmon. The Collector validates the policies of a user, compiles them to a
  snapshot and decides about observed flows. The Agent on the gateway receives the snapshot, selects what it asks of
  every client, plans queues and client assignments, installs them with \<open>tc\<close> and BPF maps, and writes verdicts of
  flows. The BPF programs read these maps for every packet. The Agent reads the flow counters of the programs back.

  \<^bold>\<open>Common theories.\<close> \<open>Netqmon_Prelude\<close>: the type \<open>res\<close> of fallible code, its combinators and the collection
  \<open>res_simps\<close>, machine integers with saturating and checked operations, sorted lists, the shared locales. \<open>Rust_Str\<close>:
  string functions of the Rust library on UTF-8 bytes. \<open>Io_Result\<close>: computations that change a state and may fail,
  with rules for invariants (\<open>keeps_intros\<close>). \<open>Byte_Layout\<close>: integers as bytes of a structure, fields at offsets.

  \<^bold>\<open>Collector and wire protocol.\<close>
  \<^item> \<open>Policy_Wire\<close> (\<open>protocol/src/policy.rs\<close>): the frames, their validation, checksum, encoding and decoding. Validation
    is exact for a declarative contract; encoding and decoding are inverse; a snapshot is canonical.
  \<^item> \<open>Policy_Validation\<close> (\<open>collector/src/policy/validation.rs\<close>): normalization and checks of a policy; exactness, and when
    an accepted policy passes the wire validation.
  \<^item> \<open>Policy_Time\<close>, \<open>Policy_Compiler\<close> (\<open>collector/src/policy/compiler.rs\<close>): schedules become intervals; the intervals cover
    exactly the windows, a compiled policy is in force exactly when the preview says so, compilation is total.
  \<^item> \<open>Policy_Evaluator\<close> (\<open>collector/src/policy/evaluator.rs\<close>): preview, flow commands and the lease of a verdict; which
    policy decides, that commands are justified, that leases do not outlive their policies.

  \<^bold>\<open>Agent, clients and queues.\<close>
  \<^item> \<open>Agent_Schedule\<close> (\<open>policy/schedule.rs\<close>, \<open>policy/endpoint_block.rs\<close>): the Agent's evaluation of schedules and the lease
    of endpoint blocks.
  \<^item> \<open>Mac_Identity\<close> (\<open>identity.rs\<close>, \<open>policy/identity.rs\<close>), \<open>Class_Id\<close> (\<open>policy/classid.rs\<close>, \<open>policy/priority_cleanup.rs\<close>),
    \<open>Slot_Allocation\<close> and \<open>Priority_Slots\<close> (\<open>policy/priority_slots.rs\<close>), \<open>Priority_Selection\<close>
    (\<open>policy/priority_selection.rs\<close>), \<open>Priority_Delivery\<close> (\<open>policy/priority_delivery.rs\<close>), \<open>Link_Capacity\<close>
    (\<open>policy/capacity.rs\<close>), \<open>Priority_Plan\<close> (\<open>policy/priority_plan.rs\<close>): identities, class numbers, stable slots, the
    selection of a snapshot, delivery ports, capacities and the class trees built from them.
  \<^item> \<open>Priority_Maps\<close> (\<open>linux/qos_priority_maps.rs\<close>): the client maps and their publication with rollback.
  \<^item> \<open>Priority_State\<close>, \<open>Tc_Output\<close>, \<open>Priority_Ownership\<close>, \<open>Priority_Queues\<close>, \<open>Priority_Runtime\<close>
    (\<open>linux/qos_priority_runtime.rs\<close>): state files, application classes, parsing of \<open>tc\<close>, recognition of own queues,
    installation and cleanup of queues, and the transaction \<open>apply\<close> with rollback. Applying is all or nothing, revisions
    and generations never decrease, cleanup returns and spares the active classes.

  \<^bold>\<open>Agent and programs, flows.\<close>
  \<^item> \<open>Flow_Key\<close> (\<open>flow.rs\<close>): flow keys and counters as bytes, and the identity of a flow.
  \<^item> \<open>Flow_Verdict\<close>, \<open>Verdict_Ownership\<close> (\<open>policy/flow_verdict.rs\<close>): the writer of block, shape and endpoint verdicts with
    its table of block owners. Installation is a transaction, a revocation keeps other owners, the table stays within
    its bounds under every sequence of operations (\<open>verdict_step\<close>), a reset clears everything.
  \<^item> \<open>Bpf_Priority\<close> (\<open>bpf/include/netqmon_qos_priority.h\<close>, \<open>netqmon_qos_path_probe.h\<close>): the classifier of client packets and
    the path observer.
  \<^item> \<open>Bpf_Flow\<close> (\<open>bpf/flow.bpf.c\<close>): parsing, flow policy, accounting and captures; \<open>netqmon_ingress\<close> and \<open>netqmon_egress\<close>
    compose them with the classifier. A state is the record \<open>flow_maps\<close>, the kernel's helpers are the record \<open>bpf_env\<close>.
  \<^item> \<open>Flow_Enforcement\<close>: an installed block and a remembered endpoint block are enforced by the programs; when packets are
    dropped, that drops are counted, that samples stay within their budget, and two limits of the programs.
  \<^item> \<open>Flow_Runtime\<close> (\<open>flow.rs\<close>, \<open>lifecycle.rs\<close>, \<open>process_flow_entry\<close> of \<open>linux.rs\<close>): deltas and lifecycle events. The deltas of
    a flow add up to the kernel's counters.

  This theory connects the first two groups with the classifier: a client that a policy blocks loses its packets.

  \<^bold>\<open>Parameters.\<close> The JSON, JCS and SHA-256 libraries, the time-zone database, the file system, \<open>tc\<close>, the clocks, the
  neighbour and forwarding tables, the maps and helpers of the kernel. Hypotheses name what is used of them: the laws of
  a hash map (\<open>hash_map_laws\<close>, \<open>keys_complete\<close>), the length of a digest, a clock that advances. Every property with such
  a hypothesis has a witness with a concrete instance.

  \<^bold>\<open>Bounds.\<close> Loops over lists are structural recursion. The polling loop of the cleanup has its own termination proof
  from the advance of the clock; the loop over IPv6 extension headers and the one over VLAN headers run at most six
  times and twice, as in the code.

  \<^bold>\<open>Not modelled.\<close> The sessions, HTTP handlers and database of the Collector, the session of the policy receiver, loading
  BPF programs, netlink and conntrack tables: input and output around the modelled operations. The cache of flow aliases
  is built from conntrack tables. The back end of nftables and marks drives external tools and is replaced by the
  priority runtime. The variant of the programs with tail calls is another build of the same source. Traffic statistics,
  device recognition, insights and the user interface take no part in policies. Programs run on one packet at a time;
  races between processors on one counter are outside the model.
\<close>

section \<open>From a policy to the packets it blocks\<close>

text \<open>The clients in force of a plan are the keys of the published map.\<close>

lemma canonical_text: "is_ok (canonical_mac text) \<Longrightarrow> mac_from_str text = Ok mac \<Longrightarrow> text = mac_to_string mac"
  by (auto simp: is_ok_iff canonical_mac_def res_simps split: if_splits)

lemma planned_entry:
  assumes "e \<in> set (pl_entries p)" and "plan_next rt capacity_of inspected clock now s old sel = Ok p"
    and "finite (ps_clients sel)" and "entry_bytes e = Ok (mac @ [0, 0], v)" and "mac_from_str client = Ok mac"
    and "is_ok (canonical_mac client)" and "expires_ns_of clock now (expiry_ms_of sel s) = Some expires"
  shows "live_assignment t (read_assignment v) \<longleftrightarrow> t < expires"
    and "qca_flags (read_assignment v) AND qos_client_block \<noteq> 0 \<longleftrightarrow> client \<in> ps_blocked_macs sel"
proof -
  obtain leases cs gen ns where al: "allocate (ps_clients sel) (case old of None \<Rightarrow> [] | Some state \<Rightarrow> pst_leases state) = Ok leases"
    and ns: "expires_ns_of clock now (expiry_ms_of sel s) = Some ns"
    and entries: "try_map (map_entry sel cs (pl_layout p) gen ns) (filter csl_active leases) = Ok (pl_entries p)"
    by (rule plan_next_Ok [OF assms(2)])
  from list_all2_set2 [OF entries [unfolded try_map_eq_Inr] assms(1)] obtain lease where
    lease: "lease \<in> set (filter csl_active leases)" "map_entry sel cs (pl_layout p) gen ns lease = Ok e" by blast
  from lease(2) obtain i u d where new: "client_map_entry_new lease i u d (csl_mac lease \<in> ps_blocked_macs sel) gen ns = Ok e"
    by (auto simp: map_entry_def Let_def res_simps)
  from entry_new_Ok [OF new] assms(4) have e: "mac_from_str (csl_mac lease) = Ok mac" "v = entry_value e"
    "qos_priority_assignment_valid (read_assignment v)" "cme_expires_ns e = ns"
    "cme_flags e AND qos_client_block \<noteq> 0 \<longleftrightarrow> csl_mac lease \<in> ps_blocked_macs sel" by auto
  from allocate_leases [OF al assms(3)] lease(1) have "is_ok (canonical_mac (csl_mac lease))" by (simp add: lease_validate_iff)
  from canonical_text [OF this e(1)] canonical_text [OF assms(6,5)] have "csl_mac lease = client" by simp
  with e assms(7) ns show "live_assignment t (read_assignment v) \<longleftrightarrow> t < expires"
    "qca_flags (read_assignment v) AND qos_client_block \<noteq> 0 \<longleftrightarrow> client \<in> ps_blocked_macs sel"
    by (auto simp: live_assignment_def read_entry_value)
qed

lemma selected_entry:
  assumes "from_snapshot env (PolicySnapshot s) gateway now_ms = Ok sel" and "client \<in> ps_clients sel"
    and "plan_next rt capacity_of inspected clock now s old sel = Ok p"
  shows "is_ok (canonical_mac client)"
    and "\<exists>e\<in>set (pl_entries p). \<exists>mac. mac_from_str client = Ok mac \<and> entry_bytes e = Ok (mac @ [0, 0], entry_value e)"
proof -
  obtain leases cs gen ns where al: "allocate (ps_clients sel) (case old of None \<Rightarrow> [] | Some state \<Rightarrow> pst_leases state) = Ok leases"
    and entries: "try_map (map_entry sel cs (pl_layout p) gen ns) (filter csl_active leases) = Ok (pl_entries p)"
    by (rule plan_next_Ok [OF assms(3)])
  note leases = allocate_leases [OF al selected_clients(1) [OF assms(1)]]
  from leases assms(2) have "client \<in> csl_mac ` set leases" by simp
  then obtain lease where lease: "lease \<in> set leases" "csl_mac lease = client" by auto
  with leases assms(2) have "lease_validate lease = Ok ()" "csl_active lease" by simp_all
  with lease show "is_ok (canonical_mac client)" by (simp add: lease_validate_iff)
  from lease(1) \<open>csl_active lease\<close> have "lease \<in> set (filter csl_active leases)" by simp
  from list_all2_set1 [OF entries [unfolded try_map_eq_Inr] this] obtain e where
    e: "e \<in> set (pl_entries p)" "map_entry sel cs (pl_layout p) gen ns lease = Ok e" by blast
  from e(2) obtain i u d b where "client_map_entry_new lease i u d b gen ns = Ok e"
    by (auto simp: map_entry_def Let_def res_simps)
  from entry_new_Ok [OF this] lease(2) e(1)
  show "\<exists>e\<in>set (pl_entries p). \<exists>mac. mac_from_str client = Ok mac \<and> entry_bytes e = Ok (mac @ [0, 0], entry_value e)" by blast
qed

lemma published_assignment:
  assumes "from_snapshot env (PolicySnapshot s) gateway now_ms = Ok sel" and "client \<in> ps_clients sel"
    and "plan_next rt capacity_of inspected clock now s old sel = Ok p" and "encode_entries clock' (pl_entries p) = Ok encoded"
    and "mac_from_str client = Ok mac"
  shows "\<exists>v e. map_of encoded (mac @ [0, 0]) = Some v \<and> e \<in> set (pl_entries p) \<and> entry_bytes e = Ok (mac @ [0, 0], v)"
proof -
  note shown = encode_entries_Ok [OF assms(4), THEN conjunct1]
  from selected_entry(2) [OF assms(1-3)] assms(5) obtain e where
    e: "e \<in> set (pl_entries p)" "entry_bytes e = Ok (mac @ [0, 0], entry_value e)" by auto
  with list_all2_set1 [OF shown e(1)] have "(mac @ [0, 0], entry_value e) \<in> set encoded" by auto
  then obtain v where v: "map_of encoded (mac @ [0, 0]) = Some v"
    using map_of_eq_None_iff [of encoded "mac @ [0, 0]"] by force
  from list_all2_set2 [OF shown map_of_SomeD [OF v]] show ?thesis using v by blast
qed

text \<open>C1. A client that a policy blocks loses its Internet packets in the kernel. Take a snapshot in which the
  first policy in force that decides on the client is a block, the plan made of it, and the client map encoded
  from the plan. Then, until the map expires, the programs that read this map drop every Internet packet that
  the client sends into a controlled ingress port and every Internet packet sent to it on a managed interface.\<close>

theorem blocked_client_dropped:
  assumes "from_snapshot env (PolicySnapshot s) gateway now_ms = Ok sel"
    and "p \<in> set (snap_policies s)" "decides s now_ms client p" "act_kind (action_of p) = ActionBlock"
    and "\<forall>q\<in>set (snap_policies s). decides s now_ms client q \<longrightarrow> selection_key p \<le> selection_key q"
    and "plan_next rt capacity_of inspected clock now s old sel = Ok planned"
    and "encode_entries clock' (pl_entries planned) = Ok encoded" and "qm_clients_active maps = Some (map_of encoded)"
    and "expires_ns_of clock now (expiry_ms_of sel s) = Some expires" and "t < expires"
    and "mac_from_str client = Ok mac" and "14 \<le> length (skb_data skb)"
  shows "(eth_source (skb_data skb) = mac \<and> skb_ifindex skb \<in> qm_ingress_ports maps \<and>
      qos_priority_is_internet_packet maps skb False \<longrightarrow> snd (snd (finish_ingress t maps skb tc_act_ok)) = tc_act_shot) \<and>
    (eth_destination (skb_data skb) = mac \<and> skb_ifindex skb \<in> qm_priority_roots maps \<and>
      qos_priority_is_internet_packet maps skb True \<longrightarrow> snd (snd (qos_priority_finish_egress t maps skb tc_act_ok)) = tc_act_shot)"
proof -
  from assms(2-5) have blocked: "client \<in> ps_blocked_macs sel" unfolding blocked_macs_iff [OF assms(1)] by blast
  with blocked_selected [OF assms(1)] have client: "client \<in> ps_clients sel" by blast
  from published_assignment [OF assms(1) client assms(6,7,11)] obtain v e where
    v: "map_of encoded (mac @ [0, 0]) = Some v" "e \<in> set (pl_entries planned)" "entry_bytes e = Ok (mac @ [0, 0], v)" by blast
  note entry = planned_entry [OF v(2) assms(6) selected_clients(1) [OF assms(1)] v(3) assms(11)
    selected_entry(1) [OF assms(1) client assms(6)] assms(9)]
  have live: "live_assignment t (read_assignment v)" "qca_flags (read_assignment v) AND qos_client_block \<noteq> 0"
    using entry assms(10) blocked by auto
  have "eth_source (skb_data skb) = mac \<Longrightarrow> qos_priority_client maps skb True = Some (read_assignment v)"
    "eth_destination (skb_data skb) = mac \<Longrightarrow> qos_priority_client maps skb False = Some (read_assignment v)"
    using v(1) assms(8,12) by (simp_all add: qos_priority_client_def)
  with ingress_blocked [OF _ _ live] egress_blocked [OF _ _ live] show ?thesis by blast
qed

text \<open>The client \<open>02:00:00:00:00:01\<close> sends an IPv4 packet to an address outside the configured networks.\<close>

definition ex_blocked_mac :: "u8 list" where
  "ex_blocked_mac = [2, 0, 0, 0, 0, 1]"

definition ex_ipv4 :: sk_buff where
  "ex_ipv4 = (ex_skb ex_blocked_mac)\<lparr>skb_data := replicate 6 4 @ ex_blocked_mac @ [8, 0, 0x45] @ replicate 45 0\<rparr>"

lemma ex_decides:
  "decides ex_block_snapshot (Some 1600000000000) ''02:00:00:00:00:01'' ex_client_block"
  "act_kind (action_of ex_client_block) = ActionBlock" "mac_from_str ''02:00:00:00:00:01'' = Ok ex_blocked_mac"
  by code_simp+

lemma ex_encoded: "case ex_planned of Inl _ \<Rightarrow> False | Inr p \<Rightarrow> is_ok (encode_entries 1000 (pl_entries p))"
  by code_simp

lemma ex_expires: "case expires_ns_of 1000 1600000000000 (expiry_ms_of ex_block_selection ex_block_snapshot) of
    None \<Rightarrow> False | Some expires \<Rightarrow> 2000 < expires"
  by code_simp

lemma internet_packet_clients:
  "qos_priority_is_internet_packet (maps\<lparr>qm_clients_active := clients\<rparr>) skb = qos_priority_is_internet_packet maps skb"
proof -
  have "qm_internal_v4 (maps\<lparr>qm_clients_active := clients\<rparr>) = qm_internal_v4 maps"
    "qm_internal_v6 (maps\<lparr>qm_clients_active := clients\<rparr>) = qm_internal_v6 maps" by simp_all
  then show ?thesis by (intro ext) (simp only: qos_priority_is_internet_packet_def)
qed

lemma ex_internet: "qos_priority_is_internet_packet (ex_qos_maps ex_blocked_mac) ex_ipv4 False"
  by code_simp

theorem blocked_client_dropped_witness:
  "\<exists>p encoded. ex_planned = Ok p \<and> encode_entries 1000 (pl_entries p) = Ok encoded \<and>
     snd (snd (finish_ingress 2000 ((ex_qos_maps ex_blocked_mac)\<lparr>qm_clients_active := Some (map_of encoded)\<rparr>) ex_ipv4 tc_act_ok)) = tc_act_shot"
proof -
  from ex_encoded obtain p encoded where p: "ex_planned = Ok p" "encode_entries 1000 (pl_entries p) = Ok encoded"
    by (auto simp: is_ok_iff split: sum.splits)
  from ex_expires obtain expires where
    expires: "expires_ns_of 1000 1600000000000 (expiry_ms_of ex_block_selection ex_block_snapshot) = Some expires" "2000 < expires"
    by (auto split: option.splits)
  let ?maps = "(ex_qos_maps ex_blocked_mac)\<lparr>qm_clients_active := Some (map_of encoded)\<rparr>"
  have policies: "snap_policies ex_block_snapshot = [ex_client_block]" by (simp add: ex_block_snapshot_def)
  have packet: "14 \<le> length (skb_data ex_ipv4)" "eth_source (skb_data ex_ipv4) = ex_blocked_mac"
    "skb_ifindex ex_ipv4 \<in> qm_ingress_ports ?maps" by (simp_all add: ex_ipv4_def ex_skb_def ex_qos_maps_def ex_blocked_mac_def eth_source_def slice_def)
  have internet: "qos_priority_is_internet_packet ?maps ex_ipv4 False" using ex_internet by (simp add: internet_packet_clients)
  have "snd (snd (finish_ingress 2000 ?maps ex_ipv4 tc_act_ok)) = tc_act_shot"
    using blocked_client_dropped [OF ex_block_selected _ ex_decides(1,2) _ p(1) [unfolded ex_planned_def] p(2) _ expires ex_decides(3)
      packet(1), of ?maps] packet internet by (simp add: policies)
  with p show ?thesis by blast
qed

end
